theory Spec2Isabelle
  imports Main "HOL-Library.Monad_Syntax"
begin

section \<open>The grammar (tags, entities, styles)\<close>

text \<open>
  The Go type \<open>ParentHood\<close> and the section-mode constants of the parser are enumerations.
\<close>

datatype ParentHood =
  NoParentHood | RootParentHood | DefaultRootParentHood | IndentParentHood | TextParentHood

datatype SectionMode =
  sectionNormal | sectionMedia | sectionTable | sectionCode | sectionMath | sectionParagraph

text \<open>
  \<open>TagDefinition\<close>: the fields the grammar and the parser compute with. The opaque payloads
  (\<open>HTMLTemplate\<close>, \<open>Resources\<close>, \<open>Config\<close>) and the back pointer \<open>grammar\<close> are
  never read by the code modelled here and are left out. \<open>DefaultParent\<close> is a \<open>*string\<close>
  in Go (nil or a name); the strings behind it are never written through the pointer.
\<close>

record TagDefinition =
  Name :: string
  DefaultParent :: "string option"
  SectionMode :: SectionMode
  PossibleParents :: "string list"
  Counter :: string
  ResetCounter :: "string list"
  DefaultAttribute :: string
  ClassShortcuts :: "string \<rightharpoonup> string"
  ParentHood :: ParentHood
  FirstChild :: bool
  allowedInParentHood :: bool

record EntityDefinition =
  EntityName :: string
  EntityCounter :: string
  EntityClassShortcuts :: "string \<rightharpoonup> string"

record StyleDefinition =
  StyleName :: string
  StyleClassShortcuts :: "string \<rightharpoonup> string"

text \<open>
  A \<open>*TagDefinition\<close> is modelled by the position of the definition in \<open>grammar.Tags\<close>:
  the slice is only ever appended to, so the position identifies the object, and a write
  through the pointer is a list update at that position. The same holds for entities and
  styles.
\<close>

type_synonym TagRef = nat
type_synonym EntityRef = nat
type_synonym StyleRef = nat

record Grammar =
  Tags :: "TagDefinition list"
  Entities :: "EntityDefinition list"
  Styles :: "StyleDefinition list"
  currentDefaultRoot :: "TagRef option"

datatype GrammarError = GrammarError string

text \<open>
  \<open>GetTag\<close>: \<open>for i := len(grammar.Tags) - 1; i >= 0; i--\<close>, first hit returned.
  The second argument of the loop is \<open>i + 1\<close>.
\<close>

primrec GetTag_loop :: "TagDefinition list \<Rightarrow> nat \<Rightarrow> string \<Rightarrow> TagRef option" where
  "GetTag_loop tags 0 tagname = None"
| "GetTag_loop tags (Suc i) tagname =
     (if Name (tags ! i) = tagname then Some i else GetTag_loop tags i tagname)"

definition GetTag :: "Grammar \<Rightarrow> string \<Rightarrow> TagRef option" where
  "GetTag grammar tagname = GetTag_loop (Tags grammar) (length (Tags grammar)) tagname"

text \<open>
  \<open>GetEntity\<close> and \<open>GetStyle\<close>: \<open>for _, e := range grammar.Entities\<close>, first hit returned.
  The loop carries the position of the head of the remaining slice.
\<close>

primrec GetEntity_loop :: "EntityDefinition list \<Rightarrow> nat \<Rightarrow> string \<Rightarrow> EntityRef option" where
  "GetEntity_loop [] i entityname = None"
| "GetEntity_loop (e # es) i entityname =
     (if EntityName e = entityname then Some i else GetEntity_loop es (Suc i) entityname)"

definition GetEntity :: "Grammar \<Rightarrow> string \<Rightarrow> EntityRef option" where
  "GetEntity grammar entityname = GetEntity_loop (Entities grammar) 0 entityname"

primrec GetStyle_loop :: "StyleDefinition list \<Rightarrow> nat \<Rightarrow> string \<Rightarrow> StyleRef option" where
  "GetStyle_loop [] i stylename = None"
| "GetStyle_loop (e # es) i stylename =
     (if StyleName e = stylename then Some i else GetStyle_loop es (Suc i) stylename)"

definition GetStyle :: "Grammar \<Rightarrow> string \<Rightarrow> StyleRef option" where
  "GetStyle grammar stylename = GetStyle_loop (Styles grammar) 0 stylename"

definition addBuiltinTag :: "Grammar \<Rightarrow> TagDefinition \<Rightarrow> Grammar" where
  "addBuiltinTag grammar tag =
     (if GetTag grammar (Name tag) \<noteq> None then grammar
      else grammar\<lparr>Tags := Tags grammar @ [tag]\<rparr>)"

definition addBuiltinEntity :: "Grammar \<Rightarrow> EntityDefinition \<Rightarrow> Grammar" where
  "addBuiltinEntity grammar entity =
     (if GetEntity grammar (EntityName entity) \<noteq> None then grammar
      else grammar\<lparr>Entities := Entities grammar @ [entity]\<rparr>)"

definition addCustomEntity :: "Grammar \<Rightarrow> EntityDefinition \<Rightarrow> Grammar" where
  "addCustomEntity grammar entity = grammar\<lparr>Entities := Entities grammar @ [entity]\<rparr>"

definition addCustomStyle :: "Grammar \<Rightarrow> StyleDefinition \<Rightarrow> Grammar" where
  "addCustomStyle grammar entity = grammar\<lparr>Styles := Styles grammar @ [entity]\<rparr>"

subsection \<open>addCustomTag\<close>

text \<open>
  The two messages of \<open>addCustomTag\<close>, \<open>fmt.Sprintf\<close> with \<open>%v\<close> on strings.
\<close>

definition defaultParentMsg :: "string \<Rightarrow> string \<Rightarrow> string" where
  "defaultParentMsg p n = ''Unknown tag named '' @ p @ '' is used as default parent for tag '' @ n"

definition possibleParentMsg :: "string \<Rightarrow> string \<Rightarrow> string" where
  "possibleParentMsg p n = ''Unknown tag named '' @ p @ '' is used as possible parent for tag '' @ n"

text \<open>
  \<open>for _, t := range tag.PossibleParents\<close>: the first name that \<open>GetTag\<close> does not find
  ends the call with an error.
\<close>

primrec checkPossibleParents :: "Grammar \<Rightarrow> string \<Rightarrow> string list \<Rightarrow> GrammarError option" where
  "checkPossibleParents grammar n [] = None"
| "checkPossibleParents grammar n (t # ts) =
     (if GetTag grammar t = None then Some (GrammarError (possibleParentMsg t n))
      else checkPossibleParents grammar n ts)"

text \<open>
  The body of \<open>for _, child := range grammar.Tags\<close> in the \<open>DefaultRootParentHood\<close>
  branch. \<open>cur\<close> is the name of \<open>grammar.currentDefaultRoot\<close> (None when the pointer is
  nil), \<open>tag\<close> the position of the tag being added, \<open>i\<close> the position of \<open>child\<close>.
\<close>

definition skipChild :: "string option \<Rightarrow> TagRef \<Rightarrow> nat \<Rightarrow> TagDefinition \<Rightarrow> bool" where
  "skipChild cur tag i child \<longleftrightarrow>
     (DefaultParent child \<noteq> None \<and> (cur = None \<or> DefaultParent child \<noteq> cur))
     \<or> ParentHood child = DefaultRootParentHood \<or> i = tag \<or> Name child = ''#root''"

primrec rewriteChildren ::
  "string option \<Rightarrow> TagRef \<Rightarrow> string \<Rightarrow> nat \<Rightarrow> TagDefinition list \<Rightarrow> TagDefinition list" where
  "rewriteChildren cur tag n i [] = []"
| "rewriteChildren cur tag n i (child # rest) =
     (if skipChild cur tag i child then child
      else child\<lparr>DefaultParent := Some n, PossibleParents := n # PossibleParents child\<rparr>)
     # rewriteChildren cur tag n (Suc i) rest"

definition currentDefaultRootName :: "Grammar \<Rightarrow> string option" where
  "currentDefaultRootName grammar =
     (case currentDefaultRoot grammar of None \<Rightarrow> None
      | Some r \<Rightarrow> Some (Name (Tags grammar ! r)))"

text \<open>
  \<open>addCustomTag\<close> mutates the grammar and returns an error or nil; the model returns the
  grammar as the call leaves it together with the error. \<open>t\<close> is the pointer \<open>tag\<close>.
\<close>

definition checkDefaultParent :: "Grammar \<Rightarrow> TagDefinition \<Rightarrow> GrammarError option" where
  "checkDefaultParent grammar tag =
     (case DefaultParent tag of
        None \<Rightarrow> None
      | Some p \<Rightarrow>
          if GetTag grammar p = None then Some (GrammarError (defaultParentMsg p (Name tag)))
          else None)"

definition addCustomTag :: "Grammar \<Rightarrow> TagDefinition \<Rightarrow> Grammar \<times> GrammarError option" where
  "addCustomTag grammar tag =
     (let t = length (Tags grammar);
          g1 = grammar\<lparr>Tags := Tags grammar @ [tag]\<rparr>
      in case checkDefaultParent g1 tag of
           Some err \<Rightarrow> (g1, Some err)
         | None \<Rightarrow>
          (case checkPossibleParents g1 (Name tag) (PossibleParents tag) of
             Some err \<Rightarrow> (g1, Some err)
           | None \<Rightarrow>
              (let g2 = (if DefaultParent tag = None \<and> Name tag \<noteq> ''#root''
                         then g1\<lparr>Tags := (Tags g1)[t := (Tags g1 ! t)\<lparr>allowedInParentHood := True\<rparr>]\<rparr>
                         else g1);
                   g3 = (if ParentHood tag = DefaultRootParentHood
                         then g2\<lparr>Tags := rewriteChildren (currentDefaultRootName g2) t (Name tag) 0 (Tags g2),
                                 currentDefaultRoot := Some t\<rparr>
                         else g2);
                   g4 = (if currentDefaultRoot g3 \<noteq> None \<and> DefaultParent (Tags g3 ! t) = None
                            \<and> Name (Tags g3 ! t) \<noteq> ''#root''
                         then g3\<lparr>Tags := (Tags g3)[t := (Tags g3 ! t)\<lparr>DefaultParent := currentDefaultRootName g3\<rparr>]\<rparr>
                         else g3)
               in (g4, None))))"

subsection \<open>The builtin tags\<close>

text \<open>
  The positional struct literals of \<open>loadBuiltinTags\<close>, without the fields left out of
  \<open>TagDefinition\<close>; \<open>ClassShortcuts\<close> is nil in every builtin tag.
\<close>

definition builtinTag ::
  "string \<Rightarrow> string option \<Rightarrow> SectionMode \<Rightarrow> string list \<Rightarrow> string \<Rightarrow> string list \<Rightarrow> string
   \<Rightarrow> ParentHood \<Rightarrow> bool \<Rightarrow> bool \<Rightarrow> TagDefinition" where
  "builtinTag n dp sm pp c rc da ph fc allowed =
     \<lparr>Name = n, DefaultParent = dp, SectionMode = sm, PossibleParents = pp, Counter = c,
      ResetCounter = rc, DefaultAttribute = da, ClassShortcuts = Map.empty, ParentHood = ph,
      FirstChild = fc, allowedInParentHood = allowed\<rparr>"

definition builtinTags :: "TagDefinition list" where
  "builtinTags =
    [builtinTag ''#root'' None sectionNormal [] '''' [] '''' RootParentHood False False,
     builtinTag ''#p'' None sectionParagraph [] '''' [] '''' TextParentHood False True,
     builtinTag ''#ul'' None sectionNormal [] '''' [] '''' IndentParentHood False True,
     builtinTag ''#li'' (Some ''#ul'') sectionNormal [''#ul'', ''#ol''] '''' [] '''' TextParentHood False False,
     builtinTag ''#ol'' None sectionNormal [] '''' [] '''' IndentParentHood False True,
     builtinTag ''#'' None sectionNormal [] '''' [] '''' TextParentHood False True,
     builtinTag ''##'' None sectionNormal [] '''' [] '''' TextParentHood False True,
     builtinTag ''###'' None sectionNormal [] '''' [] '''' TextParentHood False True,
     builtinTag ''####'' None sectionNormal [] '''' [] '''' TextParentHood False True,
     builtinTag ''#table'' None sectionTable [] ''Table'' [] '''' NoParentHood False True,
     builtinTag ''#tbody'' (Some ''#table'') sectionTable [''#table'', ''#pie'', ''#chart''] '''' [] '''' NoParentHood False False,
     builtinTag ''#thead'' (Some ''#table'') sectionTable [''#table'', ''#pie'', ''#chart''] '''' [] '''' NoParentHood False False,
     builtinTag ''#tbody-row'' (Some ''#tbody'') sectionTable [''#tbody''] '''' [] '''' NoParentHood False False,
     builtinTag ''#thead-row'' (Some ''#thead'') sectionTable [''#thead''] '''' [] '''' NoParentHood False False,
     builtinTag ''#tbody-cell'' (Some ''#tbody-row'') sectionTable [''#tbody-row''] '''' [] '''' TextParentHood False False,
     builtinTag ''#thead-cell'' (Some ''#thead-row'') sectionTable [''#thead-row''] '''' [] '''' TextParentHood False False,
     builtinTag ''#code'' None sectionCode [] ''Sample'' [] ''class'' TextParentHood False True,
     builtinTag ''#math'' None sectionMath [] ''Equation'' [] '''' TextParentHood False True,
     builtinTag ''#bib'' None sectionNormal [] ''bib'' [] ''label'' TextParentHood False True,
     builtinTag ''#pie'' None sectionTable [] ''Chart'' [] '''' NoParentHood False True,
     builtinTag ''#chart'' None sectionTable [] ''Chart'' [] '''' NoParentHood False True,
     builtinTag ''#caption'' None sectionNormal [] '''' [] '''' TextParentHood False True,
     builtinTag ''>'' None sectionNormal [] '''' [] '''' IndentParentHood False True,
     builtinTag ''#dl'' None sectionNormal [] '''' [] '''' IndentParentHood False True,
     builtinTag ''#dt'' (Some ''#dl'') sectionNormal [''#dl''] '''' [] '''' TextParentHood False False,
     builtinTag ''#dd'' (Some ''#dl'') sectionNormal [''#dl''] '''' [] '''' IndentParentHood False False]"

definition loadBuiltinTags :: "Grammar \<Rightarrow> Grammar" where
  "loadBuiltinTags grammar = foldl addBuiltinTag grammar builtinTags"

definition NewGrammar :: Grammar where
  "NewGrammar = loadBuiltinTags \<lparr>Tags = [], Entities = [], Styles = [], currentDefaultRoot = None\<rparr>"

section \<open>The document tree\<close>

text \<open>
  Pointers into the tree are references into a store: a \<open>*DocumentNode\<close> is a \<open>NodeRef\<close>,
  a \<open>*StyleNode\<close> a \<open>StyleNodeRef\<close>. A Go map is a reference too: the counters maps
  live in a store of their own and a \<open>map[string]int\<close> value is a \<open>CountersRef\<close>.
  A store is a total function from references to objects together with the number of
  objects allocated so far; \<open>new\<close> returns that number and increments it, so a fresh
  reference differs from every reference handed out before.
\<close>

type_synonym NodeRef = nat
type_synonym StyleNodeRef = nat
type_synonym CountersRef = nat

text \<open>
  \<open>NodeWithText\<close> is implemented by \<open>*DocumentNode\<close> and \<open>*StyleNode\<close>.
\<close>

datatype NodeWithText = DocumentNodeRef NodeRef | StyleNodeRef StyleNodeRef

text \<open>
  \<open>EntityNode\<close>; \<open>forcedID\<close> and \<open>ctx\<close> belong to the HTML generator and are left out.
  The field names carry the prefix \<open>Entity\<close> because Isabelle record fields share one
  name space.
\<close>

record EntityNode =
  EntityNodeName :: string
  EntityNodeDefinition :: EntityRef
  EntityNodeAttributes :: "string \<rightharpoonup> string"
  EntityNodeParent :: NodeWithText
  EntityNodeCounters :: CountersRef
  EntityNodeValue :: string

text \<open>
  The values of the interface \<open>Node\<close> that are stored in a \<open>Text\<close> slice. Text, math and
  code nodes are never written after their creation and are stored by value; a style
  node is written after it has been appended and is stored by reference.
\<close>

datatype Node =
    TextNode string NodeWithText
  | MathNode string NodeWithText
  | CodeNode string NodeWithText
  | StyleNodePtr StyleNodeRef
  | EntityNodePtr EntityNode

record StyleNode =
  StyleNodeName :: string
  StyleNodeDefinition :: "StyleRef option"
  StyleNodeAttributes :: "string \<rightharpoonup> string"
  StyleNodeParent :: NodeWithText
  StyleNodeText :: "Node list"
  StyleNodeValue :: string

text \<open>
  \<open>DocumentNode\<close>; \<open>forcedID\<close>, \<open>Config\<close> and \<open>ctx\<close> are never touched by the parser
  and are left out. A nil \<open>Attributes\<close> map reads like the empty map, and the parser
  writes only to maps it has made.
\<close>

record DocumentNode =
  Tag :: string
  TagDefinition :: "TagRef option"
  Counters :: "CountersRef option"
  Parent :: "NodeRef option"
  NextSibling :: "NodeRef option"
  PrevSibling :: "NodeRef option"
  Children :: "NodeRef list"
  Text :: "Node list"
  Document :: "NodeRef option"
  Attributes :: "string \<rightharpoonup> string"
  Colspan :: int
  Indent :: int

type_synonym NodeStore = "NodeRef \<Rightarrow> DocumentNode"

text \<open>
  \<open>appendChild\<close> (a closure of \<open>Parser.parse\<close>), on the store of document nodes. The
  writes are made one after the other, as in the source, so that the model is right
  also when \<open>parent\<close>, \<open>child\<close> and the last child are not distinct.
\<close>

definition appendChild :: "NodeRef \<Rightarrow> NodeRef \<Rightarrow> NodeStore \<Rightarrow> NodeStore" where
  "appendChild parent child h =
     (let h1 = h(child := (h child)\<lparr>Parent := Some parent\<rparr>);
          h2 = (if length (Children (h1 parent)) > 0
                then (let childPrev = last (Children (h1 parent));
                          h1a = h1(childPrev := (h1 childPrev)\<lparr>NextSibling := Some child\<rparr>)
                      in h1a(child := (h1a child)\<lparr>PrevSibling := Some childPrev\<rparr>))
                else h1)
      in h2(parent := (h2 parent)\<lparr>Children := Children (h2 parent) @ [child]\<rparr>))"

text \<open>
  \<open>DocumentNode.RemoveChild\<close>: \<open>for i, c := range node.Children\<close>; at the first
  \<open>c == child\<close> the slice loses position \<open>i\<close>, \<open>child.Parent\<close> is set to nil and the
  method returns. \<open>removeAt\<close> is \<open>append(node.Children[:i], node.Children[i+1:]...)\<close>.
\<close>

primrec removeFirst :: "NodeRef \<Rightarrow> NodeRef list \<Rightarrow> NodeRef list option" where
  "removeFirst child [] = None"
| "removeFirst child (c # cs) =
     (if c = child then Some cs
      else (case removeFirst child cs of None \<Rightarrow> None | Some cs' \<Rightarrow> Some (c # cs')))"

definition RemoveChild :: "NodeRef \<Rightarrow> NodeRef \<Rightarrow> NodeStore \<Rightarrow> NodeStore" where
  "RemoveChild node child h =
     (case removeFirst child (Children (h node)) of
        None \<Rightarrow> h
      | Some cs \<Rightarrow>
          (let h1 = h(node := (h node)\<lparr>Children := cs\<rparr>)
           in h1(child := (h1 child)\<lparr>Parent := None\<rparr>)))"

section \<open>The scanner\<close>

datatype Token =
    TokenEOF | TokenText | TokenSection | TokenValue | TokenEnum | TokenStyle | TokenEntity
  | TokenCodeText | TokenMathText | TokenConfigText | TokenTableCell | TokenTableRow

datatype scannerMode =
  modeNormal | modeSection | modeNewTag | modeStyle | modeEmbed | modeInjectSection | modeConfig

datatype textMode = textNormal | textTable | textCode | textMath | textParagraph

record ScannerRange =
  FromLine :: nat
  FromLinePos :: int
  From :: nat
  To :: nat

record ScannerError =
  Pos :: ScannerRange
  ErrorText :: string

text \<open>
  The source \<open>[]byte\<close> is a \<open>string\<close> (Isabelle characters are bytes). \<open>ch\<close> is a rune,
  with \<open>-1\<close> for the end of the file. The offsets index \<open>src\<close> and start at 0; they are
  only ever assigned other offsets, \<open>len(src)\<close> or an offset plus a width, so they are
  natural numbers; \<open>indent\<close> is a difference of two offsets and an \<open>int\<close>.
\<close>

record Scanner =
  src :: string
  mode :: scannerMode
  nextMode :: scannerMode
  textMode :: textMode
  ch :: int
  offset :: nat
  readOffset :: nat
  lineOffset :: nat
  lineCount :: nat
  indent :: int
  Errors :: "ScannerError list"

definition rune :: "char \<Rightarrow> int" where
  "rune c = int (of_char c)"

definition NewScanner :: "string \<Rightarrow> Scanner" where
  "NewScanner markdown =
     \<lparr>src = markdown, mode = modeNewTag, nextMode = modeNormal, textMode = textNormal, ch = 0,
      offset = 0, readOffset = 0, lineOffset = 0, lineCount = 0, indent = 0, Errors = []\<rparr>"

definition error :: "nat \<Rightarrow> int \<Rightarrow> nat \<Rightarrow> string \<Rightarrow> Scanner \<Rightarrow> Scanner" where
  "error line linepos off txt scanner =
     scanner\<lparr>Errors := Errors scanner @
       [\<lparr>Pos = \<lparr>FromLine = line, FromLinePos = linepos, From = off, To = off\<rparr>, ErrorText = txt\<rparr>]\<rparr>"

subsection \<open>utf8.DecodeRune\<close>

text \<open>
  \<open>utf8.DecodeRune\<close> belongs to the Go standard library, not to the repository. It is
  modelled here from its documented behaviour: the rune and the width of the first
  UTF-8 encoding in \<open>p\<close>; \<open>(RuneError, 0)\<close> for the empty slice and \<open>(RuneError, 1)\<close> for
  an encoding that is not well formed (a stray continuation byte, an overlong form, a
  surrogate, a value above U+10FFFF, a truncated sequence).
\<close>

definition RuneError :: int where
  "RuneError = 0xFFFD"

definition cont :: "nat \<Rightarrow> nat \<Rightarrow> char \<Rightarrow> bool" where
  "cont lo hi b \<longleftrightarrow> lo \<le> of_char b \<and> (of_char b :: nat) \<le> hi"

definition DecodeRune :: "string \<Rightarrow> int \<times> nat" where
  "DecodeRune p =
     (case p of
        [] \<Rightarrow> (RuneError, 0)
      | p0 # rest \<Rightarrow>
         (let n0 = (of_char p0 :: nat) in
          if n0 < 0x80 then (int n0, 1)
          else if 0xC2 \<le> n0 \<and> n0 \<le> 0xDF then
            (case rest of
               b1 # _ \<Rightarrow>
                 if cont 0x80 0xBF b1
                 then (int ((n0 mod 32) * 64 + of_char b1 mod 64), 2)
                 else (RuneError, 1)
             | _ \<Rightarrow> (RuneError, 1))
          else if 0xE0 \<le> n0 \<and> n0 \<le> 0xEF then
            (case rest of
               b1 # b2 # _ \<Rightarrow>
                 if cont (if n0 = 0xE0 then 0xA0 else 0x80) (if n0 = 0xED then 0x9F else 0xBF) b1
                    \<and> cont 0x80 0xBF b2
                 then (int ((n0 mod 16) * 4096 + (of_char b1 mod 64) * 64 + of_char b2 mod 64), 3)
                 else (RuneError, 1)
             | _ \<Rightarrow> (RuneError, 1))
          else if 0xF0 \<le> n0 \<and> n0 \<le> 0xF4 then
            (case rest of
               b1 # b2 # b3 # _ \<Rightarrow>
                 if cont (if n0 = 0xF0 then 0x90 else 0x80) (if n0 = 0xF4 then 0x8F else 0xBF) b1
                    \<and> cont 0x80 0xBF b2 \<and> cont 0x80 0xBF b3
                 then (int ((n0 mod 8) * 262144 + (of_char b1 mod 64) * 4096
                            + (of_char b2 mod 64) * 64 + of_char b3 mod 64), 4)
                 else (RuneError, 1)
             | _ \<Rightarrow> (RuneError, 1))
          else (RuneError, 1)))"

subsection \<open>Reading characters\<close>

text \<open>
  \<open>Scanner.next\<close> (\<open>next\<close> is a keyword of Isabelle, hence the qualified name). The two
  branches share the line bookkeeping \<open>if scanner.ch == '\n' { ... }\<close>.
\<close>

definition newLine :: "Scanner \<Rightarrow> Scanner" where
  "newLine scanner =
     (if ch scanner = rune (CHR 0x0A)
      then scanner\<lparr>lineOffset := offset scanner, lineCount := lineCount scanner + 1\<rparr>
      else scanner)"

definition Scanner_next :: "Scanner \<Rightarrow> Scanner" where
  "Scanner_next scanner =
     (if readOffset scanner < length (src scanner) then
        (let s1 = newLine (scanner\<lparr>offset := readOffset scanner\<rparr>);
             r0 = rune (src s1 ! readOffset s1)
         in if r0 = 0 then
              (error (lineCount s1) (int (offset s1) - int (lineOffset s1)) (offset s1)
                 ''illegal character NUL'' s1)
              \<lparr>readOffset := readOffset s1 + 1, ch := r0\<rparr>
            else if r0 \<ge> 0x80 then
              (let (r, w) = DecodeRune (drop (readOffset s1) (src s1));
                   s2 = (if r = RuneError \<and> w = 1
                         then error (lineCount s1) (int (offset s1) - int (lineOffset s1)) (offset s1)
                                ''illegal UTF-8 encoding'' s1
                         else s1)
               in s2\<lparr>readOffset := readOffset s2 + w, ch := r\<rparr>)
            else s1\<lparr>readOffset := readOffset s1 + 1, ch := r0\<rparr>)
      else (newLine (scanner\<lparr>offset := length (src scanner)\<rparr>))\<lparr>ch := - 1\<rparr>)"

text \<open>
  The measure behind every loop of the scanner: a call of \<open>next\<close> either moves
  \<open>readOffset\<close> forward or, at the end of the source, sets \<open>ch\<close> to \<open>-1\<close>.
\<close>

definition remaining :: "Scanner \<Rightarrow> nat" where
  "remaining scanner =
     2 * (length (src scanner) - readOffset scanner) + (if ch scanner = - 1 then 0 else 1)"

lemma DecodeRune_width: "p \<noteq> [] \<Longrightarrow> 1 \<le> snd (DecodeRune p)"
  by (auto simp: DecodeRune_def Let_def split: list.splits)

lemma DecodeRune_rune: "fst (DecodeRune p) \<noteq> - 1"
  by (auto simp: DecodeRune_def Let_def RuneError_def split: list.splits)

lemma src_Scanner_next [simp]: "src (Scanner_next scanner) = src scanner"
  by (simp add: Scanner_next_def newLine_def error_def Let_def split: prod.splits)

lemma readOffset_Scanner_next:
  assumes "readOffset scanner < length (src scanner)"
  shows "readOffset scanner < readOffset (Scanner_next scanner)"
proof -
  obtain r w where d: "DecodeRune (drop (readOffset scanner) (src scanner)) = (r, w)"
    by (cases "DecodeRune (drop (readOffset scanner) (src scanner))")
  from assms have "drop (readOffset scanner) (src scanner) \<noteq> []" by simp
  from DecodeRune_width[OF this] d have "1 \<le> w" by simp
  with assms d show ?thesis
    by (simp add: Scanner_next_def newLine_def error_def Let_def)
qed

lemma ch_Scanner_next_eof:
  "\<not> readOffset scanner < length (src scanner) \<Longrightarrow> ch (Scanner_next scanner) = - 1"
  by (simp add: Scanner_next_def)

lemma readOffset_Scanner_next_eof:
  "\<not> readOffset scanner < length (src scanner) \<Longrightarrow>
   readOffset (Scanner_next scanner) = readOffset scanner"
  by (simp add: Scanner_next_def newLine_def)

lemma remaining_next_le: "remaining (Scanner_next scanner) \<le> remaining scanner"
proof (cases "readOffset scanner < length (src scanner)")
  case True
  from readOffset_Scanner_next[OF True] True show ?thesis
    unfolding remaining_def by (simp split: if_splits) arith
next
  case False
  then show ?thesis
    by (simp add: remaining_def ch_Scanner_next_eof readOffset_Scanner_next_eof)
qed

lemma remaining_next_less:
  "ch scanner \<noteq> - 1 \<Longrightarrow> remaining (Scanner_next scanner) < remaining scanner"
proof (cases "readOffset scanner < length (src scanner)")
  case True
  from readOffset_Scanner_next[OF True] True show ?thesis
    unfolding remaining_def by (simp split: if_splits) arith
next
  case False
  assume "ch scanner \<noteq> - 1"
  with False show ?thesis
    by (simp add: remaining_def ch_Scanner_next_eof readOffset_Scanner_next_eof)
qed

text \<open>
  The loops of the scanner that only call \<open>next\<close> while a condition on the scanner holds:
  \<open>for cond { scanner.next() }\<close>. Every such condition of the source implies
  \<open>scanner.ch != -1\<close> (it either says so or compares \<open>ch\<close> with a character).
\<close>

function skipWhile :: "(Scanner \<Rightarrow> bool) \<Rightarrow> Scanner \<Rightarrow> Scanner" where
  "skipWhile cond scanner =
     (if ch scanner \<noteq> - 1 \<and> cond scanner then skipWhile cond (Scanner_next scanner) else scanner)"
  by pat_completeness auto
termination
  by (relation "measure (\<lambda>(cond, scanner). remaining scanner)") (auto simp: remaining_next_less)

declare skipWhile.simps [simp del]

lemma remaining_skipWhile_le: "remaining (skipWhile cond scanner) \<le> remaining scanner"
proof (induction cond scanner rule: skipWhile.induct)
  case (1 cond scanner)
  show ?case
  proof (cases "ch scanner \<noteq> - 1 \<and> cond scanner")
    case True
    with 1 have "remaining (skipWhile cond (Scanner_next scanner)) \<le> remaining (Scanner_next scanner)"
      by simp
    also have "\<dots> \<le> remaining scanner" by (rule remaining_next_le)
    finally show ?thesis using True by (subst skipWhile.simps) simp
  next
    case False
    then show ?thesis by (subst skipWhile.simps) auto
  qed
qed

text \<open>
  The characters the scanner compares \<open>ch\<close> with. \<open>isBlank\<close> is
  \<open>ch == ' ' || ch == '\t'\<close>, \<open>isSpace\<close> adds \<open>'\r'\<close> and \<open>'\n'\<close>.
\<close>

definition chNewline :: int where "chNewline = rune (CHR 0x0A)"
definition chReturn :: int where "chReturn = rune (CHR 0x0D)"
definition chTab :: int where "chTab = rune (CHR 0x09)"
definition chBlank :: int where "chBlank = rune CHR '' ''"
definition chBackslash :: int where "chBackslash = rune (CHR 0x5C)"
definition chBacktick :: int where "chBacktick = rune (CHR 0x60)"

definition isBlank :: "int \<Rightarrow> bool" where
  "isBlank c \<longleftrightarrow> c = chBlank \<or> c = chTab"

definition isSpace :: "int \<Rightarrow> bool" where
  "isSpace c \<longleftrightarrow> c = chBlank \<or> c = chReturn \<or> c = chTab \<or> c = chNewline"

text \<open>\<open>ch == '#' || ch == '+' || ch == '-' || ch == '%' || ch == '>'\<close>\<close>

definition isTagStart :: "int \<Rightarrow> bool" where
  "isTagStart c \<longleftrightarrow>
     c = rune CHR ''#'' \<or> c = rune CHR ''+'' \<or> c = rune CHR ''-'' \<or> c = rune CHR ''%''
     \<or> c = rune CHR ''>''"

text \<open>
  \<open>string(scanner.src[a:b])\<close>. At every use \<open>a\<close> is an offset saved earlier and \<open>b\<close> the
  current offset (or the offset before a backslash just read), so \<open>a \<le> b \<le> len(src)\<close>.
\<close>

definition slice :: "string \<Rightarrow> nat \<Rightarrow> nat \<Rightarrow> string" where
  "slice bs a b = take (b - a) (drop a bs)"

definition skipWhitespace :: "bool \<Rightarrow> Scanner \<Rightarrow> Scanner" where
  "skipWhitespace newline =
     skipWhile (\<lambda>scanner. ch scanner = chBlank \<or> ch scanner = chTab
                  \<or> (newline \<and> ch scanner = chNewline) \<or> ch scanner = chReturn)"

text \<open>
  \<open>isStartOfLine\<close>: the loop starts at \<open>scanner.lineCount\<close> (not at \<open>lineOffset\<close>) in the
  source, and so does the model.
\<close>

definition isStartOfLine :: "Scanner \<Rightarrow> bool" where
  "isStartOfLine scanner \<longleftrightarrow>
     lineOffset scanner = offset scanner
     \<or> list_all (\<lambda>c. rune c = chBlank \<or> rune c = chTab \<or> rune c = chReturn)
          (slice (src scanner) (lineCount scanner) (offset scanner))"

lemma remaining_skipWhitespace_le: "remaining (skipWhitespace b scanner) \<le> remaining scanner"
  by (simp add: skipWhitespace_def remaining_skipWhile_le)

function skipUntilEmptyLine :: "Scanner \<Rightarrow> Scanner" where
  "skipUntilEmptyLine scanner =
     (if ch scanner \<noteq> - 1 then
        (if ch scanner = chNewline then
           (let s1 = skipWhitespace False (Scanner_next scanner)
            in if ch s1 = chNewline then Scanner_next s1
               else skipUntilEmptyLine (Scanner_next s1))
         else skipUntilEmptyLine (Scanner_next scanner))
      else scanner)"
  by pat_completeness auto
termination
proof (relation "measure remaining")
  show "wf (measure remaining)" by simp
next
  fix scanner s1 :: Scanner
  assume "ch scanner \<noteq> - 1" and s1: "s1 = skipWhitespace False (Scanner_next scanner)"
  then have "remaining (Scanner_next scanner) < remaining scanner" by (simp add: remaining_next_less)
  moreover have "remaining s1 \<le> remaining (Scanner_next scanner)"
    unfolding s1 by (rule remaining_skipWhitespace_le)
  moreover have "remaining (Scanner_next s1) \<le> remaining s1" by (rule remaining_next_le)
  ultimately show "(Scanner_next s1, scanner) \<in> measure remaining" by simp
next
  fix scanner :: Scanner
  assume "ch scanner \<noteq> - 1"
  then show "(Scanner_next scanner, scanner) \<in> measure remaining"
    by (simp add: remaining_next_less)
qed

declare skipUntilEmptyLine.simps [simp del]

lemma remaining_skipUntilEmptyLine_le: "remaining (skipUntilEmptyLine scanner) \<le> remaining scanner"
proof (induction scanner rule: skipUntilEmptyLine.induct)
  case (1 scanner)
  show ?case
  proof (cases "ch scanner \<noteq> - 1")
    case False
    then show ?thesis by (subst skipUntilEmptyLine.simps) simp
  next
    case c: True
    show ?thesis
    proof (cases "ch scanner = chNewline")
      case n: True
      define s1 where "s1 = skipWhitespace False (Scanner_next scanner)"
      have le1: "remaining s1 \<le> remaining scanner"
        unfolding s1_def using remaining_skipWhitespace_le remaining_next_le le_trans by blast
      show ?thesis
      proof (cases "ch s1 = chNewline")
        case True
        have "skipUntilEmptyLine scanner = Scanner_next s1"
          using c n True by (subst skipUntilEmptyLine.simps) (simp add: s1_def Let_def)
        then show ?thesis using le1 remaining_next_le le_trans by metis
      next
        case False
        have e: "skipUntilEmptyLine scanner = skipUntilEmptyLine (Scanner_next s1)"
          using c n False by (subst skipUntilEmptyLine.simps) (simp add: s1_def Let_def)
        have "remaining (skipUntilEmptyLine (Scanner_next s1)) \<le> remaining (Scanner_next s1)"
          using "1.IH"(1)[OF c n s1_def False] .
        then show ?thesis unfolding e using le1 remaining_next_le le_trans by metis
      qed
    next
      case False
      have e: "skipUntilEmptyLine scanner = skipUntilEmptyLine (Scanner_next scanner)"
        using c False by (subst skipUntilEmptyLine.simps) simp
      from "1.IH"(2)[OF c False] show ?thesis
        unfolding e using remaining_next_le le_trans by metis
    qed
  qed
qed

lemma le_next: "remaining x \<le> remaining (Scanner_next scanner) \<Longrightarrow> remaining x \<le> remaining scanner"
  using remaining_next_le le_trans by blast

lemma less_next: "ch scanner \<noteq> - 1 \<Longrightarrow> remaining x \<le> remaining (Scanner_next scanner) \<Longrightarrow>
    remaining x < remaining scanner"
  using remaining_next_less le_less_trans by blast

subsection \<open>The loops that collect text\<close>

text \<open>
  Inline code, after the opening backtick:
  \<open>for ; ch != '`' && ch != -1 && ch != '\r' && ch != '\n'; next() { if ch == '\\' { next();
  if ch == '`' { str += src[start:offset-1]; start = offset; next() } } }\<close>.
  The loop state is the scanner with the locals \<open>start\<close> and \<open>str\<close>.
\<close>

function codeLoop :: "Scanner \<Rightarrow> nat \<Rightarrow> string \<Rightarrow> Scanner \<times> nat \<times> string" where
  "codeLoop scanner start str =
     (if ch scanner \<noteq> chBacktick \<and> ch scanner \<noteq> - 1 \<and> ch scanner \<noteq> chReturn
         \<and> ch scanner \<noteq> chNewline then
        (if ch scanner = chBackslash then
           (let s1 = Scanner_next scanner
            in if ch s1 = chBacktick
               then codeLoop (Scanner_next (Scanner_next s1)) (offset s1)
                      (str @ slice (src s1) start (offset s1 - 1))
               else codeLoop (Scanner_next s1) start str)
         else codeLoop (Scanner_next scanner) start str)
      else (scanner, start, str))"
  by pat_completeness auto
termination
  by (relation "measure (\<lambda>(scanner, start, str). remaining scanner)")
     (auto intro!: less_next le_next)

declare codeLoop.simps [simp del]

text \<open>
  Inline math, after the opening dollar:
  \<open>for ; ch != '$' && ch != -1; next() { if ch == '\\' { next(); if ch == '$' { ... } } }\<close>.
\<close>

function mathLoop :: "Scanner \<Rightarrow> nat \<Rightarrow> string \<Rightarrow> Scanner \<times> nat \<times> string" where
  "mathLoop scanner start str =
     (if ch scanner \<noteq> rune CHR ''$'' \<and> ch scanner \<noteq> - 1 then
        (if ch scanner = chBackslash then
           (let s1 = Scanner_next scanner
            in if ch s1 = rune CHR ''$''
               then mathLoop (Scanner_next (Scanner_next s1)) (offset s1)
                      (str @ slice (src s1) start (offset s1 - 1))
               else mathLoop (Scanner_next s1) start str)
         else mathLoop (Scanner_next scanner) start str)
      else (scanner, start, str))"
  by pat_completeness auto
termination
  by (relation "measure (\<lambda>(scanner, start, str). remaining scanner)")
     (auto intro!: less_next le_next)

declare mathLoop.simps [simp del]

text \<open>
  A value in mode \<open>modeStyle\<close>, \<open>modeEmbed\<close> or \<open>modeSection\<close>: the loop runs to a white
  space, a \<open>;\<close>, the end of the file, a \<open>~\<close> in embed mode or a \<open>}\<close> in style mode; a
  backslash is dropped and the character after it is taken as it is.
\<close>

definition valueCond :: "Scanner \<Rightarrow> bool" where
  "valueCond scanner \<longleftrightarrow>
     ch scanner \<noteq> - 1 \<and> ch scanner \<noteq> chBlank \<and> ch scanner \<noteq> chTab \<and> ch scanner \<noteq> chReturn
     \<and> ch scanner \<noteq> chNewline
     \<and> (mode scanner \<noteq> modeEmbed \<or> ch scanner \<noteq> rune CHR ''~'')
     \<and> (mode scanner \<noteq> modeStyle \<or> ch scanner \<noteq> rune CHR ''}'')
     \<and> ch scanner \<noteq> rune CHR '';''"

function valueLoop :: "Scanner \<Rightarrow> nat \<Rightarrow> string \<Rightarrow> Scanner \<times> nat \<times> string" where
  "valueLoop scanner start result =
     (if valueCond scanner then
        (if ch scanner = chBackslash then
           (let s1 = Scanner_next scanner
            in valueLoop (Scanner_next s1) (offset s1)
                 (result @ slice (src scanner) start (offset scanner)))
         else valueLoop (Scanner_next scanner) start result)
      else (scanner, start, result))"
  by pat_completeness auto
termination
  by (relation "measure (\<lambda>(scanner, start, str). remaining scanner)")
     (auto simp: valueCond_def intro!: less_next le_next)

declare valueLoop.simps [simp del]

text \<open>
  Plain text. The loop state is the scanner with the locals \<open>start\<close>, \<open>result\<close>,
  \<open>newline\<close> and \<open>colon\<close>. The \<open>break\<close> on an empty line ends the loop after
  \<open>next()\<close> and \<open>mode = modeNewTag\<close>.
\<close>

definition textCond :: "Scanner \<Rightarrow> bool \<Rightarrow> bool \<Rightarrow> bool" where
  "textCond scanner newline colon \<longleftrightarrow>
     ch scanner \<noteq> - 1 \<and> ch scanner \<noteq> rune CHR ''{'' \<and> ch scanner \<noteq> rune CHR ''}''
     \<and> ch scanner \<noteq> rune CHR ''~'' \<and> ch scanner \<noteq> chBacktick \<and> ch scanner \<noteq> rune CHR ''$''
     \<and> ch scanner \<noteq> rune CHR ''_'' \<and> ch scanner \<noteq> rune CHR ''*''
     \<and> (\<not> newline \<or> \<not> isTagStart (ch scanner))
     \<and> (textMode scanner \<noteq> textTable \<or> ch scanner \<noteq> rune CHR ''|'')
     \<and> (textMode scanner \<noteq> textParagraph \<or> ch scanner \<noteq> chNewline \<or> \<not> colon)"

function textLoop ::
  "Scanner \<Rightarrow> nat \<Rightarrow> string \<Rightarrow> bool \<Rightarrow> bool \<Rightarrow> Scanner \<times> nat \<times> string \<times> bool \<times> bool" where
  "textLoop scanner start result newline colon =
     (if textCond scanner newline colon then
        (if newline \<and> ch scanner = chNewline then
           ((Scanner_next scanner)\<lparr>mode := modeNewTag\<rparr>, start, result, newline, colon)
         else if ch scanner = chReturn \<or> ch scanner = chNewline
                 \<or> (newline \<and> (ch scanner = chBlank \<or> ch scanner = chTab)) then
           textLoop (Scanner_next scanner) start result True colon
         else if ch scanner = rune CHR '':'' then
           textLoop (Scanner_next scanner) start result False True
         else if ch scanner = chBackslash then
           (let s1 = Scanner_next scanner
            in textLoop (Scanner_next s1) (offset s1)
                 (result @ slice (src scanner) start (offset scanner)) False False)
         else if ch scanner \<noteq> chBlank \<and> ch scanner \<noteq> chTab \<and> ch scanner \<noteq> chReturn then
           textLoop (Scanner_next scanner) start result False False
         else textLoop (Scanner_next scanner) start result False colon)
      else (scanner, start, result, newline, colon))"
  by pat_completeness auto
termination
  by (relation "measure (\<lambda>(scanner, start, result, newline, colon). remaining scanner)")
     (auto simp: textCond_def intro!: less_next le_next)

declare textLoop.simps [simp del]

subsection \<open>The branches of \<open>Scanner.scan\<close>\<close>

text \<open>
  \<open>scanner.lineOffset == scanner.offset || scanner.mode == modeNewTag\<close>, the test of the
  cases \<open>%\<close>, \<open>#\<close>, \<open>>\<close>, \<open>-\<close> and \<open>+\<close>.
\<close>

definition tagPosition :: "Scanner \<Rightarrow> bool" where
  "tagPosition scanner \<longleftrightarrow> lineOffset scanner = offset scanner \<or> mode scanner = modeNewTag"

text \<open>The column of the current character: \<open>scanner.offset - scanner.lineOffset\<close>.\<close>

definition column :: "Scanner \<Rightarrow> int" where
  "column scanner = int (offset scanner) - int (lineOffset scanner)"

text \<open>Case \<open>'>', '#'\<close> at a tag position.\<close>

definition scanSection :: "Scanner \<Rightarrow> Scanner \<times> Token \<times> string" where
  "scanSection scanner =
     (let s1 = scanner\<lparr>indent := column scanner, mode := modeSection, nextMode := modeNormal,
                        textMode := textNormal\<rparr>;
          start = offset s1;
          s2 = skipWhile (\<lambda>s. ch s \<noteq> - 1 \<and> ch s \<noteq> chBlank \<and> ch s \<noteq> chReturn \<and> ch s \<noteq> chTab
                              \<and> ch s \<noteq> chNewline \<and> ch s \<noteq> rune CHR '';'') (Scanner_next s1);
          name = slice (src s2) start (offset s2);
          s3 = (if ch s2 = chBlank \<or> ch s2 = chReturn \<or> ch s2 = chTab \<or> ch s2 = chNewline
                then skipWhitespace False (s2\<lparr>mode := modeNormal\<rparr>)
                else Scanner_next s2)
      in (s3, TokenSection, name))"

text \<open>Case \<open>'-', '+'\<close> at a tag position.\<close>

definition scanEnum :: "Scanner \<Rightarrow> Scanner \<times> Token \<times> string" where
  "scanEnum scanner =
     (let indent' = column scanner;
          start = offset scanner;
          s1 = Scanner_next scanner;
          str = slice (src s1) start (offset s1);
          s2 = (if ch s1 = chBlank \<or> ch s1 = chTab \<or> ch s1 = chReturn \<or> ch s1 = chNewline
                then s1\<lparr>mode := modeNormal\<rparr>
                else s1\<lparr>mode := modeSection, nextMode := modeNormal\<rparr>)
      in (s2\<lparr>textMode := textNormal, indent := indent'\<rparr>, TokenEnum, str))"

text \<open>Case \<open>'|'\<close> in table mode or at the start of a line.\<close>

definition scanTable :: "Scanner \<Rightarrow> Scanner \<times> Token \<times> string" where
  "scanTable scanner =
     (let s1 = scanner\<lparr>textMode := textTable\<rparr>;
          start = offset s1;
          s2 = skipWhile (\<lambda>s. ch s = rune CHR ''|'') (Scanner_next s1);
          end' = offset s2;
          s3 = skipWhitespace False s2
      in if ch s3 = chNewline then
           (let s4 = skipWhitespace False (Scanner_next s3);
                s5 = (if ch s4 = chNewline
                      then (skipWhitespace True (s4\<lparr>textMode := textNormal\<rparr>))\<lparr>mode := modeNewTag\<rparr>
                      else s4)
            in (s5, TokenTableRow, slice (src s5) start end'))
         else (s3, TokenTableCell, slice (src s3) start end'))"

text \<open>Case \<open>'~'\<close> in mode \<open>modeNormal\<close>.\<close>

definition scanEntity :: "Scanner \<Rightarrow> Scanner \<times> Token \<times> string" where
  "scanEntity scanner =
     (let s1 = Scanner_next scanner;
          start = offset s1;
          s2 = skipWhile (\<lambda>s. ch s \<noteq> - 1 \<and> ch s \<noteq> rune CHR ''~'' \<and> ch s \<noteq> chReturn
                              \<and> ch s \<noteq> chNewline \<and> ch s \<noteq> rune CHR '';'') s1;
          name = slice (src s2) start (offset s2);
          s3 = (if ch s2 = rune CHR ''~'' then Scanner_next s2
                else if ch s2 = rune CHR '';''
                then (Scanner_next s2)\<lparr>mode := modeEmbed, nextMode := modeNormal\<rparr>
                else s2)
      in (s3, TokenEntity, name))"

text \<open>Cases \<open>'`'\<close> and \<open>'$'\<close> in mode \<open>modeNormal\<close>.\<close>

definition scanCode :: "Scanner \<Rightarrow> Scanner \<times> Token \<times> string" where
  "scanCode scanner =
     (let s1 = Scanner_next scanner;
          (s2, start, str) = codeLoop s1 (offset s1) '''';
          str' = str @ slice (src s2) start (offset s2);
          s3 = (if ch s2 = chBacktick then Scanner_next s2 else s2)
      in (s3, TokenCodeText, str'))"

definition scanMath :: "Scanner \<Rightarrow> Scanner \<times> Token \<times> string" where
  "scanMath scanner =
     (let s1 = Scanner_next scanner;
          (s2, start, str) = mathLoop s1 (offset s1) '''';
          str' = str @ slice (src s2) start (offset s2);
          s3 = (if ch s2 = rune CHR ''$'' then Scanner_next s2 else s2)
      in (s3, TokenMathText, str'))"

text \<open>
  The second \<open>switch\<close> of \<open>scan\<close>, on \<open>scanner.mode\<close>. A branch either returns a token
  (\<open>Inl\<close>) or ends in \<open>goto scanAgain\<close> (\<open>Inr\<close>, with the scanner to go on from).
  \<open>start\<close> is the offset at the \<open>switch\<close>.
\<close>

definition scanValue :: "Scanner \<Rightarrow> (Scanner \<times> Token \<times> string) + Scanner" where
  "scanValue scanner =
     (let (s1, start, result) = valueLoop scanner (offset scanner) '''';
          s2 = (if ch s1 \<noteq> rune CHR '';'' then s1\<lparr>mode := nextMode s1\<rparr> else s1);
          str = result @ slice (src s2) start (offset s2);
          s3 = Scanner_next s2
      in if length str = 0 then Inr s3 else Inl (s3, TokenValue, str))"

text \<open>\<open>strings.TrimRight(result, " \r\t\n")\<close>\<close>

definition TrimRight :: "string \<Rightarrow> string" where
  "TrimRight str = rev (dropWhile (\<lambda>c. isSpace (rune c)) (rev str))"

definition textTail :: "Scanner \<Rightarrow> nat \<Rightarrow> bool \<Rightarrow> Scanner \<times> Token \<times> string" where
  "textTail scanner start newline =
     (let (s1, start', result, newline', colon) = textLoop scanner start '''' newline False;
          result' = result @ slice (src s1) start' (offset s1)
      in if newline' \<and> isTagStart (ch s1) then (s1\<lparr>mode := modeNewTag\<rparr>, TokenText, result')
         else if colon \<and> textMode s1 = textParagraph \<and> ch s1 = chNewline then
           ((skipWhitespace True s1)\<lparr>mode := modeNewTag, textMode := textNormal\<rparr>, TokenText,
            TrimRight result')
         else (s1, TokenText, result'))"

definition scanText :: "Scanner \<Rightarrow> (Scanner \<times> Token \<times> string) + Scanner" where
  "scanText scanner =
     (let start = offset scanner;
          newline = (lineOffset scanner = offset scanner)
      in if ch scanner = chNewline then
           (let s1 = skipWhitespace False (Scanner_next scanner)
            in if ch s1 = chNewline then
                 (let s2 = skipWhitespace True s1
                  in if isTagStart (ch s2) then Inr (s2\<lparr>mode := modeNewTag\<rparr>)
                     else Inl (s2\<lparr>indent := column s2\<rparr>, TokenSection, ''#p''))
               else Inl (textTail s1 start True))
         else Inl (textTail scanner start newline))"

definition scanRest :: "Scanner \<Rightarrow> (Scanner \<times> Token \<times> string) + Scanner" where
  "scanRest scanner =
     (if mode scanner = modeStyle \<or> mode scanner = modeEmbed \<or> mode scanner = modeSection
      then scanValue scanner
      else if mode scanner = modeNewTag
      then Inl (scanner\<lparr>mode := modeNormal, indent := column scanner\<rparr>, TokenSection, ''#p'')
      else scanText scanner)"

text \<open>
  One pass from the label \<open>scanAgain\<close>: the first \<open>switch\<close>, on \<open>scanner.ch\<close>, in the order
  of its cases. A case whose inner test fails leaves the \<open>switch\<close> and reaches the second
  one (\<open>scanRest\<close>).
\<close>

definition scanOnce :: "Scanner \<Rightarrow> (Scanner \<times> Token \<times> string) + Scanner" where
  "scanOnce scanner =
     (if ch scanner = - 1 then Inl (scanner, TokenEOF, '''')
      else if ch scanner = 0 then Inr (Scanner_next scanner)
      else if ch scanner = rune CHR ''%'' then
        (if tagPosition scanner then
           (let s1 = skipWhile (\<lambda>s. ch s \<noteq> - 1 \<and> ch s \<noteq> chNewline) (Scanner_next scanner)
            in Inr (if ch s1 = chNewline then Scanner_next s1 else s1))
         else scanRest scanner)
      else if ch scanner = rune CHR ''>'' \<or> ch scanner = rune CHR ''#'' then
        (if tagPosition scanner then Inl (scanSection scanner) else scanRest scanner)
      else if ch scanner = rune CHR ''-'' \<or> ch scanner = rune CHR ''+'' then
        (if tagPosition scanner then Inl (scanEnum scanner) else scanRest scanner)
      else if ch scanner = rune CHR ''_'' then
        (if mode scanner = modeNormal then Inl (Scanner_next scanner, TokenStyle, ''_'')
         else scanRest scanner)
      else if ch scanner = rune CHR ''*'' then
        (if mode scanner = modeNormal then Inl (Scanner_next scanner, TokenStyle, ''*'')
         else scanRest scanner)
      else if ch scanner = rune CHR ''|'' then
        (if mode scanner = modeNormal \<and> (textMode scanner = textTable \<or> isStartOfLine scanner)
         then Inl (scanTable scanner) else scanRest scanner)
      else if ch scanner = chReturn then Inr (Scanner_next scanner)
      else if ch scanner = chBlank \<or> ch scanner = chTab then
        (if mode scanner = modeSection then
           Inr (skipWhitespace True ((Scanner_next scanner)\<lparr>mode := nextMode scanner\<rparr>))
         else if mode scanner = modeEmbed \<or> mode scanner = modeStyle then
           Inr ((Scanner_next scanner)\<lparr>mode := modeNormal\<rparr>)
         else if mode scanner = modeNewTag then Inr (Scanner_next scanner)
         else scanRest scanner)
      else if ch scanner = rune CHR ''{'' then
        (if mode scanner = modeNormal then
           Inl (Scanner_next (scanner\<lparr>mode := modeStyle, nextMode := modeNormal\<rparr>), TokenStyle, ''{'')
         else scanRest scanner)
      else if ch scanner = rune CHR ''}'' then
        (if mode scanner = modeStyle \<or> mode scanner = modeNormal then
           Inl (Scanner_next (scanner\<lparr>mode := modeNormal\<rparr>), TokenStyle, ''}'')
         else scanRest scanner)
      else if ch scanner = rune CHR ''~'' then
        (if mode scanner = modeEmbed then Inr (Scanner_next (scanner\<lparr>mode := modeNormal\<rparr>))
         else if mode scanner = modeNormal then Inl (scanEntity scanner)
         else scanRest scanner)
      else if ch scanner = chBacktick then
        (if mode scanner = modeNormal then Inl (scanCode scanner) else scanRest scanner)
      else if ch scanner = rune CHR ''$'' then
        (if mode scanner = modeNormal then Inl (scanMath scanner) else scanRest scanner)
      else scanRest scanner)"

subsection \<open>\<open>scanAgain\<close> terminates\<close>

lemma remaining_update [simp]:
  "remaining (scanner\<lparr>mode := m\<rparr>) = remaining scanner"
  "remaining (scanner\<lparr>nextMode := m\<rparr>) = remaining scanner"
  "remaining (scanner\<lparr>textMode := t\<rparr>) = remaining scanner"
  "remaining (scanner\<lparr>indent := i\<rparr>) = remaining scanner"
  by (simp_all add: remaining_def)

lemma ch_update [simp]:
  "ch (scanner\<lparr>mode := m\<rparr>) = ch scanner"
  "ch (scanner\<lparr>nextMode := m\<rparr>) = ch scanner"
  "ch (scanner\<lparr>textMode := t\<rparr>) = ch scanner"
  "ch (scanner\<lparr>indent := i\<rparr>) = ch scanner"
  by simp_all

lemma remaining_valueLoop_le: "remaining (fst (valueLoop scanner start result)) \<le> remaining scanner"
proof (induction scanner start result rule: valueLoop.induct)
  case (1 scanner start result)
  show ?case
  proof (cases "valueCond scanner")
    case False
    then show ?thesis by (subst valueLoop.simps) simp
  next
    case c: True
    show ?thesis
    proof (cases "ch scanner = chBackslash")
      case True
      have e: "valueLoop scanner start result =
          valueLoop (Scanner_next (Scanner_next scanner)) (offset (Scanner_next scanner))
            (result @ slice (src scanner) start (offset scanner))"
        using c True by (subst valueLoop.simps) (simp add: Let_def)
      from "1.IH"(1)[OF c True refl]
      have "remaining (fst (valueLoop scanner start result))
              \<le> remaining (Scanner_next (Scanner_next scanner))"
        unfolding e .
      then show ?thesis by (rule le_next[OF le_next])
    next
      case False
      have e: "valueLoop scanner start result = valueLoop (Scanner_next scanner) start result"
        using c False by (subst valueLoop.simps) simp
      from "1.IH"(2)[OF c False]
      have "remaining (fst (valueLoop scanner start result)) \<le> remaining (Scanner_next scanner)"
        unfolding e .
      then show ?thesis by (rule le_next)
    qed
  qed
qed

lemma remaining_valueLoop_less:
  assumes "ch scanner \<noteq> - 1" "ch (fst (valueLoop scanner start result)) = - 1"
  shows "remaining (fst (valueLoop scanner start result)) < remaining scanner"
proof (cases "valueCond scanner")
  case False
  then have "valueLoop scanner start result = (scanner, start, result)"
    by (subst valueLoop.simps) simp
  with assms show ?thesis by simp
next
  case c: True
  show ?thesis
  proof (cases "ch scanner = chBackslash")
    case True
    have e: "valueLoop scanner start result =
        valueLoop (Scanner_next (Scanner_next scanner)) (offset (Scanner_next scanner))
          (result @ slice (src scanner) start (offset scanner))"
      using c True by (subst valueLoop.simps) (simp add: Let_def)
    have "remaining (fst (valueLoop scanner start result))
              \<le> remaining (Scanner_next (Scanner_next scanner))"
      unfolding e by (rule remaining_valueLoop_le)
    then have "remaining (fst (valueLoop scanner start result)) \<le> remaining (Scanner_next scanner)"
      by (rule le_next)
    then show ?thesis using assms(1) by (rule less_next[rotated])
  next
    case False
    have e: "valueLoop scanner start result = valueLoop (Scanner_next scanner) start result"
      using c False by (subst valueLoop.simps) simp
    have "remaining (fst (valueLoop scanner start result)) \<le> remaining (Scanner_next scanner)"
      unfolding e by (rule remaining_valueLoop_le)
    then show ?thesis using assms(1) by (rule less_next[rotated])
  qed
qed

lemma scanValue_less:
  assumes "ch scanner \<noteq> - 1"
  shows "scanValue scanner = Inr s' \<Longrightarrow> remaining s' < remaining scanner"
    and "scanValue scanner = Inl (s', t, str) \<Longrightarrow> remaining s' < remaining scanner"
proof -
  obtain s1 start result where v: "valueLoop scanner (offset scanner) '''' = (s1, start, result)"
    by (cases "valueLoop scanner (offset scanner) ''''") auto
  define s2 where "s2 = (if ch s1 \<noteq> rune CHR '';'' then s1\<lparr>mode := nextMode s1\<rparr> else s1)"
  have le: "remaining s1 \<le> remaining scanner"
    using remaining_valueLoop_le[of scanner "offset scanner" "''''"] v by simp
  have r2: "remaining s2 = remaining s1" and c2: "ch s2 = ch s1" by (simp_all add: s2_def)
  have "remaining (Scanner_next s2) < remaining scanner"
  proof (cases "ch s1 = - 1")
    case True
    then have "remaining s1 < remaining scanner"
      using remaining_valueLoop_less[of scanner "offset scanner" "''''"] v assms by simp
    then show ?thesis using remaining_next_le[of s2] r2 by simp
  next
    case False
    then have "remaining (Scanner_next s2) < remaining s2" using c2 by (simp add: remaining_next_less)
    then show ?thesis using le r2 by simp
  qed
  then show "scanValue scanner = Inr s' \<Longrightarrow> remaining s' < remaining scanner"
    and "scanValue scanner = Inl (s', t, str) \<Longrightarrow> remaining s' < remaining scanner"
    by (auto simp: scanValue_def v s2_def Let_def split: if_splits)
qed

lemma scanText_Inr_less:
  assumes "scanText scanner = Inr s'"
  shows "remaining s' < remaining scanner"
proof -
  from assms have n: "ch scanner = chNewline"
    and e: "s' = (skipWhitespace True (skipWhitespace False (Scanner_next scanner)))\<lparr>mode := modeNewTag\<rparr>"
    by (auto simp: scanText_def Let_def split: if_splits)
  from n have "ch scanner \<noteq> - 1" by (simp add: chNewline_def rune_def)
  then have "remaining (Scanner_next scanner) < remaining scanner" by (rule remaining_next_less)
  moreover have "remaining s' \<le> remaining (Scanner_next scanner)"
    unfolding e using remaining_skipWhitespace_le le_trans by (metis remaining_update(1))
  ultimately show ?thesis by simp
qed

lemma scanRest_Inr_less:
  assumes "ch scanner \<noteq> - 1" "scanRest scanner = Inr s'"
  shows "remaining s' < remaining scanner"
  using assms scanValue_less(1)[of scanner s'] scanText_Inr_less[of scanner s']
  by (auto simp: scanRest_def split: if_splits)

lemma scanOnce_Inr_less:
  assumes "scanOnce scanner = Inr s'"
  shows "remaining s' < remaining scanner"
proof -
  from assms have c: "ch scanner \<noteq> - 1" by (auto simp: scanOnce_def split: if_splits)
  note R = scanRest_Inr_less[OF c]
  have n: "remaining (Scanner_next scanner) < remaining scanner" using c by (rule remaining_next_less)
  have n': "remaining (Scanner_next (scanner\<lparr>mode := m\<rparr>)) < remaining scanner" for m
    using remaining_next_less[of "scanner\<lparr>mode := m\<rparr>"] c by simp
  have p1: "remaining (skipWhile cond (Scanner_next scanner)) < remaining scanner" for cond
    using remaining_skipWhile_le[of cond "Scanner_next scanner"] n by simp
  have p2: "remaining (Scanner_next (skipWhile cond (Scanner_next scanner))) < remaining scanner"
    for cond
    using remaining_next_le[of "skipWhile cond (Scanner_next scanner)"] p1[of cond] by simp
  have w: "remaining (skipWhitespace True ((Scanner_next scanner)\<lparr>mode := m\<rparr>)) < remaining scanner" for m
    using remaining_skipWhitespace_le[of True "(Scanner_next scanner)\<lparr>mode := m\<rparr>"] n by simp
  from assms show ?thesis
    unfolding scanOnce_def
    by (auto simp: Let_def n n' w p1 p2 split: if_splits dest: R)
qed

function scanAgain :: "Scanner \<Rightarrow> Scanner \<times> Token \<times> string" where
  "scanAgain scanner = (case scanOnce scanner of Inl r \<Rightarrow> r | Inr s' \<Rightarrow> scanAgain s')"
  by pat_completeness auto
termination
  by (relation "measure remaining") (auto simp: scanOnce_Inr_less)

declare scanAgain.simps [simp del]

subsection \<open>\<open>scan\<close> and \<open>Scan\<close>\<close>

text \<open>
  The loop of the code and math layouts that follows \<open>skipUntilEmptyLine\<close>: it runs
  while the column is beyond \<open>scanner.indent\<close> or the character is white space.
\<close>

definition skipIndented :: "Scanner \<Rightarrow> Scanner" where
  "skipIndented =
     skipWhile (\<lambda>s. ch s \<noteq> - 1 \<and> (column s > indent s \<or> ch s = chBlank \<or> ch s = chTab
                                     \<or> ch s = chNewline \<or> ch s = chReturn))"

definition scan :: "Scanner \<Rightarrow> Scanner \<times> Token \<times> string" where
  "scan scanner =
     (if textMode scanner = textCode \<and> (mode scanner = modeNormal \<or> mode scanner = modeNewTag) then
        (let start = offset scanner;
             s1 = skipIndented (skipUntilEmptyLine scanner)
         in (s1\<lparr>textMode := textNormal, mode := modeNewTag\<rparr>, TokenCodeText,
             slice (src s1) start (offset s1)))
      else if textMode scanner = textMath \<and> mode scanner = modeNormal then
        (let start = offset scanner;
             s1 = skipIndented (skipUntilEmptyLine scanner)
         in (s1\<lparr>textMode := textNormal, mode := modeNewTag\<rparr>, TokenMathText,
             slice (src s1) start (offset s1)))
      else if mode scanner = modeConfig then
        (let start = offset scanner;
             s1 = skipUntilEmptyLine scanner
         in (s1\<lparr>mode := nextMode s1\<rparr>, TokenConfigText, slice (src s1) start (offset s1)))
      else if mode scanner = modeInjectSection then
        (scanner\<lparr>mode := modeNormal\<rparr>, TokenSection, '''')
      else scanAgain (if offset scanner = 0 then skipWhitespace True (Scanner_next scanner)
                      else scanner))"

definition Scan :: "Scanner \<Rightarrow> Scanner \<times> ScannerRange \<times> Token \<times> string" where
  "Scan scanner =
     (let (s', t, str) = scan scanner
      in (s', \<lparr>FromLine = lineCount scanner, FromLinePos = column scanner,
                From = offset scanner, To = offset s'\<rparr>, t, str))"

section \<open>The parser\<close>

text \<open>
  \<open>log.Printf\<close> writes to the standard logger. The model keeps the messages, in order,
  as values: one constructor for each format string, with its arguments.
\<close>

datatype LogEntry =
    LogUnknownTagType string
  | LogStyleNotClosed string
  | LogNoOpeningStyle string
  | LogMismatchingStyle string string
  | LogUnknownTag nat string
  | LogNoDefaultAttribute string
  | LogExpectedStyle
  | LogUnknownEntity nat nat string

text \<open>
  The errors \<open>Parser.parse\<close> and \<open>ParseMarkdown\<close> return: a scanner error, a grammar
  error, the error of a library call (YAML, URL, resource resolver), an error made from
  a message, and the error
  \<open>fmt.Errorf("%v: Invalid mode attribute '%v' in template section '%v'", ...)\<close> with
  its three arguments.
\<close>

datatype Error =
    ScannerErr ScannerError
  | GrammarErr GrammarError
  | LibraryErr string
  | ErrorMsg string
  | InvalidModeErr nat string string

text \<open>
  The state of a parse: the fields of \<open>Parser\<close> (\<open>variables\<close> is never used and
  \<open>resolver\<close> is part of the environment below; the scanner field \<open>s\<close> is called \<open>scn\<close>),
  the local variables of \<open>Parser.parse\<close> that its closures share (\<open>tagStack\<close>,
  \<open>nodeStack\<close>, \<open>styleStack\<close>, \<open>secmode\<close>, \<open>tableInbody\<close>), the three stores with their
  allocation counts, and the log. The stacks are in slice order: the last element is the
  top.
\<close>

record Parser =
  grammar :: Grammar
  tokenPos :: ScannerRange
  token :: Token
  tokenStr :: string
  scn :: Scanner
  counters :: CountersRef
  rootNode :: NodeRef
  tagStack :: "TagRef list"
  nodeStack :: "NodeRef list"
  styleStack :: "StyleNodeRef list"
  secmode :: SectionMode
  tableInbody :: bool
  nodes :: NodeStore
  nodeCount :: nat
  styleNodes :: "StyleNodeRef \<Rightarrow> StyleNode"
  styleNodeCount :: nat
  countersStore :: "CountersRef \<Rightarrow> (string \<rightharpoonup> int)"
  countersCount :: nat
  logged :: "LogEntry list"

definition logPrintf :: "LogEntry \<Rightarrow> Parser \<Rightarrow> Parser" where
  "logPrintf e parser = parser\<lparr>logged := logged parser @ [e]\<rparr>"

text \<open>The tag definition behind a pointer.\<close>

definition tagDef :: "Parser \<Rightarrow> TagRef \<Rightarrow> TagDefinition" where
  "tagDef parser t = Tags (grammar parser) ! t"

definition newNode :: "string \<Rightarrow> TagRef option \<Rightarrow> NodeRef option \<Rightarrow> int \<Rightarrow> DocumentNode" where
  "newNode tag tagdef doc ind =
     \<lparr>Tag = tag, TagDefinition = tagdef, Counters = None, Parent = None, NextSibling = None,
      PrevSibling = None, Children = [], Text = [], Document = doc, Attributes = Map.empty,
      Colspan = 0, Indent = ind\<rparr>"

text \<open>
  \<open>NewDocument\<close> and \<open>NewParser\<close>. The root node is the first document node of the
  store and the running counters map the first counters map. The variables of
  \<open>Parser.parse\<close> get their values at the start of \<open>parse\<close>.
\<close>

definition NewParser :: "Grammar \<Rightarrow> string \<Rightarrow> Parser" where
  "NewParser g markdown =
     \<lparr>grammar = g,
      tokenPos = \<lparr>FromLine = 0, FromLinePos = 0, From = 0, To = 0\<rparr>,
      token = TokenEOF, tokenStr = '''',
      scn = NewScanner markdown,
      counters = 0, rootNode = 0,
      tagStack = [], nodeStack = [], styleStack = [], secmode = sectionNormal,
      tableInbody = False,
      nodes = (\<lambda>_. newNode '''' None None 0)(0 := newNode ''Root'' (GetTag g ''#root'') None 0),
      nodeCount = 1,
      styleNodes = (\<lambda>_. \<lparr>StyleNodeName = '''', StyleNodeDefinition = None,
                           StyleNodeAttributes = Map.empty, StyleNodeParent = DocumentNodeRef 0,
                           StyleNodeText = [], StyleNodeValue = ''''\<rparr>),
      styleNodeCount = 0,
      countersStore = (\<lambda>_. Map.empty), countersCount = 1,
      logged = []\<rparr>"

text \<open>\<open>Parser.next\<close>\<close>

definition Parser_next :: "Parser \<Rightarrow> Parser" where
  "Parser_next parser =
     (let (s', r, t, str) = Scan (scn parser)
      in parser\<lparr>tokenPos := r, token := t, tokenStr := str, scn := s'\<rparr>)"

text \<open>
  \<open>newDocumentNode\<close>: the new node is allocated in the store; its reference is returned
  with the new state.
\<close>

definition newDocumentNode :: "string \<Rightarrow> int \<Rightarrow> Parser \<Rightarrow> NodeRef \<times> Parser" where
  "newDocumentNode tag ind parser =
     (let (tagdef, p1) =
            (case GetTag (grammar parser) tag of
               None \<Rightarrow> (GetTag (grammar parser) ''#p'', logPrintf (LogUnknownTagType tag) parser)
             | Some t \<Rightarrow> (Some t, parser));
          n = nodeCount p1
      in (n, p1\<lparr>nodes := (nodes p1)(n := newNode tag tagdef (Some (rootNode p1)) ind),
                nodeCount := n + 1\<rparr>))"

subsection \<open>Attributes\<close>

text \<open>\<open>strings.Index(s, sep)\<close> for a separator of one byte; \<open>None\<close> is \<open>-1\<close>.\<close>

primrec Index :: "string \<Rightarrow> char \<Rightarrow> nat option" where
  "Index [] c = None"
| "Index (x # xs) c = (if x = c then Some 0 else map_option Suc (Index xs c))"

text \<open>
  The body of the loop of \<open>parseAttributes\<close> for one \<open>TokenValue\<close>; \<open>tag\<close> is nil for
  an entity.
\<close>

definition attribute :: "Parser \<Rightarrow> TagRef option \<Rightarrow> string \<Rightarrow> (string \<rightharpoonup> string) \<Rightarrow> (string \<rightharpoonup> string)" where
  "attribute parser tag str attributes =
     (case Index str CHR '':'' of
        Some pos \<Rightarrow>
          if pos = 0 \<or> length str = 0 \<or> pos = length str - 1 then attributes
          else attributes(take pos str \<mapsto> drop (pos + 1) str)
      | None \<Rightarrow>
          if length str = 0 then attributes
          else (let name = (case tag of
                              None \<Rightarrow> str
                            | Some t \<Rightarrow> (case ClassShortcuts (tagDef parser t) str of
                                           None \<Rightarrow> str | Some n \<Rightarrow> n))
                in attributes(name \<mapsto> '''')))"

text \<open>
  \<open>for parser.next(); parser.token == TokenValue; parser.next() { ... }\<close>. The loop ends
  when the scanner delivers a token that is no value; the model gives it \<open>fuel\<close>
  iterations and returns \<open>None\<close> when they do not suffice.
\<close>

primrec attributesLoop ::
  "nat \<Rightarrow> TagRef option \<Rightarrow> (string \<rightharpoonup> string) \<Rightarrow> Parser \<Rightarrow> ((string \<rightharpoonup> string) \<times> Parser) option" where
  "attributesLoop 0 tag attributes parser = None"
| "attributesLoop (Suc fuel) tag attributes parser =
     (if token parser = TokenValue
      then attributesLoop fuel tag (attribute parser tag (tokenStr parser) attributes)
             (Parser_next parser)
      else Some (attributes, parser))"

definition parseAttributes :: "nat \<Rightarrow> TagRef option \<Rightarrow> Parser \<Rightarrow> ((string \<rightharpoonup> string) \<times> Parser) option" where
  "parseAttributes fuel tag parser = attributesLoop fuel tag Map.empty (Parser_next parser)"

subsection \<open>Counters\<close>

text \<open>
  \<open>copyCounter\<close>: \<open>c.Counters = make(map[string]int)\<close> allocates a new map, and the loop
  copies every entry of \<open>parser.counters\<close> into it.
\<close>

definition copyCounter :: "NodeRef \<Rightarrow> Parser \<Rightarrow> Parser" where
  "copyCounter c parser =
     (let m = countersCount parser
      in parser\<lparr>countersStore := (countersStore parser)(m := countersStore parser (counters parser)),
                countersCount := m + 1,
                nodes := (nodes parser)(c := (nodes parser c)\<lparr>Counters := Some m\<rparr>)\<rparr>)"

text \<open>The running map, and a write to it (through the reference \<open>parser.counters\<close>).\<close>

definition running :: "Parser \<Rightarrow> (string \<rightharpoonup> int)" where
  "running parser = countersStore parser (counters parser)"

definition setRunning :: "(string \<rightharpoonup> int) \<Rightarrow> Parser \<Rightarrow> Parser" where
  "setRunning m parser = parser\<lparr>countersStore := (countersStore parser)(counters parser := m)\<rparr>"

definition incCounter :: "string \<Rightarrow> Parser \<Rightarrow> Parser" where
  "incCounter counter parser =
     (if counter = '''' then parser
      else (case running parser counter of
              None \<Rightarrow> setRunning ((running parser)(counter \<mapsto> 1)) parser
            | Some c \<Rightarrow> setRunning ((running parser)(counter \<mapsto> c + 1)) parser))"

primrec resetCounter :: "string list \<Rightarrow> Parser \<Rightarrow> Parser" where
  "resetCounter [] parser = parser"
| "resetCounter (c # cs) parser =
     resetCounter cs
       (if running parser c \<noteq> None then setRunning ((running parser)(c := None)) parser
        else parser)"

subsection \<open>The stacks\<close>

text \<open>
  In the functions below \<open>None\<close> stands for a call that does not return: a run-time panic
  of the Go code (an index out of range, a nil pointer dereferenced) or a loop that does
  not end within its fuel.
\<close>

definition styleLabel :: "Parser \<Rightarrow> StyleNodeRef \<Rightarrow> string" where
  "styleLabel parser r =
     (if StyleNodeName (styleNodes parser r) = '''' then ''{''
      else StyleNodeName (styleNodes parser r))"

text \<open>\<open>closeStyles\<close>: one message for each open style, from the top of the stack down.\<close>

definition closeStyles :: "Parser \<Rightarrow> Parser" where
  "closeStyles parser =
     (foldl (\<lambda>p r. logPrintf (LogStyleNotClosed (styleLabel parser r)) p) parser
        (rev (styleStack parser)))\<lparr>styleStack := []\<rparr>"

text \<open>
  \<open>closeStyle\<close>: the tests inside the \<open>switch\<close> compare \<open>styleName\<close> with the value the
  case has just matched, as in the source.
\<close>

definition closeStyle :: "string \<Rightarrow> Parser \<Rightarrow> Parser" where
  "closeStyle styleName parser =
     (if length (styleStack parser) = 0 then logPrintf (LogNoOpeningStyle styleName) parser
      else
        (let n = styleLabel parser (last (styleStack parser));
             mismatch =
               (if styleName = ''*'' then styleName \<noteq> ''*''
                else if styleName = ''_'' then styleName \<noteq> ''_''
                else styleName \<noteq> ''}'')
         in if mismatch then logPrintf (LogMismatchingStyle styleName n) parser
            else parser\<lparr>styleStack := butlast (styleStack parser)\<rparr>))"

text \<open>
  \<open>tagLevel\<close>: \<open>for i := len(tagStack) - 1; i >= 0; i--\<close>; \<open>None\<close> is \<open>-1\<close>. The
  arguments are results of \<open>GetTag\<close> and may be nil; the stack holds no nil pointer.
\<close>

primrec tagLevel_loop :: "TagRef list \<Rightarrow> nat \<Rightarrow> TagRef option \<Rightarrow> TagRef option \<Rightarrow> nat option" where
  "tagLevel_loop ts 0 tag tag2 = None"
| "tagLevel_loop ts (Suc i) tag tag2 =
     (if Some (ts ! i) = tag \<or> Some (ts ! i) = tag2 then Some i else tagLevel_loop ts i tag tag2)"

definition tagLevel :: "TagRef option \<Rightarrow> TagRef option \<Rightarrow> Parser \<Rightarrow> nat option" where
  "tagLevel tag tag2 parser =
     tagLevel_loop (tagStack parser) (length (tagStack parser)) tag tag2"

text \<open>
  \<open>closeTags(level)\<close>: \<open>for len(tagStack) > level { pop tagStack; pop nodeStack }\<close>, then
  the section mode of the new top. \<open>popStacks k\<close> runs the loop \<open>k\<close> times; taking the
  last element off an empty \<open>nodeStack\<close> panics. The callers that compute the level as
  \<open>len(tagStack) - 1\<close> handle the empty stack themselves (the level would be \<open>-1\<close>).
\<close>

primrec popStacks :: "nat \<Rightarrow> TagRef list \<Rightarrow> NodeRef list \<Rightarrow> (TagRef list \<times> NodeRef list) option" where
  "popStacks 0 ts ns = Some (ts, ns)"
| "popStacks (Suc k) ts ns = (if ns = [] then None else popStacks k (butlast ts) (butlast ns))"

definition closeTags :: "nat \<Rightarrow> Parser \<Rightarrow> Parser option" where
  "closeTags level parser =
     (let p1 = closeStyles parser
      in case popStacks (length (tagStack p1) - level) (tagStack p1) (nodeStack p1) of
           None \<Rightarrow> None
         | Some (ts, ns) \<Rightarrow>
             Some (p1\<lparr>tagStack := ts, nodeStack := ns,
                      secmode := (if length ts = 0 then sectionNormal
                                  else SectionMode (tagDef p1 (last ts)))\<rparr>))"

text \<open>
  \<open>closeTags(len(tagStack) - 1)\<close>: with an empty tag stack the level is \<open>-1\<close> and the
  loop of \<open>closeTags\<close> slices an empty slice, which panics.
\<close>

definition closeTopTag :: "Parser \<Rightarrow> Parser option" where
  "closeTopTag parser =
     (if length (tagStack parser) = 0 then None
      else closeTags (length (tagStack parser) - 1) parser)"

definition closeTableCell :: "int \<Rightarrow> Parser \<Rightarrow> Parser option" where
  "closeTableCell colspan parser =
     (case tagLevel (GetTag (grammar parser) ''#tbody-cell'') (GetTag (grammar parser) ''#thead-cell'')
             parser of
        None \<Rightarrow> Some parser
      | Some level \<Rightarrow>
          if level + 1 < length (nodeStack parser) then
            (let n = nodeStack parser ! (level + 1)
             in closeTags level
                  (parser\<lparr>nodes := (nodes parser)(n := (nodes parser n)\<lparr>Colspan := colspan\<rparr>)\<rparr>))
          else None)"

definition closeTableRow :: "int \<Rightarrow> Parser \<Rightarrow> Parser option" where
  "closeTableRow colspan parser =
     (case closeTableCell colspan parser of
        None \<Rightarrow> None
      | Some p1 \<Rightarrow>
          (case (case tagLevel (GetTag (grammar p1) ''#tbody-row'') (GetTag (grammar p1) ''#thead-row'')
                        p1 of
                   None \<Rightarrow> Some p1
                 | Some level \<Rightarrow> closeTags level p1) of
             None \<Rightarrow> None
           | Some p2 \<Rightarrow> Some (p2\<lparr>tableInbody := True\<rparr>)))"

lemma tagStack_closeStyles [simp]: "tagStack (closeStyles parser) = tagStack parser"
proof -
  have "tagStack (foldl (\<lambda>p r. logPrintf (f r) p) parser xs) = tagStack parser" for f xs
    by (induction xs arbitrary: parser) (simp_all add: logPrintf_def)
  then show ?thesis by (simp add: closeStyles_def)
qed

lemma nodeStack_closeStyles [simp]: "nodeStack (closeStyles parser) = nodeStack parser"
proof -
  have "nodeStack (foldl (\<lambda>p r. logPrintf (f r) p) parser xs) = nodeStack parser" for f xs
    by (induction xs arbitrary: parser) (simp_all add: logPrintf_def)
  then show ?thesis by (simp add: closeStyles_def)
qed

lemma popStacks_Some:
  "popStacks k ts ns = Some (ts', ns') \<Longrightarrow>
     ts' = take (length ts - k) ts \<and> ns' = take (length ns - k) ns \<and> k \<le> length ns"
proof (induction k arbitrary: ts ns)
  case 0
  then show ?case by simp
next
  case (Suc k)
  from Suc.prems have ne: "ns \<noteq> []" and r: "popStacks k (butlast ts) (butlast ns) = Some (ts', ns')"
    by (auto split: if_splits)
  from Suc.IH[OF r] have t: "ts' = take (length (butlast ts) - k) (butlast ts)"
    and n: "ns' = take (length (butlast ns) - k) (butlast ns)" and k: "k \<le> length (butlast ns)"
    by simp_all
  have "take (length (butlast xs) - k) (butlast xs) = take (length xs - Suc k) xs" for xs :: "nat list"
    by (simp add: butlast_conv_take min_def)
  with t n have "ts' = take (length ts - Suc k) ts" "ns' = take (length ns - Suc k) ns" by simp_all
  moreover have "Suc k \<le> length ns"
  proof -
    from ne have "length ns = Suc (length (butlast ns))" by (cases ns rule: rev_cases) simp_all
    with k show ?thesis by (simp only: Suc_le_mono)
  qed
  ultimately show ?case by simp
qed

lemma tagStack_closeTags:
  "closeTags level parser = Some p' \<Longrightarrow>
     tagStack p' = take level (tagStack parser)"
proof -
  assume a: "closeTags level parser = Some p'"
  have t: "take (length ts - (length ts - level)) ts = take level ts" for ts :: "nat list"
    by (cases "level \<le> length ts") simp_all
  from a show ?thesis
    by (auto simp: closeTags_def Let_def t split: option.splits dest!: popStacks_Some)
qed

text \<open>
  \<open>pushNodeOnStack\<close>. The recursion is the split of the parent for a \<open>FirstChild\<close> tag:
  the parent is closed and a new node of the parent's tag name is pushed in its place.
  It ends because each call works on a shorter tag stack.
\<close>

definition pushTail :: "NodeRef \<Rightarrow> NodeRef \<Rightarrow> TagRef \<Rightarrow> Parser \<Rightarrow> Parser" where
  "pushTail parent node t parser =
     (let p1 = parser\<lparr>nodes := appendChild parent node (nodes parser)\<rparr>;
          p2 = resetCounter (ResetCounter (tagDef p1 t)) p1;
          p3 = incCounter (Counter (tagDef p2 t)) p2;
          p4 = copyCounter node p3
      in p4\<lparr>tagStack := tagStack p4 @ [t], nodeStack := nodeStack p4 @ [node]\<rparr>)"

lemma tagStack_logPrintf [simp]: "tagStack (logPrintf e parser) = tagStack parser"
  by (simp add: logPrintf_def)

lemma tagStack_newDocumentNode [simp]:
  "tagStack (snd (newDocumentNode tag ind parser)) = tagStack parser"
  by (simp add: newDocumentNode_def Let_def split: option.splits prod.splits)

function pushNodeOnStack :: "NodeRef \<Rightarrow> Parser \<Rightarrow> Parser option" where
  "pushNodeOnStack node parser =
     (if length (nodeStack parser) = 0 then None
      else
        (let parent = last (nodeStack parser)
         in case TagDefinition (nodes parser node) of
              None \<Rightarrow> None
            | Some t \<Rightarrow>
                if FirstChild (tagDef parser t)
                   \<and> length (Text (nodes parser parent)) + length (Children (nodes parser parent)) > 0
                then
                  (case TagDefinition (nodes parser parent) of
                     None \<Rightarrow> None
                   | Some pt \<Rightarrow>
                       if Name (tagDef parser pt) \<noteq> ''#root'' then
                         (case closeTopTag parser of
                            None \<Rightarrow> None
                          | Some p1 \<Rightarrow>
                              (case pushNodeOnStack
                                      (fst (newDocumentNode (Name (tagDef parser pt))
                                              (Indent (nodes parser parent)) p1))
                                      (snd (newDocumentNode (Name (tagDef parser pt))
                                              (Indent (nodes parser parent)) p1)) of
                                 None \<Rightarrow> None
                               | Some p3 \<Rightarrow>
                                   Some (pushTail
                                           (fst (newDocumentNode (Name (tagDef parser pt))
                                                   (Indent (nodes parser parent)) p1))
                                           node t p3)))
                       else Some (pushTail parent node t parser))
                else Some (pushTail parent node t parser)))"
  by pat_completeness auto
termination
proof (relation "measure (\<lambda>(node, parser). length (tagStack parser))")
  show "wf (measure (\<lambda>(node, parser). length (tagStack parser)))" by simp
next
  fix node :: NodeRef and parser p1 :: Parser and parent t pt
  assume c: "closeTopTag parser = Some p1"
  then have ne: "length (tagStack parser) \<noteq> 0"
    and "closeTags (length (tagStack parser) - 1) parser = Some p1"
    by (auto simp: closeTopTag_def split: if_splits)
  then have "tagStack p1 = take (length (tagStack parser) - 1) (tagStack parser)"
    by (simp add: tagStack_closeTags)
  with ne have "length (tagStack p1) < length (tagStack parser)" by simp
  then show "((fst (newDocumentNode (Name (tagDef parser pt)) (Indent (nodes parser parent)) p1),
               snd (newDocumentNode (Name (tagDef parser pt)) (Indent (nodes parser parent)) p1)),
              node, parser) \<in> measure (\<lambda>(node, parser). length (tagStack parser))"
    by (simp add: case_prod_unfold)
qed

declare pushNodeOnStack.simps [simp del]

subsection \<open>Opening a tag\<close>

text \<open>
  The default-parent chain of \<open>openTag2\<close>:
  \<open>for p := tag; p.DefaultParent != nil; { if *p.DefaultParent == "#root" { break };
  p = GetTag(*p.DefaultParent); if p == nil { p = GetTag("#p") }; defaults = append(defaults, p) }\<close>.
  The loop does not end when the default parents form a cycle, so it runs on fuel. When
  \<open>GetTag("#p")\<close> is nil as well, the next test of the loop dereferences nil.
\<close>

primrec defaultsChain :: "nat \<Rightarrow> Grammar \<Rightarrow> TagRef \<Rightarrow> TagRef list \<Rightarrow> TagRef list option" where
  "defaultsChain 0 g p defaults = None"
| "defaultsChain (Suc fuel) g p defaults =
     (case DefaultParent (Tags g ! p) of
        None \<Rightarrow> Some defaults
      | Some dp \<Rightarrow>
          if dp = ''#root'' then Some defaults
          else (case GetTag g dp of
                  Some p' \<Rightarrow> defaultsChain fuel g p' (defaults @ [p'])
                | None \<Rightarrow>
                    (case GetTag g ''#p'' of
                       None \<Rightarrow> None
                     | Some p' \<Rightarrow> defaultsChain fuel g p' (defaults @ [p']))))"

text \<open>
  May the open tag \<open>t\<close> host a tag in block scope?
  \<open>t.ParentHood == DefaultRootParentHood || t.ParentHood == RootParentHood ||
  (t.ParentHood == IndentParentHood && n.Indent < node.Indent)\<close>
\<close>

definition blockScope :: "TagDefinition \<Rightarrow> int \<Rightarrow> int \<Rightarrow> bool" where
  "blockScope t nIndent nodeIndent \<longleftrightarrow>
     ParentHood t = DefaultRootParentHood \<or> ParentHood t = RootParentHood
     \<or> (ParentHood t = IndentParentHood \<and> nIndent < nodeIndent)"

text \<open>
  \<open>for j, def := range defaults\<close>: the first \<open>j\<close> whose \<open>def\<close> is allowed in the block
  scope of \<open>t\<close> or names \<open>t\<close> among its possible parents.
\<close>

primrec matchDefaults ::
  "Parser \<Rightarrow> TagDefinition \<Rightarrow> int \<Rightarrow> int \<Rightarrow> nat \<Rightarrow> TagRef list \<Rightarrow> nat option" where
  "matchDefaults parser t nIndent nodeIndent j [] = None"
| "matchDefaults parser t nIndent nodeIndent j (def # rest) =
     (if allowedInParentHood (tagDef parser def) \<and> blockScope t nIndent nodeIndent then Some j
      else if Name t \<in> set (PossibleParents (tagDef parser def)) then Some j
      else matchDefaults parser t nIndent nodeIndent (Suc j) rest)"

text \<open>
  \<open>for i := len(tagStack) - 1; i >= 0; i--\<close> of \<open>openTag2\<close>; the first argument is
  \<open>i + 1\<close>. The result is \<open>insertDefaultsDepth\<close>, which keeps its initial value
  \<open>len(defaults) - 1\<close> when no open tag matches.
\<close>

primrec fixParentsLoop :: "nat \<Rightarrow> TagRef list \<Rightarrow> int \<Rightarrow> Parser \<Rightarrow> (nat \<times> Parser) option" where
  "fixParentsLoop 0 defaults nodeIndent parser = Some (length defaults - 1, parser)"
| "fixParentsLoop (Suc i) defaults nodeIndent parser =
     (if i < length (tagStack parser) \<and> i + 1 < length (nodeStack parser) then
        (case matchDefaults parser (tagDef parser (tagStack parser ! i))
                (Indent (nodes parser (nodeStack parser ! (i + 1)))) nodeIndent 0 defaults of
           Some j \<Rightarrow> Some (j, parser)
         | None \<Rightarrow>
             (case closeTags i parser of
                None \<Rightarrow> None
              | Some p1 \<Rightarrow> fixParentsLoop i defaults nodeIndent p1))
      else None)"

text \<open>
  \<open>for i := insertDefaultsDepth; i > 0; i-- { ... pushNodeOnStack(defNode) }\<close>
\<close>

primrec openDefaults :: "nat \<Rightarrow> TagRef list \<Rightarrow> int \<Rightarrow> Parser \<Rightarrow> Parser option" where
  "openDefaults 0 defaults nodeIndent parser = Some parser"
| "openDefaults (Suc k) defaults nodeIndent parser =
     (if Suc k < length defaults then
        (let (defNode, p1) =
               newDocumentNode (Name (tagDef parser (defaults ! Suc k))) nodeIndent parser
         in case pushNodeOnStack defNode p1 of
              None \<Rightarrow> None
            | Some p2 \<Rightarrow> openDefaults k defaults nodeIndent p2)
      else None)"

definition openTag2 :: "nat \<Rightarrow> TagRef \<Rightarrow> NodeRef \<Rightarrow> bool \<Rightarrow> Parser \<Rightarrow> Parser option" where
  "openTag2 fuel tag node fixParents parser =
     (let p0 = closeStyles parser
      in case (if fixParents then
                 (case defaultsChain fuel (grammar p0) tag [tag] of
                    None \<Rightarrow> None
                  | Some defaults \<Rightarrow>
                      (case fixParentsLoop (length (tagStack p0)) defaults
                              (Indent (nodes p0 node)) p0 of
                         None \<Rightarrow> None
                       | Some (depth, p1) \<Rightarrow>
                           openDefaults depth defaults (Indent (nodes p1 node)) p1))
               else Some p0) of
           None \<Rightarrow> None
         | Some p2 \<Rightarrow>
             (case pushNodeOnStack node p2 of
                None \<Rightarrow> None
              | Some p3 \<Rightarrow> Some (p3\<lparr>secmode := SectionMode (tagDef p3 tag)\<rparr>)))"

text \<open>
  \<open>openTag\<close>: the node is made for \<open>tag.Name\<close> at the indent of the scanner, then the
  attributes are parsed, then the tag is opened.
\<close>

definition openTag :: "nat \<Rightarrow> TagRef \<Rightarrow> Parser \<Rightarrow> (NodeRef \<times> Parser) option" where
  "openTag fuel tag parser =
     (let (node, p1) = newDocumentNode (Name (tagDef parser tag)) (indent (scn parser)) parser
      in case parseAttributes fuel (Some tag) p1 of
           None \<Rightarrow> None
         | Some (attributes, p2) \<Rightarrow>
             (case openTag2 fuel tag node True
                     (p2\<lparr>nodes := (nodes p2)(node := (nodes p2 node)\<lparr>Attributes := attributes\<rparr>)\<rparr>) of
                None \<Rightarrow> None
              | Some p3 \<Rightarrow> Some (node, p3)))"

text \<open>
  \<open>openTableCell\<close>: \<open>tag.Name\<close> dereferences the result of \<open>GetTag\<close>.
\<close>

definition openTableCell :: "nat \<Rightarrow> Parser \<Rightarrow> Parser option" where
  "openTableCell fuel parser =
     (if tagLevel (GetTag (grammar parser) ''#tbody-cell'') (GetTag (grammar parser) ''#thead-cell'')
           parser \<noteq> None
      then Some parser
      else
        (case (if tableInbody parser then GetTag (grammar parser) ''#tbody-cell''
               else GetTag (grammar parser) ''#thead-cell'') of
           None \<Rightarrow> None
         | Some tag \<Rightarrow>
             (let (node, p1) =
                    newDocumentNode (Name (tagDef parser tag)) (indent (scn parser)) parser
              in openTag2 fuel tag node True p1)))"

text \<open>
  \<open>isPossibleParent\<close>; \<open>Some None\<close> is the result \<open>-1\<close>. The loop follows the default
  parents of \<open>child\<close> and does not end on a cycle, so it runs on fuel.
\<close>

primrec isPossibleParent_loop ::
  "nat \<Rightarrow> Grammar \<Rightarrow> TagDefinition \<Rightarrow> int \<Rightarrow> TagRef option \<Rightarrow> int \<Rightarrow> nat \<Rightarrow> nat option option" where
  "isPossibleParent_loop 0 g parentDef parentIndent child childIndent depth = None"
| "isPossibleParent_loop (Suc fuel) g parentDef parentIndent child childIndent depth =
     (case child of
        None \<Rightarrow> Some None
      | Some c \<Rightarrow>
          if allowedInParentHood (Tags g ! c) \<and> ParentHood parentDef = IndentParentHood
             \<and> parentIndent < childIndent then Some (Some depth)
          else if allowedInParentHood (Tags g ! c)
                  \<and> (ParentHood parentDef = DefaultRootParentHood
                       \<or> ParentHood parentDef = RootParentHood)
                  \<and> parentIndent \<le> childIndent then Some (Some depth)
          else if Name parentDef \<in> set (PossibleParents (Tags g ! c)) then Some (Some depth)
          else (case DefaultParent (Tags g ! c) of
                  None \<Rightarrow> Some None
                | Some dp \<Rightarrow>
                    if dp = ''#root'' then Some None
                    else isPossibleParent_loop fuel g parentDef parentIndent (GetTag g dp)
                           childIndent (depth + 1)))"

definition isPossibleParent :: "nat \<Rightarrow> NodeRef \<Rightarrow> TagRef option \<Rightarrow> int \<Rightarrow> Parser \<Rightarrow> nat option option" where
  "isPossibleParent fuel parent child childIndent parser =
     (case child of
        None \<Rightarrow> Some None
      | Some c \<Rightarrow>
         (case TagDefinition (nodes parser parent) of
            None \<Rightarrow> None
          | Some pt \<Rightarrow>
              isPossibleParent_loop fuel (grammar parser) (tagDef parser pt)
                (Indent (nodes parser parent)) child childIndent 0))"

subsection \<open>strings.TrimSpace\<close>

text \<open>
  \<open>strings.TrimSpace\<close> belongs to the Go standard library. It removes the leading and
  the trailing white space, as \<open>unicode.IsSpace\<close> defines it, rune by rune; a byte that
  is no valid UTF-8 decodes to \<open>RuneError\<close>, which is no white space.
\<close>

definition IsSpace :: "int \<Rightarrow> bool" where
  "IsSpace r \<longleftrightarrow>
     (9 \<le> r \<and> r \<le> 13) \<or> r = 32 \<or> r = 0x85 \<or> r = 0xA0 \<or> r = 0x1680
     \<or> (0x2000 \<le> r \<and> r \<le> 0x200A) \<or> r = 0x2028 \<or> r = 0x2029 \<or> r = 0x202F
     \<or> r = 0x205F \<or> r = 0x3000"

function allSpace :: "string \<Rightarrow> bool" where
  "allSpace bs =
     (if bs = [] then True
      else IsSpace (fst (DecodeRune bs)) \<and> allSpace (drop (snd (DecodeRune bs)) bs))"
  by pat_completeness auto
termination
proof (relation "measure length")
  show "wf (measure length)" by simp
next
  fix bs :: string
  assume "bs \<noteq> []"
  with DecodeRune_width[of bs] show "(drop (snd (DecodeRune bs)) bs, bs) \<in> measure length"
    by (cases bs) auto
qed

declare allSpace.simps [simp del]

function trimLeft :: "string \<Rightarrow> string" where
  "trimLeft bs =
     (if bs = [] then []
      else if IsSpace (fst (DecodeRune bs)) then trimLeft (drop (snd (DecodeRune bs)) bs)
      else bs)"
  by pat_completeness auto
termination
proof (relation "measure length")
  show "wf (measure length)" by simp
next
  fix bs :: string
  assume "bs \<noteq> []"
  with DecodeRune_width[of bs] show "(drop (snd (DecodeRune bs)) bs, bs) \<in> measure length"
    by (cases bs) auto
qed

declare trimLeft.simps [simp del]

fun trimRight :: "string \<Rightarrow> string" where
  "trimRight [] = []"
| "trimRight (b # bs) = (if allSpace (b # bs) then [] else b # trimRight bs)"

definition TrimSpace :: "string \<Rightarrow> string" where
  "TrimSpace str = trimRight (trimLeft str)"

subsection \<open>Text\<close>

text \<open>
  \<open>parent()\<close>: the open style, else the open node. \<open>nodeStack[len(nodeStack)-1]\<close> panics
  on an empty stack.
\<close>

definition parent :: "Parser \<Rightarrow> NodeWithText option" where
  "parent parser =
     (if length (styleStack parser) > 0 then Some (StyleNodeRef (last (styleStack parser)))
      else if length (nodeStack parser) = 0 then None
      else Some (DocumentNodeRef (last (nodeStack parser))))"

text \<open>\<open>AppendText\<close> of \<open>DocumentNode\<close> and of \<open>StyleNode\<close>.\<close>

definition AppendText :: "NodeWithText \<Rightarrow> Node \<Rightarrow> Parser \<Rightarrow> Parser" where
  "AppendText p text parser =
     (case p of
        DocumentNodeRef n \<Rightarrow>
          parser\<lparr>nodes := (nodes parser)(n := (nodes parser n)\<lparr>Text := Text (nodes parser n) @ [text]\<rparr>)\<rparr>
      | StyleNodeRef r \<Rightarrow>
          parser\<lparr>styleNodes := (styleNodes parser)
                    (r := (styleNodes parser r)\<lparr>StyleNodeText := StyleNodeText (styleNodes parser r) @ [text]\<rparr>)\<rparr>)"

text \<open>\<open>if secmode == sectionTable { openTableCell() }\<close>, the start of every inline case.\<close>

definition inTableCell :: "nat \<Rightarrow> Parser \<Rightarrow> Parser option" where
  "inTableCell fuel parser =
     (if secmode parser = sectionTable then openTableCell fuel parser else Some parser)"

text \<open>
  The node that takes the text of a \<open>TokenText\<close>. A document node that is no text parent
  gets a paragraph \<open>#p\<close> opened below it, unless the text is white space only: then the
  token is skipped (\<open>continue\<close>), which is the result \<open>Some (None, _)\<close>.
\<close>

definition textTarget :: "nat \<Rightarrow> Parser \<Rightarrow> (NodeWithText option \<times> Parser) option" where
  "textTarget fuel parser =
     (case parent parser of
        None \<Rightarrow> None
      | Some (StyleNodeRef r) \<Rightarrow> Some (Some (StyleNodeRef r), parser)
      | Some (DocumentNodeRef node) \<Rightarrow>
          (case TagDefinition (nodes parser node) of
             None \<Rightarrow> None
           | Some t \<Rightarrow>
               if ParentHood (tagDef parser t) \<noteq> TextParentHood then
                 if length (TrimSpace (tokenStr parser)) = 0 then Some (None, parser)
                 else
                   (let (parag, p1) = newDocumentNode ''#p'' (Indent (nodes parser node) + 1) parser
                    in case TagDefinition (nodes p1 parag) of
                         None \<Rightarrow> None
                       | Some pt \<Rightarrow>
                           (case openTag2 fuel pt parag True p1 of
                              None \<Rightarrow> None
                            | Some p2 \<Rightarrow> Some (Some (DocumentNodeRef parag), p2)))
               else Some (Some (DocumentNodeRef node), parser)))"

text \<open>
  \<open>newDocumentNode(tag, indent)\<close>, then \<open>n.Text = text\<close>, then
  \<open>openTag2(n.TagDefinition, n, true)\<close>: the two nodes of a definition list.
\<close>

definition openWithText :: "nat \<Rightarrow> string \<Rightarrow> int \<Rightarrow> Node list \<Rightarrow> Parser \<Rightarrow> Parser option" where
  "openWithText fuel tag ind text parser =
     (let (n, p1) = newDocumentNode tag ind parser;
          p2 = p1\<lparr>nodes := (nodes p1)(n := (nodes p1 n)\<lparr>Text := text\<rparr>)\<rparr>
      in case TagDefinition (nodes p2 n) of
           None \<Rightarrow> None
         | Some t \<Rightarrow> openTag2 fuel t n True p2)"

text \<open>
  ``Replace a \<open>#p\<close> with a \<open>#dl\<close> tag if the text ends with \<open>:\<close>'': the paragraph is
  closed and removed from its parent, and a \<open>#dt\<close> and a \<open>#dd\<close> are opened, both with the
  text of the paragraph.
\<close>

definition rewriteTerm :: "nat \<Rightarrow> NodeWithText \<Rightarrow> string \<Rightarrow> Parser \<Rightarrow> Parser option" where
  "rewriteTerm fuel p text parser =
     (case p of
        StyleNodeRef r \<Rightarrow> Some parser
      | DocumentNodeRef parag \<Rightarrow>
          (case TagDefinition (nodes parser parag) of
             None \<Rightarrow> None
           | Some pt \<Rightarrow>
               if Name (tagDef parser pt) = ''#p'' then
                 if length (tagStack parser) = 0 then None
                 else if SectionMode (tagDef parser (last (tagStack parser))) = sectionParagraph
                         \<and> length text > 0 \<and> last text = CHR '':'' then
                   (case closeTopTag parser of
                      None \<Rightarrow> None
                    | Some p1 \<Rightarrow>
                        (case Parent (nodes p1 parag) of
                           None \<Rightarrow> None
                         | Some pp \<Rightarrow>
                             (case openWithText fuel ''#dt'' (Indent (nodes p1 parag))
                                     (Text (nodes p1 parag))
                                     (p1\<lparr>nodes := RemoveChild pp parag (nodes p1)\<rparr>) of
                                None \<Rightarrow> None
                              | Some p2 \<Rightarrow>
                                  (case closeTopTag p2 of
                                     None \<Rightarrow> None
                                   | Some p3 \<Rightarrow>
                                       openWithText fuel ''#dd'' (Indent (nodes p3 parag))
                                         (Text (nodes p3 parag)) p3))))
                 else Some parser
               else Some parser))"

text \<open>The case \<open>TokenText\<close>.\<close>

definition parseText :: "nat \<Rightarrow> Parser \<Rightarrow> Parser option" where
  "parseText fuel parser =
     (case inTableCell fuel parser of
        None \<Rightarrow> None
      | Some p1 \<Rightarrow>
          if secmode p1 \<noteq> sectionMedia then
            (case textTarget fuel p1 of
               None \<Rightarrow> None
             | Some (None, p2) \<Rightarrow> Some (Parser_next p2)
             | Some (Some p, p2) \<Rightarrow>
                 (case rewriteTerm fuel p (tokenStr p2)
                         (AppendText p (TextNode (tokenStr p2) p) p2) of
                    None \<Rightarrow> None
                  | Some p3 \<Rightarrow> Some (Parser_next p3)))
          else Some (Parser_next p1))"

text \<open>The cases \<open>TokenMathText\<close> and \<open>TokenCodeText\<close>.\<close>

definition parseInline :: "(string \<Rightarrow> NodeWithText \<Rightarrow> Node) \<Rightarrow> nat \<Rightarrow> Parser \<Rightarrow> Parser option" where
  "parseInline mk fuel parser =
     (case inTableCell fuel parser of
        None \<Rightarrow> None
      | Some p1 \<Rightarrow>
          if secmode p1 \<noteq> sectionMedia then
            (case parent p1 of
               None \<Rightarrow> None
             | Some p \<Rightarrow> Some (Parser_next (AppendText p (mk (tokenStr p1) p) p1)))
          else Some (Parser_next p1))"

subsection \<open>Enumerations\<close>

text \<open>
  The loop of the case \<open>TokenEnum\<close>, \<open>for i := len(tagStack) - 1; i >= 0; i--\<close>; the
  second argument is \<open>i + 1\<close>. The result is the pair \<open>(parentEnum, siblingEnum)\<close>, with
  \<open>None\<close> for \<open>-1\<close>.
\<close>

primrec enumLoop ::
  "nat \<Rightarrow> nat \<Rightarrow> TagRef option \<Rightarrow> int \<Rightarrow> nat option \<Rightarrow> Parser \<Rightarrow> (nat option \<times> nat option) option" where
  "enumLoop fuel 0 enumTag ind siblingEnum parser = Some (None, siblingEnum)"
| "enumLoop fuel (Suc i) enumTag ind siblingEnum parser =
     (if i < length (tagStack parser) \<and> i + 1 < length (nodeStack parser) then
        (case isPossibleParent fuel (nodeStack parser ! (i + 1)) enumTag ind parser of
           None \<Rightarrow> None
         | Some (Some depth) \<Rightarrow> Some (Some i, siblingEnum)
         | Some None \<Rightarrow>
             enumLoop fuel i enumTag ind
               (if Indent (nodes parser (nodeStack parser ! (i + 1))) \<ge> ind
                   \<and> (Name (tagDef parser (tagStack parser ! i)) = ''#ul''
                        \<or> Name (tagDef parser (tagStack parser ! i)) = ''#ol'')
                then Some i else siblingEnum)
               parser)
      else None)"

text \<open>
  \<open>openTag2(enumTag, parser.newDocumentNode(enumTag.Name, indent), true)\<close>; \<open>enumTag\<close> is
  a result of \<open>GetTag\<close> and \<open>enumTag.Name\<close> dereferences it.
\<close>

definition openEnum :: "nat \<Rightarrow> TagRef option \<Rightarrow> int \<Rightarrow> Parser \<Rightarrow> Parser option" where
  "openEnum fuel enumTag ind parser =
     (case enumTag of
        None \<Rightarrow> None
      | Some e \<Rightarrow>
          (let (n, p1) = newDocumentNode (Name (tagDef parser e)) ind parser
           in openTag2 fuel e n True p1))"

text \<open>``Open \<open>#ul\<close> or \<open>#ol\<close> or find an appropriate one.''\<close>

definition enumContainer ::
  "nat \<Rightarrow> TagRef option \<Rightarrow> int \<Rightarrow> nat option \<Rightarrow> nat option \<Rightarrow> Parser \<Rightarrow> Parser option" where
  "enumContainer fuel enumTag ind parentEnum siblingEnum parser =
     (case siblingEnum of
        Some sib \<Rightarrow>
          if Some (tagStack parser ! sib) = enumTag then
            (case closeTags (sib + 1) parser of
               None \<Rightarrow> None
             | Some p1 \<Rightarrow>
                 if sib + 1 < length (nodeStack p1) then
                   Some (p1\<lparr>nodes := (nodes p1)
                            (nodeStack p1 ! (sib + 1) :=
                               (nodes p1 (nodeStack p1 ! (sib + 1)))\<lparr>Indent := ind\<rparr>)\<rparr>)
                 else None)
          else
            (case closeTags sib parser of
               None \<Rightarrow> None
             | Some p1 \<Rightarrow> openEnum fuel enumTag ind p1)
      | None \<Rightarrow>
          (case parentEnum of
             Some par \<Rightarrow>
               (case closeTags (par + 1) parser of
                  None \<Rightarrow> None
                | Some p1 \<Rightarrow> openEnum fuel enumTag ind p1)
           | None \<Rightarrow>
               (case closeTags 0 parser of
                  None \<Rightarrow> None
                | Some p1 \<Rightarrow> openEnum fuel enumTag ind p1)))"

text \<open>
  The item: \<open>node := newDocumentNode(tag.Name, indent)\<close>,
  \<open>node.Attributes = parseAttributes(tag)\<close>, \<open>openTag2(tag, node, false)\<close>.
\<close>

definition enumItem :: "nat \<Rightarrow> TagRef option \<Rightarrow> int \<Rightarrow> Parser \<Rightarrow> Parser option" where
  "enumItem fuel tag ind parser =
     (case tag of
        None \<Rightarrow> None
      | Some li \<Rightarrow>
          (let (node, p1) = newDocumentNode (Name (tagDef parser li)) ind parser
           in case parseAttributes fuel (Some li) p1 of
                None \<Rightarrow> None
              | Some (attributes, p2) \<Rightarrow>
                  openTag2 fuel li node False
                    (p2\<lparr>nodes := (nodes p2)(node := (nodes p2 node)\<lparr>Attributes := attributes\<rparr>)\<rparr>)))"

text \<open>The case \<open>TokenEnum\<close>.\<close>

definition parseEnum :: "nat \<Rightarrow> Parser \<Rightarrow> Parser option" where
  "parseEnum fuel parser =
     (let ind = indent (scn parser);
          tag = GetTag (grammar parser) ''#li'';
          enumTag = (if tokenStr parser = ''-'' then GetTag (grammar parser) ''#ul''
                     else GetTag (grammar parser) ''#ol'')
      in case enumLoop fuel (length (tagStack parser)) enumTag ind None parser of
           None \<Rightarrow> None
         | Some (parentEnum, siblingEnum) \<Rightarrow>
             (case enumContainer fuel enumTag ind parentEnum siblingEnum parser of
                None \<Rightarrow> None
              | Some p1 \<Rightarrow> enumItem fuel tag ind p1))"

subsection \<open>Styles and entities\<close>

text \<open>
  A new style node: \<open>node := &StyleNode{...}\<close>, \<open>p.AppendText(node)\<close>; the reference of
  the node is returned with the new state.
\<close>

definition newStyleNode ::
  "string \<Rightarrow> string \<Rightarrow> StyleRef option \<Rightarrow> (string \<rightharpoonup> string) \<Rightarrow> NodeWithText \<Rightarrow> Parser
     \<Rightarrow> StyleNodeRef \<times> Parser" where
  "newStyleNode name val styledef attributes p parser =
     (let r = styleNodeCount parser;
          p1 = parser\<lparr>styleNodes := (styleNodes parser)
                        (r := \<lparr>StyleNodeName = name, StyleNodeDefinition = styledef,
                               StyleNodeAttributes = attributes, StyleNodeParent = p,
                               StyleNodeText = [], StyleNodeValue = val\<rparr>),
                      styleNodeCount := r + 1\<rparr>
      in (r, AppendText p (StyleNodePtr r) p1))"

definition pushStyle :: "StyleNodeRef \<Rightarrow> Parser \<Rightarrow> Parser" where
  "pushStyle r parser = parser\<lparr>styleStack := styleStack parser @ [r]\<rparr>"

text \<open>
  The styles \<open>*\<close> and \<open>_\<close>: \<open>parser.next()\<close>, then the open style of the same name is
  closed, or a new one is opened.
\<close>

definition toggleStyle :: "string \<Rightarrow> NodeWithText \<Rightarrow> Parser \<Rightarrow> Parser" where
  "toggleStyle name p parser =
     (let p1 = Parser_next parser
      in if length (styleStack p1) > 0
            \<and> StyleNodeName (styleNodes p1 (last (styleStack p1))) = name
         then closeStyle name p1
         else (let (r, p2) = newStyleNode name '''' None Map.empty p p1 in pushStyle r p2))"

text \<open>
  \<open>for parser.next(); parser.token == TokenValue; parser.next() { ... }\<close> of a style
  \<open>{name ...\<close>: the values are written to the attributes of the node.
\<close>

definition styleAttribute :: "string \<Rightarrow> (string \<rightharpoonup> string) \<Rightarrow> (string \<rightharpoonup> string)" where
  "styleAttribute str attributes =
     (case Index str CHR '':'' of
        Some pos \<Rightarrow> attributes(take pos str \<mapsto> drop (pos + 1) str)
      | None \<Rightarrow> attributes(str \<mapsto> ''''))"

primrec styleAttributesLoop :: "nat \<Rightarrow> StyleNodeRef \<Rightarrow> Parser \<Rightarrow> Parser option" where
  "styleAttributesLoop 0 r parser = None"
| "styleAttributesLoop (Suc fuel) r parser =
     (if token parser = TokenValue
      then styleAttributesLoop fuel r
             (Parser_next
                (parser\<lparr>styleNodes := (styleNodes parser)
                           (r := (styleNodes parser r)
                              \<lparr>StyleNodeAttributes :=
                                 styleAttribute (tokenStr parser)
                                   (StyleNodeAttributes (styleNodes parser r))\<rparr>)\<rparr>))
      else Some parser)"

text \<open>
  A style \<open>{name:value ...\<close>. A name that \<open>GetStyle\<close> does not know gives a node named
  \<open>-css-\<close> with the attribute \<open>name\<close> set to \<open>value\<close>.
\<close>

definition namedStyle :: "nat \<Rightarrow> NodeWithText \<Rightarrow> Parser \<Rightarrow> Parser option" where
  "namedStyle fuel p parser =
     (let p1 = Parser_next parser
      in if token p1 \<noteq> TokenValue then Some (logPrintf LogExpectedStyle p1)
         else
           (let str = tokenStr p1;
                name = (case Index str CHR '':'' of None \<Rightarrow> str | Some pos \<Rightarrow> take pos str);
                val = (case Index str CHR '':'' of None \<Rightarrow> '''' | Some pos \<Rightarrow> drop (pos + 1) str);
                (r, p2) =
                  (case GetStyle (grammar p1) name of
                     None \<Rightarrow> newStyleNode ''-css-'' '''' None [name \<mapsto> val] p p1
                   | Some styledef \<Rightarrow> newStyleNode name val (Some styledef) Map.empty p p1)
            in case styleAttributesLoop fuel r (Parser_next p2) of
                 None \<Rightarrow> None
               | Some p3 \<Rightarrow> Some (pushStyle r p3)))"

text \<open>The case \<open>TokenStyle\<close>.\<close>

definition parseStyle :: "nat \<Rightarrow> Parser \<Rightarrow> Parser option" where
  "parseStyle fuel parser =
     (case inTableCell fuel parser of
        None \<Rightarrow> None
      | Some p1 \<Rightarrow>
          if tokenStr p1 = ''}'' then Some (Parser_next (closeStyle ''}'' p1))
          else
            (case parent p1 of
               None \<Rightarrow> None
             | Some p \<Rightarrow>
                 if tokenStr p1 = ''*'' then Some (toggleStyle ''*'' p p1)
                 else if tokenStr p1 = ''_'' then Some (toggleStyle ''_'' p p1)
                 else namedStyle fuel p p1))"

text \<open>
  The case \<open>TokenEntity\<close>. The counters of the entity are a new map with the entries of
  the running map, after the counter of the entity has been incremented.
\<close>

definition parseEntity :: "nat \<Rightarrow> Parser \<Rightarrow> Parser option" where
  "parseEntity fuel parser =
     (case inTableCell fuel parser of
        None \<Rightarrow> None
      | Some p1 \<Rightarrow>
          (let str = tokenStr p1;
               name = (case Index str CHR '':'' of None \<Rightarrow> str | Some pos \<Rightarrow> take pos str);
               val = (case Index str CHR '':'' of None \<Rightarrow> '''' | Some pos \<Rightarrow> drop (pos + 1) str)
           in case parseAttributes fuel None p1 of
                None \<Rightarrow> None
              | Some (attribs, p2) \<Rightarrow>
                  (case GetEntity (grammar p2) name of
                     None \<Rightarrow>
                       Some (logPrintf (LogUnknownEntity (lineCount (scn p2)) (lineOffset (scn p2)) name) p2)
                   | Some edef \<Rightarrow>
                       (case parent p2 of
                          None \<Rightarrow> None
                        | Some p \<Rightarrow>
                            (let p3 = incCounter (EntityCounter (Entities (grammar p2) ! edef)) p2;
                                 m = countersCount p3;
                                 p4 = p3\<lparr>countersStore := (countersStore p3)(m := running p3),
                                         countersCount := m + 1\<rparr>
                             in Some (AppendText p
                                        (EntityNodePtr
                                           \<lparr>EntityNodeName = name, EntityNodeDefinition = edef,
                                            EntityNodeAttributes = attribs, EntityNodeParent = p,
                                            EntityNodeCounters = m, EntityNodeValue = val\<rparr>)
                                        p4))))))"

subsection \<open>Tables\<close>

text \<open>The cases \<open>TokenTableCell\<close> and \<open>TokenTableRow\<close>.\<close>

definition parseTableCell :: "nat \<Rightarrow> Parser \<Rightarrow> Parser option" where
  "parseTableCell fuel parser =
     (case closeTableCell (int (length (tokenStr parser))) parser of
        None \<Rightarrow> None
      | Some p1 \<Rightarrow>
          (case openTableCell fuel p1 of
             None \<Rightarrow> None
           | Some p2 \<Rightarrow> Some (Parser_next p2)))"

definition parseTableRow :: "Parser \<Rightarrow> Parser option" where
  "parseTableRow parser =
     (case closeTableRow (int (length (tokenStr parser))) parser of
        None \<Rightarrow> None
      | Some p1 \<Rightarrow> Some (Parser_next p1))"

subsection \<open>Sections\<close>

text \<open>
  The last branch of the case \<open>TokenSection\<close>: a tag is opened. The parser source writes
  the field \<open>layout\<close> of the scanner with the constants \<open>layoutTable\<close>, \<open>layoutCode\<close>,
  \<open>layoutMath\<close> and \<open>layoutParagraph\<close>; the scanner calls the field \<open>textMode\<close> and the
  constants \<open>textTable\<close>, \<open>textCode\<close>, \<open>textMath\<close> and \<open>textParagraph\<close>.
\<close>

definition sectionLayout :: "SectionMode \<Rightarrow> Scanner \<Rightarrow> Scanner" where
  "sectionLayout m scanner =
     (if m = sectionTable then scanner\<lparr>textMode := textTable\<rparr>
      else if m = sectionCode then scanner\<lparr>textMode := textCode\<rparr>
      else if m = sectionMath then scanner\<lparr>textMode := textMath\<rparr>
      else if m = sectionParagraph then scanner\<lparr>textMode := textParagraph\<rparr>
      else scanner)"

definition parseTag :: "nat \<Rightarrow> Parser \<Rightarrow> Parser option" where
  "parseTag fuel parser =
     (let str = tokenStr parser;
          pos = Index str CHR '':'';
          tagname = (case pos of None \<Rightarrow> str | Some i \<Rightarrow> take i str);
          v = (case pos of None \<Rightarrow> '''' | Some i \<Rightarrow> drop (i + 1) str);
          (tag, p1) =
            (case GetTag (grammar parser) tagname of
               None \<Rightarrow> (GetTag (grammar parser) ''#p'',
                         logPrintf (LogUnknownTag (FromLine (tokenPos parser)) tagname) parser)
             | Some t \<Rightarrow> (Some t, parser))
      in case tag of
           None \<Rightarrow> None
         | Some t \<Rightarrow>
             (case openTag fuel t (p1\<lparr>scn := sectionLayout (SectionMode (tagDef p1 t)) (scn p1)\<rparr>) of
                None \<Rightarrow> None
              | Some (node, p2) \<Rightarrow>
                  (let p3 = (if pos \<noteq> None then
                               if DefaultAttribute (tagDef p2 t) = ''''
                               then logPrintf (LogNoDefaultAttribute tagname) p2
                               else p2\<lparr>nodes := (nodes p2)
                                        (node := (nodes p2 node)
                                           \<lparr>Attributes := (Attributes (nodes p2 node))
                                              (DefaultAttribute (tagDef p2 t) \<mapsto> v)\<rparr>)\<rparr>
                             else p2)
                   in Some (if SectionMode (tagDef p3 t) = sectionTable
                            then p3\<lparr>tableInbody := False\<rparr> else p3))))"

subsection \<open>Definitions of tags, entities and styles\<close>

text \<open>
  A section \<open>#define:...\<close> reads a YAML map and the text of a template. The YAML
  library, \<open>url.Parse\<close>, the resource resolver of the parser and the regular expressions
  of \<open>ParseHTMLResources\<close> are no part of the model; they are the fields of an
  environment. \<open>yamlParse\<close> is \<open>yaml.Parse\<close> followed by \<open>yamlToMap\<close>: an error
  message, or the node. A map node is the list of its entries in the order in which
  \<open>range\<close> visits them (Go leaves that order open). \<open>urlParse\<close> and \<open>resolver\<close> give
  the error, if any, for a URL; \<open>ParseHTMLResources\<close> gives the error, if any, for a
  template text. Templates and resources are not kept in the definitions of the model.
\<close>

datatype YamlValue =
    YamlString string
  | YamlList "YamlValue list"
  | YamlMap "(string \<times> YamlValue) list"

datatype YamlNode = YamlNil | YamlMapNode "(string \<times> YamlValue) list" | YamlOtherNode

datatype ResourceType = ResourceTypeStyle | ResourceTypeScript | ResourceTypeUnknown

record Env =
  yamlParse :: "string \<Rightarrow> string + YamlNode"
  urlParse :: "string \<Rightarrow> string option"
  resolver :: "ResourceType \<Rightarrow> string \<Rightarrow> string option"
  ParseHTMLResources :: "string \<Rightarrow> string option"

text \<open>\<open>parseConfig\<close>: a nil map is ranged over like an empty one.\<close>

definition parseConfig :: "Env \<Rightarrow> Parser \<Rightarrow> Parser \<times> (Error + (string \<times> YamlValue) list)" where
  "parseConfig env parser =
     (if token parser = TokenConfigText then
        (let p1 = Parser_next parser
         in case yamlParse env (tokenStr parser) of
              Inl e \<Rightarrow> (p1, Inl (LibraryErr e))
            | Inr YamlNil \<Rightarrow> (p1, Inr [])
            | Inr (YamlMapNode m) \<Rightarrow> (p1, Inr m)
            | Inr YamlOtherNode \<Rightarrow> (p1, Inl (ErrorMsg ''Expected a YAML map'')))
      else (parser, Inr []))"

definition expectedString :: "string \<Rightarrow> Error" where
  "expectedString k = ErrorMsg (concat [''Expected attribute '', k, '' to be a string''])"

definition expectedStrings :: "string \<Rightarrow> Error" where
  "expectedStrings k = ErrorMsg (concat [''Expected attribute '', k, '' to be a list of strings''])"

definition yamlString :: "string \<Rightarrow> YamlValue \<Rightarrow> Error + string" where
  "yamlString k v =
     (case v of YamlString str \<Rightarrow> Inr (TrimSpace str) | _ \<Rightarrow> Inl (expectedString k))"

primrec yamlStringList :: "string \<Rightarrow> YamlValue list \<Rightarrow> Error + string list" where
  "yamlStringList k [] = Inr []"
| "yamlStringList k (e # es) =
     (case e of
        YamlString str \<Rightarrow>
          (case yamlStringList k es of
             Inl err \<Rightarrow> Inl err
           | Inr result \<Rightarrow> Inr (TrimSpace str # result))
      | _ \<Rightarrow> Inl (expectedStrings k))"

definition yamlStrings :: "string \<Rightarrow> YamlValue \<Rightarrow> Error + string list" where
  "yamlStrings k v =
     (case v of YamlList l \<Rightarrow> yamlStringList k l | _ \<Rightarrow> Inl (expectedStrings k))"

definition yamlStringOrStrings :: "string \<Rightarrow> YamlValue \<Rightarrow> Error + string list" where
  "yamlStringOrStrings k v =
     (case yamlString k v of Inr str \<Rightarrow> Inr [str] | Inl err \<Rightarrow> yamlStrings k v)"

text \<open>
  \<open>for _, resourceURL := range js { u, err := url.Parse(resourceURL); ...;
  err = parser.resolver(r); ... }\<close>: the first error, if any.
\<close>

primrec resolveAll :: "Env \<Rightarrow> ResourceType \<Rightarrow> string list \<Rightarrow> Error option" where
  "resolveAll env ty [] = None"
| "resolveAll env ty (u # us) =
     (case urlParse env u of
        Some e \<Rightarrow> Some (LibraryErr e)
      | None \<Rightarrow>
          (case resolver env ty u of
             Some e \<Rightarrow> Some (LibraryErr e)
           | None \<Rightarrow> resolveAll env ty us))"

definition resources :: "Env \<Rightarrow> ResourceType \<Rightarrow> string \<Rightarrow> YamlValue \<Rightarrow> Error option" where
  "resources env ty k v =
     (case yamlStringOrStrings k v of
        Inl err \<Rightarrow> Some err
      | Inr urls \<Rightarrow> resolveAll env ty urls)"

text \<open>The key \<open>ShortStyles\<close>: the entries \<open>k=v\<close> of the list, in order.\<close>

definition shortStyles :: "string list \<Rightarrow> (string \<rightharpoonup> string)" where
  "shortStyles l =
     foldl (\<lambda>m kv. case Index kv CHR ''='' of
                      None \<Rightarrow> m
                    | Some idx \<Rightarrow> m(take idx kv \<mapsto> drop (idx + 1) kv))
       Map.empty l"

text \<open>
  The variables a definition collects from its configuration, with their initial
  values. An entity uses the counter and the short styles, a style the short styles.
\<close>

record Config =
  cfgParents :: "string list"
  cfgCounter :: string
  cfgResetCounters :: "string list"
  cfgDefattr :: string
  cfgShortcss :: "string \<rightharpoonup> string"
  cfgSecmode :: SectionMode
  cfgFirstChild :: bool
  cfgParentHood :: ParentHood

definition noConfig :: Config where
  "noConfig =
     \<lparr>cfgParents = [], cfgCounter = '''', cfgResetCounters = [], cfgDefattr = '''',
      cfgShortcss = Map.empty, cfgSecmode = sectionNormal, cfgFirstChild = False,
      cfgParentHood = NoParentHood\<rparr>"

definition withError :: "Error option \<Rightarrow> Config \<Rightarrow> Error + Config" where
  "withError e c = (case e of Some err \<Rightarrow> Inl err | None \<Rightarrow> Inr c)"

definition parseParentHood :: "string \<Rightarrow> Error + ParentHood" where
  "parseParentHood bs =
     (if bs = ''none'' then Inr NoParentHood
      else if bs = ''indent'' then Inr IndentParentHood
      else if bs = ''root'' then Inr RootParentHood
      else if bs = ''default-root'' then Inr DefaultRootParentHood
      else if bs = ''text'' then Inr TextParentHood
      else Inl (ErrorMsg (concat [''Unknown ParentHood value: '', bs])))"

definition parseMode :: "nat \<Rightarrow> string \<Rightarrow> string \<Rightarrow> Error + SectionMode" where
  "parseMode line section str =
     (if str = ''normal'' then Inr sectionNormal
      else if str = ''table'' then Inr sectionTable
      else if str = ''math'' then Inr sectionMath
      else if str = ''code'' then Inr sectionCode
      else if str = ''media'' then Inr sectionMedia
      else if str = ''paragraph'' then Inr sectionParagraph
      else Inl (InvalidModeErr line str section))"

text \<open>The body of \<open>for k, v := range config\<close> in the definition of a tag.\<close>

definition tagConfigEntry :: "Env \<Rightarrow> nat \<Rightarrow> string \<Rightarrow> Config \<Rightarrow> string \<times> YamlValue \<Rightarrow> Error + Config" where
  "tagConfigEntry env line section c kv =
     (let k = fst kv; v = snd kv
      in if k = ''Parents'' then
           (case yamlStringOrStrings k v of
              Inl err \<Rightarrow> Inl err | Inr l \<Rightarrow> Inr (c\<lparr>cfgParents := l\<rparr>))
         else if k = ''Counter'' then
           (case yamlString k v of
              Inl err \<Rightarrow> Inl err | Inr str \<Rightarrow> Inr (c\<lparr>cfgCounter := str\<rparr>))
         else if k = ''ResetCounters'' then
           (case yamlStringOrStrings k v of
              Inl err \<Rightarrow> Inl err | Inr l \<Rightarrow> Inr (c\<lparr>cfgResetCounters := l\<rparr>))
         else if k = ''Scripts'' then withError (resources env ResourceTypeScript k v) c
         else if k = ''Styles'' then withError (resources env ResourceTypeStyle k v) c
         else if k = ''Resources'' then withError (resources env ResourceTypeUnknown k v) c
         else if k = ''DefaultAttrib'' then
           (case yamlString k v of
              Inl err \<Rightarrow> Inl err | Inr str \<Rightarrow> Inr (c\<lparr>cfgDefattr := str\<rparr>))
         else if k = ''FirstChild'' then
           (case yamlString k v of
              Inl err \<Rightarrow> Inl err
            | Inr str \<Rightarrow> Inr (if str = ''true'' then c\<lparr>cfgFirstChild := True\<rparr> else c))
         else if k = ''Parenthood'' then
           (case yamlString k v of
              Inl err \<Rightarrow> Inl err
            | Inr bs \<Rightarrow>
                (case parseParentHood bs of
                   Inl err \<Rightarrow> Inl err | Inr ph \<Rightarrow> Inr (c\<lparr>cfgParentHood := ph\<rparr>)))
         else if k = ''Mode'' then
           (case yamlString k v of
              Inl err \<Rightarrow> Inl err
            | Inr str \<Rightarrow>
                (case parseMode line section str of
                   Inl err \<Rightarrow> Inl err | Inr m \<Rightarrow> Inr (c\<lparr>cfgSecmode := m\<rparr>)))
         else if k = ''ShortStyles'' then
           (case yamlStringOrStrings k v of
              Inl err \<Rightarrow> Inl err | Inr l \<Rightarrow> Inr (c\<lparr>cfgShortcss := shortStyles l\<rparr>))
         else Inr c)"

text \<open>The same loop body in the definition of an entity, and of a style.\<close>

definition entityConfigEntry :: "Env \<Rightarrow> Config \<Rightarrow> string \<times> YamlValue \<Rightarrow> Error + Config" where
  "entityConfigEntry env c kv =
     (let k = fst kv; v = snd kv
      in if k = ''Counter'' then
           (case yamlString k v of
              Inl err \<Rightarrow> Inl err | Inr str \<Rightarrow> Inr (c\<lparr>cfgCounter := str\<rparr>))
         else if k = ''Scripts'' then withError (resources env ResourceTypeScript k v) c
         else if k = ''Styles'' then withError (resources env ResourceTypeStyle k v) c
         else if k = ''ShortStyles'' then
           (case yamlStringOrStrings k v of
              Inl err \<Rightarrow> Inl err | Inr l \<Rightarrow> Inr (c\<lparr>cfgShortcss := shortStyles l\<rparr>))
         else Inr c)"

definition styleConfigEntry :: "Env \<Rightarrow> Config \<Rightarrow> string \<times> YamlValue \<Rightarrow> Error + Config" where
  "styleConfigEntry env c kv =
     (let k = fst kv; v = snd kv
      in if k = ''Scripts'' then withError (resources env ResourceTypeScript k v) c
         else if k = ''Styles'' then withError (resources env ResourceTypeStyle k v) c
         else if k = ''ShortStyles'' then
           (case yamlStringOrStrings k v of
              Inl err \<Rightarrow> Inl err | Inr l \<Rightarrow> Inr (c\<lparr>cfgShortcss := shortStyles l\<rparr>))
         else Inr c)"

text \<open>\<open>for k, v := range config { ...; if err != nil { return nil, err } }\<close>\<close>

primrec configLoop ::
  "(Config \<Rightarrow> string \<times> YamlValue \<Rightarrow> Error + Config) \<Rightarrow> (string \<times> YamlValue) list \<Rightarrow> Config
     \<Rightarrow> Error + Config" where
  "configLoop body [] c = Inr c"
| "configLoop body (kv # kvs) c =
     (case body c kv of Inl err \<Rightarrow> Inl err | Inr c' \<Rightarrow> configLoop body kvs c')"

text \<open>
  The start of a definition: the scanner is set to read a configuration,
  \<open>parser.s.skipWhitespace(false)\<close>, \<open>parser.next()\<close>, \<open>parseConfig()\<close>.
\<close>

definition startConfig :: "Env \<Rightarrow> Parser \<Rightarrow> Parser \<times> (Error + (string \<times> YamlValue) list)" where
  "startConfig env parser =
     parseConfig env
       (Parser_next
          (parser\<lparr>scn := skipWhitespace False ((scn parser)\<lparr>mode := modeConfig, textMode := textCode\<rparr>)\<rparr>))"

text \<open>\<open>for ; parser.token == TokenCodeText; parser.next() { text += parser.tokenStr }\<close>\<close>

primrec codeTextLoop :: "nat \<Rightarrow> string \<Rightarrow> Parser \<Rightarrow> (string \<times> Parser) option" where
  "codeTextLoop 0 text parser = None"
| "codeTextLoop (Suc fuel) text parser =
     (if token parser = TokenCodeText
      then codeTextLoop fuel (text @ tokenStr parser) (Parser_next parser)
      else Some (text, parser))"

text \<open>
  The common frame of the three definitions: the configuration, the template text, its
  resources, then the registration \<open>register\<close>, which may fail. The result is the new
  state with the error \<open>parse\<close> returns, if any.
\<close>

definition defineWith ::
  "Env \<Rightarrow> nat \<Rightarrow> (Parser \<Rightarrow> Config \<Rightarrow> string \<times> YamlValue \<Rightarrow> Error + Config)
     \<Rightarrow> (Config \<Rightarrow> Grammar \<Rightarrow> Grammar \<times> Error option) \<Rightarrow> Parser \<Rightarrow> (Parser \<times> Error option) option" where
  "defineWith env fuel body register parser =
     (let (p1, config) = startConfig env parser
      in case config of
           Inl err \<Rightarrow> Some (p1, Some err)
         | Inr cfg \<Rightarrow>
             (case configLoop (body p1) cfg noConfig of
                Inl err \<Rightarrow> Some (p1, Some err)
              | Inr c \<Rightarrow>
                  (case codeTextLoop fuel '''' p1 of
                     None \<Rightarrow> None
                   | Some (text, p2) \<Rightarrow>
                       (case ParseHTMLResources env (TrimSpace text) of
                          Some e \<Rightarrow> Some (p2, Some (LibraryErr e))
                        | None \<Rightarrow>
                            (let (g, err) = register c (grammar p2)
                             in Some (p2\<lparr>grammar := g\<rparr>, err))))))"

definition customTag :: "string \<Rightarrow> Config \<Rightarrow> TagDefinition" where
  "customTag section c =
     \<lparr>Name = section,
      DefaultParent = (if length (cfgParents c) > 0 then Some (cfgParents c ! 0) else None),
      SectionMode = cfgSecmode c, PossibleParents = cfgParents c, Counter = cfgCounter c,
      ResetCounter = cfgResetCounters c, DefaultAttribute = cfgDefattr c,
      ClassShortcuts = cfgShortcss c, ParentHood = cfgParentHood c,
      FirstChild = cfgFirstChild c, allowedInParentHood = False\<rparr>"

definition defineTag :: "Env \<Rightarrow> nat \<Rightarrow> Parser \<Rightarrow> (Parser \<times> Error option) option" where
  "defineTag env fuel parser =
     (let section = drop 8 (tokenStr parser)
      in defineWith env fuel (\<lambda>p. tagConfigEntry env (FromLine (tokenPos p)) section)
           (\<lambda>c g. case addCustomTag g (customTag section c) of
                     (g', err) \<Rightarrow> (g', map_option GrammarErr err))
           parser)"

definition defineEntity :: "Env \<Rightarrow> nat \<Rightarrow> Parser \<Rightarrow> (Parser \<times> Error option) option" where
  "defineEntity env fuel parser =
     (let entity = drop 9 (tokenStr parser)
      in defineWith env fuel (\<lambda>p. entityConfigEntry env)
           (\<lambda>c g. (addCustomEntity g
                      \<lparr>EntityName = entity, EntityCounter = cfgCounter c,
                       EntityClassShortcuts = cfgShortcss c\<rparr>, None))
           parser)"

definition defineStyle :: "Env \<Rightarrow> nat \<Rightarrow> Parser \<Rightarrow> (Parser \<times> Error option) option" where
  "defineStyle env fuel parser =
     (let style = drop 9 (tokenStr parser)
      in defineWith env fuel (\<lambda>p. styleConfigEntry env)
           (\<lambda>c g. (addCustomStyle g \<lparr>StyleName = style, StyleClassShortcuts = cfgShortcss c\<rparr>,
                    None))
           parser)"

text \<open>The case \<open>TokenSection\<close>.\<close>

definition parseSection :: "Env \<Rightarrow> nat \<Rightarrow> Parser \<Rightarrow> (Parser \<times> Error option) option" where
  "parseSection env fuel parser =
     (let str = tokenStr parser
      in if length str \<ge> 9 \<and> take 9 str = ''#define:#'' then defineTag env fuel parser
         else if length str \<ge> 9 \<and> take 9 str = ''#define:~'' then defineEntity env fuel parser
         else if length str \<ge> 9 \<and> take 9 str = ''#define:{'' then defineStyle env fuel parser
         else if length str \<ge> 8 \<and> take 8 str = ''#define:'' then
           Some (parser, Some (ErrorMsg
             ''#define can only define tags (starting with #), entities (starting with ~) and styles (starting with {)''))
         else map_option (\<lambda>p. (p, None)) (parseTag fuel parser))"

subsection \<open>\<open>parse\<close> and \<open>ParseMarkdown\<close>\<close>

text \<open>
  One round of \<open>for parser.token != TokenEOF { switch parser.token { ... } }\<close>. The
  \<open>switch\<close> has no case for \<open>TokenValue\<close> and no default: such a token leaves the state
  as it is.
\<close>

definition parseToken :: "Env \<Rightarrow> nat \<Rightarrow> Parser \<Rightarrow> (Parser \<times> Error option) option" where
  "parseToken env fuel parser =
     (case token parser of
        TokenSection \<Rightarrow> parseSection env fuel parser
      | TokenEnum \<Rightarrow> map_option (\<lambda>p. (p, None)) (parseEnum fuel parser)
      | TokenText \<Rightarrow> map_option (\<lambda>p. (p, None)) (parseText fuel parser)
      | TokenMathText \<Rightarrow> map_option (\<lambda>p. (p, None)) (parseInline MathNode fuel parser)
      | TokenCodeText \<Rightarrow> map_option (\<lambda>p. (p, None)) (parseInline CodeNode fuel parser)
      | TokenStyle \<Rightarrow> map_option (\<lambda>p. (p, None)) (parseStyle fuel parser)
      | TokenEntity \<Rightarrow> map_option (\<lambda>p. (p, None)) (parseEntity fuel parser)
      | TokenConfigText \<Rightarrow> Some (Parser_next parser, None)
      | TokenTableCell \<Rightarrow> map_option (\<lambda>p. (p, None)) (parseTableCell fuel parser)
      | TokenTableRow \<Rightarrow> map_option (\<lambda>p. (p, None)) (parseTableRow parser)
      | _ \<Rightarrow> Some (parser, None))"

text \<open>
  The main loop. It ends at \<open>TokenEOF\<close> or at the first error; the model gives it
  \<open>rounds\<close> iterations, each with \<open>fuel\<close> for its inner loops.
\<close>

primrec parseLoop :: "Env \<Rightarrow> nat \<Rightarrow> nat \<Rightarrow> Parser \<Rightarrow> (Parser \<times> Error option) option" where
  "parseLoop env fuel 0 parser = None"
| "parseLoop env fuel (Suc rounds) parser =
     (if token parser = TokenEOF then Some (parser, None)
      else (case parseToken env fuel parser of
              None \<Rightarrow> None
            | Some (p1, Some err) \<Rightarrow> Some (p1, Some err)
            | Some (p1, None) \<Rightarrow> parseLoop env fuel rounds p1))"

text \<open>
  \<open>Parser.parse\<close>: the first token, the initial values of the local variables, the
  main loop, \<open>closeTags(0)\<close>. The result is the final state with the pair
  \<open>(doc, err)\<close> as a sum.
\<close>

definition parse :: "Env \<Rightarrow> nat \<Rightarrow> Parser \<Rightarrow> (Parser \<times> (Error + NodeRef)) option" where
  "parse env fuel parser =
     (let p0 = (Parser_next parser)
                 \<lparr>tagStack := [], nodeStack := [rootNode parser], styleStack := [],
                  secmode := sectionNormal, tableInbody := False\<rparr>
      in case parseLoop env fuel fuel p0 of
           None \<Rightarrow> None
         | Some (p1, Some err) \<Rightarrow> Some (p1, Inl err)
         | Some (p1, None) \<Rightarrow>
             (case closeTags 0 p1 of
                None \<Rightarrow> None
              | Some p2 \<Rightarrow> Some (p2, Inr (rootNode p2))))"

text \<open>
  \<open>ParseMarkdown\<close>: the first error of the scanner, if it has recorded one; else the
  error of \<open>parse\<close>, if any; else the document.
\<close>

definition ParseMarkdown :: "Env \<Rightarrow> nat \<Rightarrow> Parser \<Rightarrow> (Parser \<times> (Error + NodeRef)) option" where
  "ParseMarkdown env fuel parser =
     (case parse env fuel parser of
        None \<Rightarrow> None
      | Some (p1, r) \<Rightarrow>
          Some (p1, if length (Errors (scn p1)) > 0 then Inl (ScannerErr (Errors (scn p1) ! 0))
                    else r))"

lemma GetTag_loop_Some:
  "GetTag_loop tags k n = Some i \<longleftrightarrow>
     i < k \<and> Name (tags ! i) = n \<and> (\<forall>j. i < j \<and> j < k \<longrightarrow> Name (tags ! j) \<noteq> n)"
proof (induction k)
  case 0
  then show ?case by simp
next
  case (Suc k)
  show ?case
  proof (cases "Name (tags ! k) = n")
    case True
    then show ?thesis
      by (auto simp: less_Suc_eq) 
  next
    case False
    then show ?thesis using Suc
      by (auto simp: less_Suc_eq)
  qed
qed

lemma GetTag_loop_None:
  "GetTag_loop tags k n = None \<longleftrightarrow> (\<forall>j<k. Name (tags ! j) \<noteq> n)"
  by (induction k) (auto simp: less_Suc_eq)

lemma GetEntity_loop_Some:
  "GetEntity_loop es k n = Some i \<longleftrightarrow>
     (\<exists>m. i = k + m \<and> m < length es \<and> EntityName (es ! m) = n
        \<and> (\<forall>j < m. EntityName (es ! j) \<noteq> n))"
proof (induction es arbitrary: k)
  case Nil
  then show ?case by simp
next
  case (Cons e es)
  show ?case
  proof (cases "EntityName e = n")
    case True
    have "(\<exists>m. i = k + m \<and> m < length (e # es) \<and> EntityName ((e # es) ! m) = n
        \<and> (\<forall>j < m. EntityName ((e # es) ! j) \<noteq> n)) \<longleftrightarrow> i = k"
    proof
      assume "\<exists>m. i = k + m \<and> m < length (e # es) \<and> EntityName ((e # es) ! m) = n
        \<and> (\<forall>j < m. EntityName ((e # es) ! j) \<noteq> n)"
      then obtain m where m: "i = k + m" "\<forall>j < m. EntityName ((e # es) ! j) \<noteq> n" by blast
      have "m = 0"
      proof (rule ccontr)
        assume "m \<noteq> 0"
        then have "0 < m" by simp
        with m(2) have "EntityName ((e # es) ! 0) \<noteq> n" by blast
        with True show False by simp
      qed
      with m show "i = k" by simp
    next
      assume "i = k"
      with True show "\<exists>m. i = k + m \<and> m < length (e # es) \<and> EntityName ((e # es) ! m) = n
        \<and> (\<forall>j < m. EntityName ((e # es) ! j) \<noteq> n)"
        by (intro exI[of _ 0]) simp
    qed
    with True show ?thesis by auto
  next
    case False
    have "(\<exists>m. i = k + m \<and> m < length (e # es) \<and> EntityName ((e # es) ! m) = n
        \<and> (\<forall>j < m. EntityName ((e # es) ! j) \<noteq> n))
      \<longleftrightarrow> (\<exists>m. i = Suc k + m \<and> m < length es \<and> EntityName (es ! m) = n
        \<and> (\<forall>j < m. EntityName (es ! j) \<noteq> n))" (is "?L \<longleftrightarrow> ?R")
    proof
      assume ?L
      then obtain m where m: "i = k + m" "m < length (e # es)" "EntityName ((e # es) ! m) = n"
        "\<forall>j < m. EntityName ((e # es) ! j) \<noteq> n" by blast
      from m(3) False obtain m' where m': "m = Suc m'" by (cases m) auto
      have "\<forall>j < m'. EntityName (es ! j) \<noteq> n"
      proof (intro allI impI)
        fix j assume "j < m'"
        then have "Suc j < m" using m' by simp
        with m(4) have "EntityName ((e # es) ! Suc j) \<noteq> n" by blast
        then show "EntityName (es ! j) \<noteq> n" by simp
      qed
      with m m' show ?R by (intro exI[of _ m']) simp
    next
      assume ?R
      then obtain m where m: "i = Suc k + m" "m < length es" "EntityName (es ! m) = n"
        "\<forall>j < m. EntityName (es ! j) \<noteq> n" by blast
      have "\<forall>j < Suc m. EntityName ((e # es) ! j) \<noteq> n"
        using m(4) False by (auto simp: nth_Cons split: nat.splits)
      with m show ?L by (intro exI[of _ "Suc m"]) simp
    qed
    with False Cons.IH[of "Suc k"] show ?thesis by simp
  qed
qed

lemma GetTag_None_iff: "GetTag g n = None \<longleftrightarrow> (\<forall>t \<in> set (Tags g). Name t \<noteq> n)"
proof -
  have "(\<forall>j<length (Tags g). Name (Tags g ! j) \<noteq> n) \<longleftrightarrow> (\<forall>t \<in> set (Tags g). Name t \<noteq> n)"
    by (simp add: all_set_conv_all_nth)
  then show ?thesis by (simp add: GetTag_def GetTag_loop_None)
qed

lemma checkPossibleParents_None:
  "checkPossibleParents g n ps = None \<longleftrightarrow> (\<forall>p \<in> set ps. GetTag g p \<noteq> None)"
  by (induction ps) auto

lemma checkPossibleParents_Some:
  "checkPossibleParents g n ps = Some err \<Longrightarrow>
     \<exists>p \<in> set ps. GetTag g p = None \<and> err = GrammarError (possibleParentMsg p n)"
  by (induction ps) (auto split: if_splits)


definition registered :: "Grammar \<Rightarrow> TagDefinition \<Rightarrow> Grammar" where
  "registered g tag = g\<lparr>Tags := Tags g @ [tag]\<rparr>"

definition settled :: "Grammar \<Rightarrow> TagDefinition \<Rightarrow> Grammar" where
  "settled g tag =
     (let t = length (Tags g);
          g1 = registered g tag;
          g2 = (if DefaultParent tag = None \<and> Name tag \<noteq> ''#root''
                then g1\<lparr>Tags := (Tags g1)[t := (Tags g1 ! t)\<lparr>allowedInParentHood := True\<rparr>]\<rparr>
                else g1);
          g3 = (if ParentHood tag = DefaultRootParentHood
                then g2\<lparr>Tags := rewriteChildren (currentDefaultRootName g2) t (Name tag) 0 (Tags g2),
                        currentDefaultRoot := Some t\<rparr>
                else g2)
      in (if currentDefaultRoot g3 \<noteq> None \<and> DefaultParent (Tags g3 ! t) = None
                            \<and> Name (Tags g3 ! t) \<noteq> ''#root''
                         then g3\<lparr>Tags := (Tags g3)[t := (Tags g3 ! t)\<lparr>DefaultParent := currentDefaultRootName g3\<rparr>]\<rparr>
                         else g3))"

lemma addCustomTag_eq:
  "addCustomTag g tag =
     (case checkDefaultParent (registered g tag) tag of
        Some e \<Rightarrow> (registered g tag, Some e)
      | None \<Rightarrow>
         (case checkPossibleParents (registered g tag) (Name tag) (PossibleParents tag) of
            Some e \<Rightarrow> (registered g tag, Some e)
          | None \<Rightarrow> (settled g tag, None)))"
  unfolding addCustomTag_def settled_def registered_def Let_def by (rule refl)

lemma addCustomTag_snd:
  "snd (addCustomTag g tag) =
     (case checkDefaultParent (registered g tag) tag of Some e \<Rightarrow> Some e
      | None \<Rightarrow> checkPossibleParents (registered g tag) (Name tag) (PossibleParents tag))"
  unfolding addCustomTag_eq
  by (cases "checkDefaultParent (registered g tag) tag";
      cases "checkPossibleParents (registered g tag) (Name tag) (PossibleParents tag)") simp_all

lemma addCustomTag_error_fst:
  "snd (addCustomTag g tag) \<noteq> None \<Longrightarrow> fst (addCustomTag g tag) = registered g tag"
  unfolding addCustomTag_eq
  by (cases "checkDefaultParent (registered g tag) tag";
      cases "checkPossibleParents (registered g tag) (Name tag) (PossibleParents tag)") simp_all

lemma GetTag_registered_self: "GetTag (registered g tag) (Name tag) = Some (length (Tags g))"
  by (simp add: GetTag_def registered_def)

lemma GetTag_loop_append:
  "k \<le> length xs \<Longrightarrow> GetTag_loop (xs @ ys) k n = GetTag_loop xs k n"
  by (induction k) (simp_all add: nth_append)

lemma GetTag_registered:
  "GetTag (registered g tag) n = (if Name tag = n then Some (length (Tags g)) else GetTag g n)"
  by (simp add: GetTag_def registered_def GetTag_loop_append)



text \<open>
  Claim C10. \<open>addCustomTag\<close> is not atomic on failure: whenever it returns an error, the
  grammar it leaves holds the rejected definition as its last tag, and looking up the
  tag's name returns that rejected definition. A tag that names itself as default parent
  passes the default-parent check, because it is already in the list during the check;
  with possible parents that are the tag itself or registered tags the whole call
  returns no error.
\<close>
theorem addCustomTag_not_atomic:
  "(snd (addCustomTag g tag) \<noteq> None \<longrightarrow>
      Tags (fst (addCustomTag g tag)) = Tags g @ [tag]
      \<and> GetTag (fst (addCustomTag g tag)) (Name tag) = Some (length (Tags g))
      \<and> Tags (fst (addCustomTag g tag)) ! length (Tags g) = tag)
   \<and> (DefaultParent tag = Some (Name tag) \<longrightarrow>
        checkDefaultParent (registered g tag) tag = None)
   \<and> (DefaultParent tag = Some (Name tag)
        \<and> (\<forall>p \<in> set (PossibleParents tag). p = Name tag \<or> GetTag g p \<noteq> None) \<longrightarrow>
        snd (addCustomTag g tag) = None)"
proof (intro conjI impI)
  assume e: "snd (addCustomTag g tag) \<noteq> None"
  then have f: "fst (addCustomTag g tag) = registered g tag" by (rule addCustomTag_error_fst)
  show "Tags (fst (addCustomTag g tag)) = Tags g @ [tag]" by (simp add: f registered_def)
  show "GetTag (fst (addCustomTag g tag)) (Name tag) = Some (length (Tags g))"
    by (simp add: f GetTag_registered_self)
  show "Tags (fst (addCustomTag g tag)) ! length (Tags g) = tag" by (simp add: f registered_def)
next
  assume "DefaultParent tag = Some (Name tag)"
  then show "checkDefaultParent (registered g tag) tag = None"
    by (simp add: checkDefaultParent_def GetTag_registered_self)
next
  assume h: "DefaultParent tag = Some (Name tag)
        \<and> (\<forall>p \<in> set (PossibleParents tag). p = Name tag \<or> GetTag g p \<noteq> None)"
  then have "checkDefaultParent (registered g tag) tag = None"
    by (simp add: checkDefaultParent_def GetTag_registered_self)
  moreover have "\<forall>p \<in> set (PossibleParents tag). GetTag (registered g tag) p \<noteq> None"
    using h by (auto simp: GetTag_None_iff registered_def)
  then have "checkPossibleParents (registered g tag) (Name tag) (PossibleParents tag) = None"
    by (simp add: checkPossibleParents_None)
  ultimately show "snd (addCustomTag g tag) = None"
    by (simp add: addCustomTag_snd)
qed

lemma rewriteChildren_length [simp]: "length (rewriteChildren cur t n i xs) = length xs"
  by (induction xs arbitrary: i) simp_all

lemma rewriteChildren_nth:
  "j < length xs \<Longrightarrow>
   rewriteChildren cur t n i xs ! j =
     (if skipChild cur t (i + j) (xs ! j) then xs ! j
      else (xs ! j)\<lparr>DefaultParent := Some n, PossibleParents := n # PossibleParents (xs ! j)\<rparr>)"
proof (induction xs arbitrary: i j)
  case Nil
  then show ?case by simp
next
  case (Cons x xs)
  show ?case
  proof (cases j)
    case 0
    then show ?thesis by simp
  next
    case (Suc j')
    with Cons.prems have "j' < length xs" by simp
    from Cons.IH[OF this, of "Suc i"] Suc show ?thesis by simp
  qed
qed

lemma rewriteChildren_Name:
  "j < length xs \<Longrightarrow> Name (rewriteChildren cur t n i xs ! j) = Name (xs ! j)"
  by (simp add: rewriteChildren_nth)

definition wfGrammar :: "Grammar \<Rightarrow> bool" where
  "wfGrammar g = (case currentDefaultRoot g of None \<Rightarrow> True | Some r \<Rightarrow> r < length (Tags g))"

definition adopts :: "Grammar \<Rightarrow> TagDefinition \<Rightarrow> bool" where
  "adopts g child \<longleftrightarrow>
     (DefaultParent child = None
        \<or> (currentDefaultRoot g \<noteq> None \<and> DefaultParent child = currentDefaultRootName g))
     \<and> ParentHood child \<noteq> DefaultRootParentHood \<and> Name child \<noteq> ''#root''"

definition registerAll :: "Grammar \<Rightarrow> TagDefinition list \<Rightarrow> Grammar" where
  "registerAll g ts = foldl (\<lambda>g t. fst (addCustomTag g t)) g ts"

lemma length_settled [simp]: "length (Tags (settled g tag)) = Suc (length (Tags g))"
  by (simp add: settled_def registered_def Let_def)

lemma length_addCustomTag [simp]: "length (Tags (fst (addCustomTag g tag))) = Suc (length (Tags g))"
  unfolding addCustomTag_eq
  by (cases "checkDefaultParent (registered g tag) tag";
      cases "checkPossibleParents (registered g tag) (Name tag) (PossibleParents tag)")
     (simp_all add: registered_def)

lemma Name_settled:
  "i \<le> length (Tags g) \<Longrightarrow> Name (Tags (settled g tag) ! i) = Name ((Tags g @ [tag]) ! i)"
  by (auto simp add: settled_def registered_def Let_def nth_list_update rewriteChildren_Name nth_append)

lemma Name_addCustomTag:
  "i \<le> length (Tags g) \<Longrightarrow> Name (Tags (fst (addCustomTag g tag)) ! i) = Name ((Tags g @ [tag]) ! i)"
  unfolding addCustomTag_eq
  by (cases "checkDefaultParent (registered g tag) tag";
      cases "checkPossibleParents (registered g tag) (Name tag) (PossibleParents tag)")
     (simp_all add: registered_def Name_settled)

lemma currentDefaultRoot_settled:
  "currentDefaultRoot (settled g tag) =
     (if ParentHood tag = DefaultRootParentHood then Some (length (Tags g)) else currentDefaultRoot g)"
  by (simp add: settled_def registered_def Let_def)

lemma currentDefaultRoot_addCustomTag:
  "ParentHood tag \<noteq> DefaultRootParentHood \<Longrightarrow>
   currentDefaultRoot (fst (addCustomTag g tag)) = currentDefaultRoot g"
  unfolding addCustomTag_eq
  by (cases "checkDefaultParent (registered g tag) tag";
      cases "checkPossibleParents (registered g tag) (Name tag) (PossibleParents tag)")
     (simp_all add: registered_def currentDefaultRoot_settled)

lemma registerAll_keeps:
  "\<forall>t \<in> set ts. ParentHood t \<noteq> DefaultRootParentHood \<Longrightarrow> r < length (Tags g) \<Longrightarrow>
   currentDefaultRoot (registerAll g ts) = currentDefaultRoot g
   \<and> r < length (Tags (registerAll g ts))
   \<and> Name (Tags (registerAll g ts) ! r) = Name (Tags g ! r)"
proof (induction ts arbitrary: g)
  case Nil
  then show ?case by (simp add: registerAll_def)
next
  case (Cons t ts)
  let ?g = "fst (addCustomTag g t)"
  have r: "r < length (Tags ?g)" using Cons.prems(2) by simp
  have a: "\<forall>t \<in> set ts. ParentHood t \<noteq> DefaultRootParentHood" using Cons.prems(1) by simp
  have c: "currentDefaultRoot ?g = currentDefaultRoot g"
    using Cons.prems(1) by (simp add: currentDefaultRoot_addCustomTag)
  have n: "Name (Tags ?g ! r) = Name (Tags g ! r)"
    using Cons.prems(2) by (simp add: Name_addCustomTag nth_append)
  have "registerAll g (t # ts) = registerAll ?g ts" by (simp add: registerAll_def)
  with Cons.IH[OF a r] c n show ?case by simp
qed

lemma settled_old:
  assumes wf: "wfGrammar g" and dr: "ParentHood tag = DefaultRootParentHood"
    and i: "i < length (Tags g)"
  shows "Tags (settled g tag) ! i =
      (if adopts g (Tags g ! i)
       then (Tags g ! i)\<lparr>DefaultParent := Some (Name tag),
                          PossibleParents := Name tag # PossibleParents (Tags g ! i)\<rparr>
       else Tags g ! i)"
proof -
  let ?t = "length (Tags g)"
  let ?g1 = "registered g tag"
  let ?g2 = "(if DefaultParent tag = None \<and> Name tag \<noteq> ''#root''
                then ?g1\<lparr>Tags := (Tags ?g1)[?t := (Tags ?g1 ! ?t)\<lparr>allowedInParentHood := True\<rparr>]\<rparr>
                else ?g1)"
  have g2i: "Tags ?g2 ! i = Tags g ! i" using i by (simp add: registered_def nth_append)
  have len2: "length (Tags ?g2) = Suc ?t" by (simp add: registered_def)
  have cur: "currentDefaultRootName ?g2 = currentDefaultRootName g"
    using wf by (auto simp: currentDefaultRootName_def wfGrammar_def registered_def nth_append
        split: option.splits)
  have cdr: "currentDefaultRoot g = None \<Longrightarrow> currentDefaultRootName g = None"
    by (simp add: currentDefaultRootName_def)
  have cdr2: "currentDefaultRoot g \<noteq> None \<Longrightarrow> currentDefaultRootName g \<noteq> None"
    by (auto simp add: currentDefaultRootName_def)
  have sk: "skipChild (currentDefaultRootName g) ?t i (Tags g ! i) \<longleftrightarrow> \<not> adopts g (Tags g ! i)"
    using i cdr cdr2 by (cases "currentDefaultRoot g = None") (auto simp: skipChild_def adopts_def)
  have "Tags (settled g tag) ! i
        = rewriteChildren (currentDefaultRootName ?g2) ?t (Name tag) 0 (Tags ?g2) ! i"
    using i dr by (simp add: settled_def Let_def nth_list_update)
  also have "\<dots> = (if skipChild (currentDefaultRootName ?g2) ?t i (Tags ?g2 ! i) then Tags ?g2 ! i
      else (Tags ?g2 ! i)\<lparr>DefaultParent := Some (Name tag),
              PossibleParents := Name tag # PossibleParents (Tags ?g2 ! i)\<rparr>)"
    using i len2 by (subst rewriteChildren_nth) simp_all
  finally show ?thesis unfolding cur g2i sk by simp
qed

lemma settled_new_DefaultParent:
  assumes "ParentHood tag \<noteq> DefaultRootParentHood" "DefaultParent tag = None"
    "Name tag \<noteq> ''#root''" "currentDefaultRoot g = Some r" "r < length (Tags g)"
  shows "DefaultParent (Tags (settled g tag) ! length (Tags g)) = Some (Name (Tags g ! r))"
  using assms
  by (simp add: settled_def registered_def Let_def currentDefaultRootName_def nth_append)

lemma addCustomTag_ok_fst:
  "snd (addCustomTag g tag) = None \<Longrightarrow> fst (addCustomTag g tag) = settled g tag"
  unfolding addCustomTag_eq
  by (cases "checkDefaultParent (registered g tag) tag";
      cases "checkPossibleParents (registered g tag) (Name tag) (PossibleParents tag)") simp_all

text \<open>
  What the registration of a default-root tag does when it returns no error. Every
  previously registered tag that has no default parent or has the name of the previous
  default root as default parent, and is not default-root itself and not named
  \<open>#root\<close>, gets the new tag's name as default parent and as head of its possible
  parents; every other previously registered tag is left as it was; the new tag becomes
  the current default root. A tag registered afterwards, after any number of
  registrations of tags that are not default-root, receives the new tag's name as
  default parent, provided it has no default parent of its own, is not named \<open>#root\<close>,
  is not default-root itself, and is registered without error.
\<close>
lemma addCustomTag_default_root_rebase:
  assumes wf: "wfGrammar g" and dr: "ParentHood tag = DefaultRootParentHood"
    and ok: "snd (addCustomTag g tag) = None"
  shows "length (Tags (fst (addCustomTag g tag))) = Suc (length (Tags g))
     \<and> currentDefaultRoot (fst (addCustomTag g tag)) = Some (length (Tags g))
     \<and> Name (Tags (fst (addCustomTag g tag)) ! length (Tags g)) = Name tag
     \<and> (\<forall>i < length (Tags g).
          Tags (fst (addCustomTag g tag)) ! i =
            (if adopts g (Tags g ! i)
             then (Tags g ! i)\<lparr>DefaultParent := Some (Name tag),
                                PossibleParents := Name tag # PossibleParents (Tags g ! i)\<rparr>
             else Tags g ! i))
     \<and> (\<forall>ts tag2.
          (\<forall>t \<in> set ts. ParentHood t \<noteq> DefaultRootParentHood)
          \<and> ParentHood tag2 \<noteq> DefaultRootParentHood
          \<and> DefaultParent tag2 = None \<and> Name tag2 \<noteq> ''#root''
          \<and> snd (addCustomTag (registerAll (fst (addCustomTag g tag)) ts) tag2) = None \<longrightarrow>
          DefaultParent (last (Tags (fst (addCustomTag (registerAll (fst (addCustomTag g tag)) ts) tag2))))
            = Some (Name tag))"
proof -
  let ?g' = "fst (addCustomTag g tag)"
  let ?t = "length (Tags g)"
  have fst: "?g' = settled g tag"
    using ok by (rule addCustomTag_ok_fst)
  have c1: "length (Tags ?g') = Suc ?t" by simp
  have c2: "currentDefaultRoot ?g' = Some ?t" using dr by (simp add: fst currentDefaultRoot_settled)
  have c3: "Name (Tags ?g' ! ?t) = Name tag" by (simp add: Name_addCustomTag)
  have c4: "\<forall>i < ?t. Tags ?g' ! i =
            (if adopts g (Tags g ! i)
             then (Tags g ! i)\<lparr>DefaultParent := Some (Name tag),
                                PossibleParents := Name tag # PossibleParents (Tags g ! i)\<rparr>
             else Tags g ! i)"
    unfolding fst using settled_old[OF wf dr] by blast
  have c5: "\<forall>ts tag2.
          (\<forall>t \<in> set ts. ParentHood t \<noteq> DefaultRootParentHood)
          \<and> ParentHood tag2 \<noteq> DefaultRootParentHood
          \<and> DefaultParent tag2 = None \<and> Name tag2 \<noteq> ''#root''
          \<and> snd (addCustomTag (registerAll ?g' ts) tag2) = None \<longrightarrow>
          DefaultParent (last (Tags (fst (addCustomTag (registerAll ?g' ts) tag2)))) = Some (Name tag)"
  proof (intro allI impI)
    fix ts tag2
    assume h: "(\<forall>t \<in> set ts. ParentHood t \<noteq> DefaultRootParentHood)
          \<and> ParentHood tag2 \<noteq> DefaultRootParentHood
          \<and> DefaultParent tag2 = None \<and> Name tag2 \<noteq> ''#root''
          \<and> snd (addCustomTag (registerAll ?g' ts) tag2) = None"
    let ?gn = "registerAll ?g' ts"
    have tlt: "?t < length (Tags ?g')" by simp
    from h have a: "\<forall>t \<in> set ts. ParentHood t \<noteq> DefaultRootParentHood" by blast
    from registerAll_keeps[OF a tlt] c2 c3
    have k: "currentDefaultRoot ?gn = Some ?t" "?t < length (Tags ?gn)" "Name (Tags ?gn ! ?t) = Name tag"
      by simp_all
    have f2: "fst (addCustomTag ?gn tag2) = settled ?gn tag2"
      using h by (intro addCustomTag_ok_fst) blast
    have "last (Tags (settled ?gn tag2)) = Tags (settled ?gn tag2) ! length (Tags ?gn)"
      by (subst last_conv_nth) (auto simp: length_0_conv[symmetric] simp del: length_0_conv)
    also have "DefaultParent \<dots> = Some (Name (Tags ?gn ! ?t))"
      using h k by (intro settled_new_DefaultParent) simp_all
    finally show "DefaultParent (last (Tags (fst (addCustomTag ?gn tag2)))) = Some (Name tag)"
      unfolding f2 k(3) .
  qed
  from c1 c2 c3 c4 c5 show ?thesis by blast
qed

lemma NewGrammar_eq: "NewGrammar = \<lparr>Tags = builtinTags, Entities = [], Styles = [], currentDefaultRoot = None\<rparr>"
  by (simp add: NewGrammar_def loadBuiltinTags_def builtinTags_def addBuiltinTag_def GetTag_def builtinTag_def)

definition exUnknownDefault :: TagDefinition where
  "exUnknownDefault = builtinTag ''#note'' (Some ''#nope'') sectionNormal [''#nope''] '''' [] '''' NoParentHood False False"

definition exUnknownPossible :: TagDefinition where
  "exUnknownPossible = builtinTag ''#note'' (Some ''#p'') sectionNormal [''#p'', ''#nope'', ''#nada''] '''' [] '''' NoParentHood False False"

definition exKnownParents :: TagDefinition where
  "exKnownParents = builtinTag ''#note'' (Some ''#p'') sectionNormal [''#p'', ''#ul''] '''' [] '''' NoParentHood False False"

lemmas ex_defs = exUnknownDefault_def exUnknownPossible_def exKnownParents_def

lemma GetTag_builtin:
  "GetTag NewGrammar ''#p'' = Some 1" "GetTag NewGrammar ''#ul'' = Some 2"
  "GetTag NewGrammar ''#root'' = Some 0"
  "GetTag NewGrammar ''#nope'' = None" "GetTag NewGrammar ''#nada'' = None"
  by (simp_all add: NewGrammar_eq GetTag_def builtinTags_def builtinTag_def)





definition exSelfParent :: TagDefinition where
  "exSelfParent = builtinTag ''#self'' (Some ''#self'') sectionNormal [''#self''] '''' [] '''' NoParentHood False False"

text \<open>
  Witness for C10 on the builtin grammar: the rejected tag \<open>#note\<close> is found after the
  failed call, and the self-parented tag \<open>#self\<close> is accepted.
\<close>
theorem addCustomTag_not_atomic_witness:
  "Tags (fst (addCustomTag NewGrammar exUnknownDefault)) = Tags NewGrammar @ [exUnknownDefault]
   \<and> GetTag NewGrammar ''#note'' = None
   \<and> GetTag (fst (addCustomTag NewGrammar exUnknownDefault)) ''#note'' = Some 26
   \<and> GetTag NewGrammar ''#self'' = None
   \<and> snd (addCustomTag NewGrammar exSelfParent) = None"
proof -
  have e: "snd (addCustomTag NewGrammar exUnknownDefault) \<noteq> None"
    by (simp add: addCustomTag_snd checkDefaultParent_def GetTag_registered GetTag_builtin
        exUnknownDefault_def builtinTag_def)
  have s: "DefaultParent exSelfParent = Some (Name exSelfParent)
        \<and> (\<forall>p \<in> set (PossibleParents exSelfParent). p = Name exSelfParent \<or> GetTag NewGrammar p \<noteq> None)"
    by (simp add: exSelfParent_def builtinTag_def)
  have n: "GetTag NewGrammar ''#note'' = None" "GetTag NewGrammar ''#self'' = None"
      "length (Tags NewGrammar) = 26"
    by (simp_all add: NewGrammar_eq GetTag_def builtinTags_def builtinTag_def)
  have nm: "Name exUnknownDefault = ''#note''" by (simp add: exUnknownDefault_def builtinTag_def)
  from addCustomTag_not_atomic[of NewGrammar exUnknownDefault] e addCustomTag_not_atomic[of NewGrammar exSelfParent] s n nm
  show ?thesis by simp
qed

definition exRootA :: TagDefinition where
  "exRootA = builtinTag ''#a'' (Some ''#root'') sectionNormal [''#root''] '''' [] '''' DefaultRootParentHood False False"

definition exRootB :: TagDefinition where
  "exRootB = builtinTag ''#b'' None sectionNormal [] '''' [] '''' DefaultRootParentHood False False"

definition exPlain :: TagDefinition where
  "exPlain = builtinTag ''#c'' None sectionNormal [] '''' [] '''' NoParentHood False False"

lemma wfGrammar_NewGrammar: "wfGrammar NewGrammar"
  by (simp add: wfGrammar_def NewGrammar_eq)

lemma exRootA_ok: "snd (addCustomTag NewGrammar exRootA) = None"
  by (simp add: addCustomTag_snd checkDefaultParent_def GetTag_registered GetTag_builtin
        exRootA_def builtinTag_def)

lemma no_parents_ok:
  "DefaultParent tag = None \<Longrightarrow> PossibleParents tag = [] \<Longrightarrow> snd (addCustomTag g tag) = None"
  by (simp add: addCustomTag_snd checkDefaultParent_def)

lemma settled_new_defaultroot:
  assumes "ParentHood tag = DefaultRootParentHood" "DefaultParent tag = None" "Name tag \<noteq> ''#root''"
  shows "DefaultParent (Tags (settled g tag) ! length (Tags g)) = Some (Name tag)"
proof -
  let ?t = "length (Tags g)"
  let ?xs = "Tags g @ [tag\<lparr>allowedInParentHood := True\<rparr>]"
  have r: "rewriteChildren cur ?t (Name tag) 0 ?xs ! ?t = tag\<lparr>allowedInParentHood := True\<rparr>" for cur
    by (subst rewriteChildren_nth) (simp_all add: skipChild_def)
  show ?thesis using assms
    by (simp add: settled_def registered_def Let_def currentDefaultRootName_def r)
qed

lemma defaultsChain_own_parent:
  assumes "GetTag g n = Some t" "DefaultParent (Tags g ! t) = Some n" "n \<noteq> ''#root''"
  shows "defaultsChain fuel g t ds = None"
  using assms by (induction fuel arbitrary: ds) simp_all

lemma defaultsChain_into_own_parent:
  assumes "DefaultParent (Tags g ! p) = Some n" "GetTag g n = Some t"
    "DefaultParent (Tags g ! t) = Some n" "n \<noteq> ''#root''"
  shows "defaultsChain fuel g p ds = None"
  using assms by (cases fuel) (simp_all add: defaultsChain_own_parent)

text \<open>
  The builtin grammar after the registration of the default-root tag \<open>#a\<close> (with
  \<open>Parents: #root\<close>), and after the registration of a second default-root tag \<open>#b\<close>
  that declares no parents.
\<close>

definition gA :: Grammar where
  "gA = fst (addCustomTag NewGrammar exRootA)"

definition gAB :: Grammar where
  "gAB = fst (addCustomTag gA exRootB)"

lemma gAB_tags:
  "Tags gAB ! 1 = (Tags NewGrammar ! 1)\<lparr>DefaultParent := Some ''#b'', PossibleParents := [''#b'', ''#a'']\<rparr>"
  "Tags gAB ! 27 = exRootB\<lparr>DefaultParent := Some ''#b'', allowedInParentHood := True\<rparr>"
  "GetTag gAB ''#b'' = Some 27"
  by (simp_all add: gAB_def gA_def addCustomTag_def NewGrammar_eq builtinTags_def builtinTag_def
        exRootA_def exRootB_def checkDefaultParent_def GetTag_def Let_def skipChild_def
        currentDefaultRootName_def)

text \<open>
  Claim C8 at a failing input. \<open>#a\<close> is registered as default root; then \<open>#b\<close>, a tag
  with no default parent of its own and a name other than \<open>#root\<close>, is registered.
  By the claim \<open>#b\<close>, registered after \<open>#a\<close> without a default parent, receives \<open>#a\<close>.
  But \<open>#b\<close> is default-root itself: \<open>addCustomTag\<close> makes it the current default root
  before it hands the current default root to the new tag, so \<open>#b\<close> receives its own name
  as default parent. Both calls return no error. The builtin \<open>#p\<close>, rebased first under
  \<open>#a\<close> and then under \<open>#b\<close>, now has a default-parent chain that never reaches a tag
  without default parent or \<open>#root\<close>: the loop of \<open>openTag2\<close> that collects the default
  parents of \<open>#p\<close> does not end, whatever the fuel.
\<close>
theorem later_default_root_is_its_own_default_parent:
  "ParentHood exRootA = DefaultRootParentHood \<and> Name exRootA = ''#a''
   \<and> snd (addCustomTag NewGrammar exRootA) = None
   \<and> ParentHood exRootB = DefaultRootParentHood \<and> Name exRootB = ''#b''
   \<and> DefaultParent exRootB = None
   \<and> snd (addCustomTag gA exRootB) = None
   \<and> GetTag gAB ''#b'' = Some 27
   \<and> DefaultParent (Tags gAB ! 27) = Some ''#b''
   \<and> Name (Tags gAB ! 1) = ''#p''
   \<and> DefaultParent (Tags gAB ! 1) = Some ''#b''
   \<and> defaultsChain fuel gAB 1 [1] = None"
proof -
  have ok: "snd (addCustomTag gA exRootB) = None"
    by (rule no_parents_ok) (simp_all add: exRootB_def builtinTag_def)
  have t1: "Tags NewGrammar ! 1 = builtinTag ''#p'' None sectionParagraph [] '''' [] '''' TextParentHood False True"
    by (simp add: NewGrammar_eq builtinTags_def)
  have p: "Name (Tags gAB ! 1) = ''#p''" "DefaultParent (Tags gAB ! 1) = Some ''#b''"
    using gAB_tags(1) t1 by (simp_all add: builtinTag_def)
  have b: "DefaultParent (Tags gAB ! 27) = Some ''#b''"
    by (simp add: gAB_tags(2))
  have "defaultsChain fuel gAB 1 [1] = None"
    by (rule defaultsChain_into_own_parent[OF p(2) gAB_tags(3) b]) simp
  with ok exRootA_ok p b gAB_tags(3) show ?thesis
    by (simp add: exRootA_def exRootB_def builtinTag_def)
qed

text \<open>
  The same on the builtin grammar: \<open>#p\<close> is rebased under \<open>#a\<close>, \<open>#root\<close> is left
  alone, and the later tag \<open>#c\<close>, which is not default-root, receives \<open>#a\<close>.
\<close>
lemma addCustomTag_default_root_rebase_builtin:
  "DefaultParent (Tags NewGrammar ! 1) = None
   \<and> Tags (fst (addCustomTag NewGrammar exRootA)) ! 1 =
       (Tags NewGrammar ! 1)\<lparr>DefaultParent := Some ''#a'', PossibleParents := [''#a'']\<rparr>
   \<and> Tags (fst (addCustomTag NewGrammar exRootA)) ! 0 = Tags NewGrammar ! 0
   \<and> DefaultParent (last (Tags (fst (addCustomTag (fst (addCustomTag NewGrammar exRootA)) exPlain))))
        = Some ''#a''"
proof -
  have dr: "ParentHood exRootA = DefaultRootParentHood" by (simp add: exRootA_def builtinTag_def)
  note T = addCustomTag_default_root_rebase[OF wfGrammar_NewGrammar dr exRootA_ok]
  have l: "length (Tags NewGrammar) = 26" by (simp add: NewGrammar_eq builtinTags_def)
  have t1: "Tags NewGrammar ! 1 = builtinTag ''#p'' None sectionParagraph [] '''' [] '''' TextParentHood False True"
    and t0: "Tags NewGrammar ! 0 = builtinTag ''#root'' None sectionNormal [] '''' [] '''' RootParentHood False False"
    by (simp_all add: NewGrammar_eq builtinTags_def)
  have a1: "adopts NewGrammar (Tags NewGrammar ! 1)" and a0: "\<not> adopts NewGrammar (Tags NewGrammar ! 0)"
    unfolding t1 t0 by (simp_all add: adopts_def builtinTag_def)
  from T have A: "\<forall>i < length (Tags NewGrammar).
          Tags (fst (addCustomTag NewGrammar exRootA)) ! i =
            (if adopts NewGrammar (Tags NewGrammar ! i)
             then (Tags NewGrammar ! i)\<lparr>DefaultParent := Some (Name exRootA),
                                PossibleParents := Name exRootA # PossibleParents (Tags NewGrammar ! i)\<rparr>
             else Tags NewGrammar ! i)" by blast
  have nA: "Name exRootA = ''#a''" by (simp add: exRootA_def builtinTag_def)
  have "(1::nat) < length (Tags NewGrammar)" using l by simp
  from A[rule_format, OF this] a1
  have "Tags (fst (addCustomTag NewGrammar exRootA)) ! 1 =
      (Tags NewGrammar ! 1)\<lparr>DefaultParent := Some (Name exRootA),
                                PossibleParents := Name exRootA # PossibleParents (Tags NewGrammar ! 1)\<rparr>"
    by (simp only: if_True)
  also have "PossibleParents (Tags NewGrammar ! 1) = []" unfolding t1 by (simp add: builtinTag_def)
  finally have c1: "Tags (fst (addCustomTag NewGrammar exRootA)) ! 1 =
       (Tags NewGrammar ! 1)\<lparr>DefaultParent := Some ''#a'', PossibleParents := [''#a'']\<rparr>"
    unfolding nA .
  have "(0::nat) < length (Tags NewGrammar)" using l by simp
  from A[rule_format, OF this] a0
  have c0: "Tags (fst (addCustomTag NewGrammar exRootA)) ! 0 = Tags NewGrammar ! 0"
    by (simp only: if_False)
  have ok2: "snd (addCustomTag (registerAll (fst (addCustomTag NewGrammar exRootA)) []) exPlain) = None"
    by (rule no_parents_ok) (simp_all add: exPlain_def builtinTag_def)
  from T have "\<forall>ts tag2.
          (\<forall>t \<in> set ts. ParentHood t \<noteq> DefaultRootParentHood)
          \<and> ParentHood tag2 \<noteq> DefaultRootParentHood
          \<and> DefaultParent tag2 = None \<and> Name tag2 \<noteq> ''#root''
          \<and> snd (addCustomTag (registerAll (fst (addCustomTag NewGrammar exRootA)) ts) tag2) = None \<longrightarrow>
          DefaultParent (last (Tags (fst (addCustomTag (registerAll (fst (addCustomTag NewGrammar exRootA)) ts) tag2))))
            = Some (Name exRootA)" by blast
  from this[rule_format, of "[]" exPlain] ok2
  have c2: "DefaultParent (last (Tags (fst (addCustomTag (fst (addCustomTag NewGrammar exRootA)) exPlain))))
        = Some ''#a''"
    by (simp add: registerAll_def exPlain_def exRootA_def builtinTag_def)
  have d1: "DefaultParent (Tags NewGrammar ! 1) = None" unfolding t1 by (simp add: builtinTag_def)
  from d1 c1 c0 c2 show ?thesis by blast
qed

definition exEntityA :: EntityDefinition where
  "exEntityA = \<lparr>EntityName = ''note'', EntityCounter = ''first'', EntityClassShortcuts = Map.empty\<rparr>"

definition exEntityB :: EntityDefinition where
  "exEntityB = \<lparr>EntityName = ''note'', EntityCounter = ''second'', EntityClassShortcuts = Map.empty\<rparr>"

definition exStyleA :: StyleDefinition where
  "exStyleA = \<lparr>StyleName = ''hl'', StyleClassShortcuts = [''x'' \<mapsto> ''first'']\<rparr>"

definition exStyleB :: StyleDefinition where
  "exStyleB = \<lparr>StyleName = ''hl'', StyleClassShortcuts = [''x'' \<mapsto> ''second'']\<rparr>"

text \<open>
  Claim C6 at a failing input. Two entities named \<open>note\<close> and two styles named
  \<open>hl\<close> are registered one after the other: the lookups return position 0, the
  definition registered first, so the later registration does not shadow the earlier.
\<close>
theorem GetEntity_GetStyle_first_registered_wins:
  "GetEntity (addCustomEntity (addCustomEntity NewGrammar exEntityA) exEntityB) ''note'' = Some 0
   \<and> Entities (addCustomEntity (addCustomEntity NewGrammar exEntityA) exEntityB) = [exEntityA, exEntityB]
   \<and> EntityCounter exEntityA = ''first'' \<and> EntityCounter exEntityB = ''second''
   \<and> GetStyle (addCustomStyle (addCustomStyle NewGrammar exStyleA) exStyleB) ''hl'' = Some 0
   \<and> Styles (addCustomStyle (addCustomStyle NewGrammar exStyleA) exStyleB) = [exStyleA, exStyleB]
   \<and> StyleClassShortcuts exStyleA ''x'' = Some ''first''
   \<and> StyleClassShortcuts exStyleB ''x'' = Some ''second''"
  by (simp add: GetEntity_def GetStyle_def addCustomEntity_def addCustomStyle_def NewGrammar_eq
      exEntityA_def exEntityB_def exStyleA_def exStyleB_def)

section \<open>Running the model on concrete documents\<close>

text \<open>
  The definitions of the scanner and of the parser as rewrite rules, for the evaluation
  of a concrete run by the simplifier. The builtin grammar stays folded; what a run
  needs of it are the lookups and the definitions below.
\<close>

lemmas scanner_defs =
  rune_def NewScanner_def error_def RuneError_def cont_def DecodeRune_def newLine_def
  Scanner_next_def chNewline_def chReturn_def chTab_def chBlank_def chBackslash_def
  chBacktick_def isBlank_def isSpace_def isTagStart_def slice_def skipWhitespace_def
  isStartOfLine_def valueCond_def textCond_def tagPosition_def column_def scanSection_def
  scanEnum_def scanTable_def scanEntity_def scanCode_def scanMath_def scanValue_def
  TrimRight_def textTail_def scanText_def scanRest_def scanOnce_def skipIndented_def
  scan_def Scan_def skipWhile.simps skipUntilEmptyLine.simps codeLoop.simps mathLoop.simps
  valueLoop.simps textLoop.simps scanAgain.simps

lemmas parser_defs =
  logPrintf_def tagDef_def newNode_def NewParser_def Parser_next_def newDocumentNode_def
  attribute_def parseAttributes_def copyCounter_def running_def setRunning_def
  incCounter_def styleLabel_def closeStyles_def closeStyle_def tagLevel_def closeTags_def
  closeTopTag_def closeTableCell_def closeTableRow_def pushTail_def blockScope_def
  openTag2_def openTag_def openTableCell_def isPossibleParent_def IsSpace_def
  TrimSpace_def parent_def AppendText_def inTableCell_def textTarget_def openWithText_def
  rewriteTerm_def parseText_def parseInline_def openEnum_def enumContainer_def
  enumItem_def parseEnum_def newStyleNode_def pushStyle_def toggleStyle_def
  styleAttribute_def namedStyle_def parseStyle_def parseEntity_def parseTableCell_def
  parseTableRow_def sectionLayout_def parseTag_def parseSection_def parseToken_def
  parse_def ParseMarkdown_def appendChild_def RemoveChild_def pushNodeOnStack.simps
  allSpace.simps trimLeft.simps

lemma builtin_lookup:
  "GetTag NewGrammar ''#li'' = Some 3" "GetTag NewGrammar ''#ol'' = Some 4"
  "GetTag NewGrammar ''#dl'' = Some 23" "GetTag NewGrammar ''#dt'' = Some 24"
  "GetTag NewGrammar ''#dd'' = Some 25"
  "GetEntity NewGrammar n = None" "GetStyle NewGrammar n = None"
  by (simp_all add: NewGrammar_eq GetTag_def GetEntity_def GetStyle_def builtinTags_def
        builtinTag_def)

lemma builtin_tags:
  "Tags NewGrammar ! 0 = builtinTag ''#root'' None sectionNormal [] '''' [] '''' RootParentHood False False"
  "Tags NewGrammar ! Suc 0 = builtinTag ''#p'' None sectionParagraph [] '''' [] '''' TextParentHood False True"
  "Tags NewGrammar ! 2 = builtinTag ''#ul'' None sectionNormal [] '''' [] '''' IndentParentHood False True"
  "Tags NewGrammar ! 3 = builtinTag ''#li'' (Some ''#ul'') sectionNormal [''#ul'', ''#ol''] '''' [] '''' TextParentHood False False"
  "Tags NewGrammar ! 4 = builtinTag ''#ol'' None sectionNormal [] '''' [] '''' IndentParentHood False True"
  "Tags NewGrammar ! 23 = builtinTag ''#dl'' None sectionNormal [] '''' [] '''' IndentParentHood False True"
  "Tags NewGrammar ! 24 = builtinTag ''#dt'' (Some ''#dl'') sectionNormal [''#dl''] '''' [] '''' TextParentHood False False"
  "Tags NewGrammar ! 25 = builtinTag ''#dd'' (Some ''#dl'') sectionNormal [''#dl''] '''' [] '''' IndentParentHood False False"
  by (simp_all add: NewGrammar_eq builtinTags_def)

text \<open>One round of a loop on fuel, for a fuel written as a numeral.\<close>

lemma fuel_numeral:
  "attributesLoop (numeral k) tag attributes parser =
     (if token parser = TokenValue
      then attributesLoop (pred_numeral k) tag (attribute parser tag (tokenStr parser) attributes)
             (Parser_next parser)
      else Some (attributes, parser))"
  "defaultsChain (numeral k) g p defaults =
     (case DefaultParent (Tags g ! p) of
        None \<Rightarrow> Some defaults
      | Some dp \<Rightarrow>
          if dp = ''#root'' then Some defaults
          else (case GetTag g dp of
                  Some p' \<Rightarrow> defaultsChain (pred_numeral k) g p' (defaults @ [p'])
                | None \<Rightarrow>
                    (case GetTag g ''#p'' of
                       None \<Rightarrow> None
                     | Some p' \<Rightarrow> defaultsChain (pred_numeral k) g p' (defaults @ [p']))))"
  "isPossibleParent_loop (numeral k) g parentDef parentIndent child childIndent depth =
     (case child of
        None \<Rightarrow> Some None
      | Some c \<Rightarrow>
          if allowedInParentHood (Tags g ! c) \<and> ParentHood parentDef = IndentParentHood
             \<and> parentIndent < childIndent then Some (Some depth)
          else if allowedInParentHood (Tags g ! c)
                  \<and> (ParentHood parentDef = DefaultRootParentHood
                       \<or> ParentHood parentDef = RootParentHood)
                  \<and> parentIndent \<le> childIndent then Some (Some depth)
          else if Name parentDef \<in> set (PossibleParents (Tags g ! c)) then Some (Some depth)
          else (case DefaultParent (Tags g ! c) of
                  None \<Rightarrow> Some None
                | Some dp \<Rightarrow>
                    if dp = ''#root'' then Some None
                    else isPossibleParent_loop (pred_numeral k) g parentDef parentIndent (GetTag g dp)
                           childIndent (depth + 1)))"
  "styleAttributesLoop (numeral k) r parser =
     (if token parser = TokenValue
      then styleAttributesLoop (pred_numeral k) r
             (Parser_next
                (parser\<lparr>styleNodes := (styleNodes parser)
                           (r := (styleNodes parser r)
                              \<lparr>StyleNodeAttributes :=
                                 styleAttribute (tokenStr parser)
                                   (StyleNodeAttributes (styleNodes parser r))\<rparr>)\<rparr>))
      else Some parser)"
  "parseLoop env fuel (numeral k) parser =
     (if token parser = TokenEOF then Some (parser, None)
      else (case parseToken env fuel parser of
              None \<Rightarrow> None
            | Some (p1, Some err) \<Rightarrow> Some (p1, Some err)
            | Some (p1, None) \<Rightarrow> parseLoop env fuel (pred_numeral k) p1))"
  by (simp_all only: numeral_eq_Suc attributesLoop.simps defaultsChain.simps
        isPossibleParent_loop.simps styleAttributesLoop.simps parseLoop.simps)

text \<open>
  An environment for documents without definitions: it is never called when no section
  \<open>#define:...\<close> is parsed.
\<close>

definition noEnv :: Env where
  "noEnv = \<lparr>yamlParse = (\<lambda>_. Inr YamlNil), urlParse = (\<lambda>_. None), resolver = (\<lambda>_ _. None),
            ParseHTMLResources = (\<lambda>_. None)\<rparr>"

lemmas run_defs =
  scanner_defs parser_defs builtin_lookup GetTag_builtin builtin_tags builtinTag_def Let_def
  fuel_numeral

section \<open>Sibling links after \<open>RemoveChild\<close>\<close>

definition emptyNode :: DocumentNode where
  "emptyNode = newNode '''' None None 0"

text \<open>A parent, node 0, with the children 1, 2 and 3, appended in this order.\<close>

definition exTree :: NodeStore where
  "exTree = appendChild 0 3 (appendChild 0 2 (appendChild 0 1 (\<lambda>_. emptyNode)))"

text \<open>
  \<open>appendChild\<close> keeps the sibling links in line with the order of the children.
\<close>

lemma appendChild_links:
  "Children (exTree 0) = [1, 2, 3]
   \<and> Parent (exTree 1) = Some 0 \<and> Parent (exTree 2) = Some 0 \<and> Parent (exTree 3) = Some 0
   \<and> PrevSibling (exTree 1) = None \<and> NextSibling (exTree 1) = Some 2
   \<and> PrevSibling (exTree 2) = Some 1 \<and> NextSibling (exTree 2) = Some 3
   \<and> PrevSibling (exTree 3) = Some 2 \<and> NextSibling (exTree 3) = None"
  by (simp add: exTree_def appendChild_def emptyNode_def newNode_def Let_def)

text \<open>
  Claim C9 at a failing input. \<open>RemoveChild\<close> writes \<open>Children\<close> of the parent and
  \<open>Parent\<close> of the child and nothing else: no sibling link of any node changes. Removing
  child 2 from the tree above leaves 1 and 3 as the children of node 0, but node 1 still
  has node 2 as its next sibling, node 3 still has node 2 as its previous sibling, and
  the removed node 2 still points at 1 and 3. The parser reaches such a state: for the
  document \<open>#p a\<close>, empty line, \<open>Term:\<close>, \<open>more\<close> the paragraph of the term (node 2) is removed
  from the root when the definition list is opened, and in the tree that \<open>parse\<close> returns
  it has no parent and is no child of the root, but keeps node 1 as its previous
  sibling.
\<close>

theorem RemoveChild_leaves_sibling_links:
  "NextSibling (RemoveChild node child h n) = NextSibling (h n)
   \<and> PrevSibling (RemoveChild node child h n) = PrevSibling (h n)
   \<and> Children (RemoveChild 0 2 exTree 0) = [1, 3]
   \<and> Parent (RemoveChild 0 2 exTree 2) = None
   \<and> NextSibling (RemoveChild 0 2 exTree 1) = Some 2
   \<and> PrevSibling (RemoveChild 0 2 exTree 3) = Some 2
   \<and> PrevSibling (RemoveChild 0 2 exTree 2) = Some 1
   \<and> NextSibling (RemoveChild 0 2 exTree 2) = Some 3
   \<and> (case parse noEnv 8 (NewParser NewGrammar ''#p a\<newline>\<newline>Term:\<newline>more'') of
         Some (p, Inr doc) \<Rightarrow>
           doc = 0 \<and> Children (nodes p 0) = [1, 4, 6] \<and> Tag (nodes p 2) = ''#p''
           \<and> Parent (nodes p 2) = None \<and> PrevSibling (nodes p 2) = Some 1
           \<and> NextSibling (nodes p 1) = Some 4 \<and> PrevSibling (nodes p 4) = Some 1
       | _ \<Rightarrow> False)"
proof -
  have "NextSibling (RemoveChild node child h n) = NextSibling (h n)
        \<and> PrevSibling (RemoveChild node child h n) = PrevSibling (h n)"
    by (simp add: RemoveChild_def Let_def split: option.splits)
  moreover have "Children (RemoveChild 0 2 exTree 0) = [1, 3]
     \<and> Parent (RemoveChild 0 2 exTree 2) = None
     \<and> NextSibling (RemoveChild 0 2 exTree 1) = Some 2
     \<and> PrevSibling (RemoveChild 0 2 exTree 3) = Some 2
     \<and> PrevSibling (RemoveChild 0 2 exTree 2) = Some 1
     \<and> NextSibling (RemoveChild 0 2 exTree 2) = Some 3"
    by (simp add: exTree_def appendChild_def RemoveChild_def emptyNode_def newNode_def Let_def)
  moreover have "(case parse noEnv 8 (NewParser NewGrammar ''#p a\<newline>\<newline>Term:\<newline>more'') of
         Some (p, Inr doc) \<Rightarrow>
           doc = 0 \<and> Children (nodes p 0) = [1, 4, 6] \<and> Tag (nodes p 2) = ''#p''
           \<and> Parent (nodes p 2) = None \<and> PrevSibling (nodes p 2) = Some 1
           \<and> NextSibling (nodes p 1) = Some 4 \<and> PrevSibling (nodes p 4) = Some 1
       | _ \<Rightarrow> False)"
    by (simp add: run_defs split del: if_split)
  ultimately show ?thesis by blast
qed

section \<open>The scanner never drops an error\<close>

text \<open>
  \<open>keeps s s'\<close>: the errors recorded in \<open>s\<close> are the first errors of \<open>s'\<close>, in the same
  order. The only function that writes \<open>Errors\<close> is \<open>error\<close>, which appends.
\<close>

definition keeps :: "Scanner \<Rightarrow> Scanner \<Rightarrow> bool" where
  "keeps s s' \<longleftrightarrow> take (length (Errors s)) (Errors s') = Errors s"

named_theorems keeps_intros

lemma keeps_iff: "keeps s s' \<longleftrightarrow> (\<exists>es. Errors s' = Errors s @ es)"
proof
  assume "keeps s s'"
  then have "Errors s' = Errors s @ drop (length (Errors s)) (Errors s')"
    unfolding keeps_def by (metis append_take_drop_id)
  then show "\<exists>es. Errors s' = Errors s @ es" ..
next
  assume "\<exists>es. Errors s' = Errors s @ es"
  then show "keeps s s'" unfolding keeps_def by auto
qed

lemma keeps_refl [simp, keeps_intros]: "keeps s s"
  by (simp add: keeps_def)

lemma keeps_trans: "keeps a b \<Longrightarrow> keeps b c \<Longrightarrow> keeps a c"
  unfolding keeps_iff by auto

lemma keeps_update [simp]:
  "keeps s (s'\<lparr>mode := m\<rparr>) = keeps s s'"
  "keeps s (s'\<lparr>nextMode := m\<rparr>) = keeps s s'"
  "keeps s (s'\<lparr>textMode := t\<rparr>) = keeps s s'"
  "keeps s (s'\<lparr>indent := i\<rparr>) = keeps s s'"
  by (simp_all add: keeps_def)

lemma keeps_next1: "keeps s (Scanner_next s)"
  by (auto simp: keeps_iff Scanner_next_def newLine_def error_def Let_def split: prod.splits)

lemma keeps_next [keeps_intros]: "keeps s s' \<Longrightarrow> keeps s (Scanner_next s')"
  using keeps_next1 keeps_trans by blast

lemma keeps_skipWhile [keeps_intros]: "keeps s s' \<Longrightarrow> keeps s (skipWhile c s')"
proof (induction c s' rule: skipWhile.induct)
  case (1 cond scanner)
  show ?case
    by (subst skipWhile.simps) (use 1 in \<open>auto intro: keeps_next\<close>)
qed

lemma keeps_skipWhitespace [keeps_intros]: "keeps s s' \<Longrightarrow> keeps s (skipWhitespace b s')"
  by (simp add: skipWhitespace_def keeps_skipWhile)

lemma keeps_skipUntilEmptyLine [keeps_intros]: "keeps s s' \<Longrightarrow> keeps s (skipUntilEmptyLine s')"
proof (induction s' rule: skipUntilEmptyLine.induct)
  case (1 scanner)
  show ?case
    by (subst skipUntilEmptyLine.simps)
       (use 1 in \<open>auto simp: Let_def intro: keeps_next keeps_skipWhitespace\<close>)
qed

lemma keeps_codeLoop [keeps_intros]: "keeps s s' \<Longrightarrow> keeps s (fst (codeLoop s' a b))"
proof (induction s' a b rule: codeLoop.induct)
  case (1 scanner start str)
  show ?case
    by (subst codeLoop.simps) (use 1 in \<open>auto simp: Let_def intro: keeps_next\<close>)
qed

lemma keeps_mathLoop [keeps_intros]: "keeps s s' \<Longrightarrow> keeps s (fst (mathLoop s' a b))"
proof (induction s' a b rule: mathLoop.induct)
  case (1 scanner start str)
  show ?case
    by (subst mathLoop.simps) (use 1 in \<open>auto simp: Let_def intro: keeps_next\<close>)
qed

lemma keeps_valueLoop [keeps_intros]: "keeps s s' \<Longrightarrow> keeps s (fst (valueLoop s' a b))"
proof (induction s' a b rule: valueLoop.induct)
  case (1 scanner start result)
  show ?case
    by (subst valueLoop.simps) (use 1 in \<open>auto simp: Let_def intro: keeps_next\<close>)
qed

lemma keeps_textLoop [keeps_intros]: "keeps s s' \<Longrightarrow> keeps s (fst (textLoop s' a b n c))"
proof (induction s' a b n c rule: textLoop.induct)
  case (1 scanner start result newline colon)
  show ?case
    by (subst textLoop.simps) (simp add: 1 keeps_next Let_def)
qed

lemma keeps_scanSection [keeps_intros]: "keeps s s' \<Longrightarrow> keeps s (fst (scanSection s'))"
  by (simp add: scanSection_def Let_def keeps_intros)

lemma keeps_scanEnum [keeps_intros]: "keeps s s' \<Longrightarrow> keeps s (fst (scanEnum s'))"
  by (simp add: scanEnum_def Let_def keeps_intros)

lemma keeps_scanTable [keeps_intros]: "keeps s s' \<Longrightarrow> keeps s (fst (scanTable s'))"
  by (simp add: scanTable_def Let_def keeps_intros)

lemma keeps_scanEntity [keeps_intros]: "keeps s s' \<Longrightarrow> keeps s (fst (scanEntity s'))"
  by (simp add: scanEntity_def Let_def keeps_intros)

lemma keeps_scanCode [keeps_intros]: "keeps s s' \<Longrightarrow> keeps s (fst (scanCode s'))"
  by (simp add: scanCode_def Let_def case_prod_beta keeps_intros)

lemma keeps_scanMath [keeps_intros]: "keeps s s' \<Longrightarrow> keeps s (fst (scanMath s'))"
  by (simp add: scanMath_def Let_def case_prod_beta keeps_intros)

text \<open>The scanner a branch of \<open>scan\<close> ends with, whether it returns a token or goes on.\<close>

definition after :: "(Scanner \<times> Token \<times> string) + Scanner \<Rightarrow> Scanner" where
  "after r = (case r of Inl x \<Rightarrow> fst x | Inr s \<Rightarrow> s)"

lemma after_simps [simp]: "after (Inl x) = fst x" "after (Inr s) = s"
  by (simp_all add: after_def)

lemma keeps_scanValue [keeps_intros]: "keeps s s' \<Longrightarrow> keeps s (after (scanValue s'))"
  by (simp add: scanValue_def Let_def case_prod_beta keeps_intros)

lemma keeps_textTail [keeps_intros]: "keeps s s' \<Longrightarrow> keeps s (fst (textTail s' a n))"
  by (simp add: textTail_def Let_def case_prod_beta keeps_intros)

lemma keeps_scanText [keeps_intros]: "keeps s s' \<Longrightarrow> keeps s (after (scanText s'))"
  by (simp add: scanText_def Let_def keeps_intros)

lemma keeps_scanRest [keeps_intros]: "keeps s s' \<Longrightarrow> keeps s (after (scanRest s'))"
  by (simp add: scanRest_def keeps_intros)

lemma keeps_scanOnce [keeps_intros]: "keeps s s' \<Longrightarrow> keeps s (after (scanOnce s'))"
  by (simp add: scanOnce_def Let_def keeps_intros)

lemma keeps_scanAgain [keeps_intros]: "keeps s s' \<Longrightarrow> keeps s (fst (scanAgain s'))"
proof (induction s' rule: scanAgain.induct)
  case (1 scanner)
  from 1(2) have k: "keeps s (after (scanOnce scanner))" by (rule keeps_scanOnce)
  show ?case
  proof (cases "scanOnce scanner")
    case (Inl r)
    with k show ?thesis by (subst scanAgain.simps) simp
  next
    case (Inr s2)
    with k 1(1)[OF Inr] show ?thesis by (subst scanAgain.simps) simp
  qed
qed

lemma keeps_skipIndented [keeps_intros]: "keeps s s' \<Longrightarrow> keeps s (skipIndented s')"
  by (simp add: skipIndented_def keeps_skipWhile)

lemma keeps_scan [keeps_intros]: "keeps s s' \<Longrightarrow> keeps s (fst (scan s'))"
  by (simp add: scan_def Let_def keeps_intros)

lemma keeps_Scan [keeps_intros]: "keeps s s' \<Longrightarrow> keeps s (fst (Scan s'))"
  by (simp add: Scan_def Let_def case_prod_beta keeps_intros)

section \<open>What every step of the parser keeps\<close>

text \<open>
  \<open>stacksOk\<close>: the node stack is one longer than the tag stack and starts with the root
  node. \<open>leads p p'\<close>: \<open>p'\<close> has the root node of \<open>p\<close>, its scanner keeps the errors of the
  scanner of \<open>p\<close>, and \<open>p'\<close> has well-formed stacks if \<open>p\<close> has.
\<close>

definition stacksOk :: "Parser \<Rightarrow> bool" where
  "stacksOk p \<longleftrightarrow> length (nodeStack p) = Suc (length (tagStack p)) \<and> nodeStack p ! 0 = rootNode p"

definition leads :: "Parser \<Rightarrow> Parser \<Rightarrow> bool" where
  "leads p p' \<longleftrightarrow>
     rootNode p' = rootNode p \<and> keeps (scn p) (scn p') \<and> (stacksOk p \<longrightarrow> stacksOk p')"

definition view :: "Parser \<Rightarrow> TagRef list \<times> NodeRef list \<times> NodeRef \<times> Scanner" where
  "view p = (tagStack p, nodeStack p, rootNode p, scn p)"

lemma leads_view: "view a = view b \<Longrightarrow> leads p a = leads p b"
  by (simp add: leads_def view_def stacksOk_def)

lemma leads_refl [simp]: "leads p p"
  by (simp add: leads_def)

lemma leads_trans: "leads a b \<Longrightarrow> leads b c \<Longrightarrow> leads a c"
  by (auto simp: leads_def intro: keeps_trans)

lemma view_logPrintf [simp]: "view (logPrintf e p) = view p"
  by (simp add: view_def logPrintf_def)

lemma leads_logPrintf [simp]: "leads q (logPrintf e p) = leads q p"
  by (rule leads_view) simp

lemma leads_Parser_next1: "leads p (Parser_next p)"
  by (simp add: leads_def Parser_next_def stacksOk_def case_prod_beta keeps_Scan)

lemma leads_Parser_next [simp]: "leads q p \<Longrightarrow> leads q (Parser_next p)"
  using leads_Parser_next1 leads_trans by blast

lemma view_newDocumentNode [simp]: "view (snd (newDocumentNode tag ind p)) = view p"
  by (simp add: view_def newDocumentNode_def Let_def logPrintf_def split: option.splits)

lemma leads_newDocumentNode [simp]: "leads q (snd (newDocumentNode tag ind p)) = leads q p"
  by (rule leads_view) simp

lemma leads_attributesLoop:
  "attributesLoop fuel tag a p = Some (a', p') \<Longrightarrow> leads q p \<Longrightarrow> leads q p'"
  by (induction fuel arbitrary: a p) (auto split: if_splits)

lemma leads_parseAttributes:
  "parseAttributes fuel tag p = Some (a', p') \<Longrightarrow> leads q p \<Longrightarrow> leads q p'"
  unfolding parseAttributes_def by (erule leads_attributesLoop) simp

lemma view_counters [simp]:
  "view (copyCounter c p) = view p"
  "view (setRunning m p) = view p"
  "view (incCounter n p) = view p"
  by (simp_all add: view_def copyCounter_def setRunning_def incCounter_def Let_def
        split: option.splits)

lemma view_resetCounter [simp]: "view (resetCounter cs p) = view p"
  by (induction cs arbitrary: p) simp_all

lemma leads_counters [simp]:
  "leads q (copyCounter c p) = leads q p"
  "leads q (incCounter n p) = leads q p"
  "leads q (resetCounter cs p) = leads q p"
  by (rule leads_view, simp)+

lemma view_closeStyles: 
  "view (closeStyles p) = view p"
proof -
  have "view (foldl (\<lambda>p r. logPrintf (f r) p) p xs) = view p" for f xs
    by (induction xs arbitrary: p) simp_all
  then show ?thesis by (simp add: closeStyles_def view_def)
qed

lemma leads_closeStyles [simp]: "leads q (closeStyles p) = leads q p"
  by (rule leads_view) (rule view_closeStyles)

lemma view_closeStyle [simp]: "view (closeStyle n p) = view p"
  by (simp add: closeStyle_def view_def Let_def logPrintf_def)

lemma leads_closeStyle [simp]: "leads q (closeStyle n p) = leads q p"
  by (rule leads_view) simp

lemma closeTags_fields:
  assumes "closeTags level p = Some p'"
  shows "rootNode p' = rootNode p" "scn p' = scn p"
    "tagStack p' = take (length (tagStack p) - (length (tagStack p) - level)) (tagStack p)"
    "nodeStack p' = take (length (nodeStack p) - (length (tagStack p) - level)) (nodeStack p)"
    "length (tagStack p) - level \<le> length (nodeStack p)"
proof -
  have v: "view (closeStyles p) = view p" by (rule view_closeStyles)
  from assms obtain ts ns where
    ps: "popStacks (length (tagStack p) - level) (tagStack p) (nodeStack p) = Some (ts, ns)"
    and p': "p' = (closeStyles p)\<lparr>tagStack := ts, nodeStack := ns,
                      secmode := (if length ts = 0 then sectionNormal
                                  else SectionMode (tagDef (closeStyles p) (last ts)))\<rparr>"
    using v by (auto simp: closeTags_def Let_def view_def split: option.splits)
  from popStacks_Some[OF ps] p' v
  show "rootNode p' = rootNode p" "scn p' = scn p"
    "tagStack p' = take (length (tagStack p) - (length (tagStack p) - level)) (tagStack p)"
    "nodeStack p' = take (length (nodeStack p) - (length (tagStack p) - level)) (nodeStack p)"
    "length (tagStack p) - level \<le> length (nodeStack p)"
    by (simp_all add: view_def)
qed

lemma leads_closeTags1: "closeTags level p = Some p' \<Longrightarrow> leads p p'"
proof -
  assume a: "closeTags level p = Some p'"
  note f = closeTags_fields[OF a]
  have "stacksOk p'" if "stacksOk p"
  proof -
    from that have l: "length (nodeStack p) = Suc (length (tagStack p))"
      and r: "nodeStack p ! 0 = rootNode p" by (simp_all add: stacksOk_def)
    have "length (nodeStack p') = Suc (length (tagStack p'))"
      using l by (simp add: f(3,4)) 
    moreover have "nodeStack p' ! 0 = rootNode p'"
      using l r by (simp add: f(1,4))
    ultimately show ?thesis by (simp add: stacksOk_def)
  qed
  then show ?thesis by (simp add: leads_def f(1,2))
qed

lemma leads_closeTags: "closeTags level p = Some p' \<Longrightarrow> leads q p \<Longrightarrow> leads q p'"
  using leads_closeTags1 leads_trans by blast

lemma leads_closeTopTag: "closeTopTag p = Some p' \<Longrightarrow> leads q p \<Longrightarrow> leads q p'"
  by (auto simp: closeTopTag_def split: if_splits dest: leads_closeTags)

lemma view_nodes_update [simp]: "view (p\<lparr>nodes := h\<rparr>) = view p"
  by (simp add: view_def)

lemma leads_nodes_update [simp]: "leads q (p\<lparr>nodes := h\<rparr>) = leads q p"
  by (rule leads_view) simp

lemma leads_closeTableCell: "closeTableCell c p = Some p' \<Longrightarrow> leads q p \<Longrightarrow> leads q p'"
  by (auto simp: closeTableCell_def Let_def split: option.splits if_splits
           dest: leads_closeTags)

lemma view_tableInbody [simp]: "view (p\<lparr>tableInbody := b\<rparr>) = view p"
  by (simp add: view_def)

lemma leads_tableInbody [simp]: "leads q (p\<lparr>tableInbody := b\<rparr>) = leads q p"
  by (rule leads_view) simp

lemma leads_closeTableRow: "closeTableRow c p = Some p' \<Longrightarrow> leads q p \<Longrightarrow> leads q p'"
  by (auto simp: closeTableRow_def split: option.splits
           dest: leads_closeTableCell leads_closeTags)

lemma leads_pushTail1: "nodeStack p \<noteq> [] \<Longrightarrow> leads p (pushTail par node t p)"
proof -
  assume ne: "nodeStack p \<noteq> []"
  define p4 where "p4 = copyCounter node (incCounter (Counter (tagDef (resetCounter (ResetCounter (tagDef (p\<lparr>nodes := appendChild par node (nodes p)\<rparr>) t)) (p\<lparr>nodes := appendChild par node (nodes p)\<rparr>)) t))
      (resetCounter (ResetCounter (tagDef (p\<lparr>nodes := appendChild par node (nodes p)\<rparr>) t)) (p\<lparr>nodes := appendChild par node (nodes p)\<rparr>)))"
  have v: "view p4 = view p" by (simp add: p4_def)
  have e: "pushTail par node t p = p4\<lparr>tagStack := tagStack p4 @ [t], nodeStack := nodeStack p4 @ [node]\<rparr>"
    by (simp add: pushTail_def Let_def p4_def)
  from v ne show ?thesis
    by (auto simp: e leads_def stacksOk_def view_def nth_append)
qed

lemma leads_pushTail: "nodeStack p \<noteq> [] \<Longrightarrow> leads q p \<Longrightarrow> leads q (pushTail par node t p)"
  using leads_pushTail1 leads_trans by blast

lemma nodeStack_pushTail: "nodeStack (pushTail par node t p) \<noteq> []"
proof -
  have "nodeStack (copyCounter c q) = nodeStack q" for c q
    using view_counters(1)[of c q] by (simp add: view_def)
  then show ?thesis by (simp add: pushTail_def Let_def)
qed

lemma pushNodeOnStack_Some:
  "pushNodeOnStack node p = Some p' \<Longrightarrow> leads p p' \<and> nodeStack p' \<noteq> []"
proof (induction node p arbitrary: p' rule: pushNodeOnStack.induct)
  case (1 node parser)
  from "1.prems" have ne: "nodeStack parser \<noteq> []"
    by (subst (asm) pushNodeOnStack.simps) (auto split: if_splits)
  let ?par = "last (nodeStack parser)"
  from "1.prems" ne obtain t where t: "TagDefinition (nodes parser node) = Some t"
    by (subst (asm) pushNodeOnStack.simps) (auto simp: Let_def split: option.splits)
  show ?case
  proof (cases "FirstChild (tagDef parser t)
                \<and> length (Text (nodes parser ?par)) + length (Children (nodes parser ?par)) > 0")
    case False
    with "1.prems" ne t have "p' = pushTail ?par node t parser"
      by (subst (asm) pushNodeOnStack.simps) (auto simp: Let_def)
    with ne show ?thesis by (simp add: leads_pushTail1 nodeStack_pushTail)
  next
    case True
    from "1.prems" ne t True obtain pt where pt: "TagDefinition (nodes parser ?par) = Some pt"
      by (subst (asm) pushNodeOnStack.simps) (auto simp: Let_def split: option.splits)
    show ?thesis
    proof (cases "Name (tagDef parser pt) \<noteq> ''#root''")
      case False
      with "1.prems" ne t True pt have "p' = pushTail ?par node t parser"
        by (subst (asm) pushNodeOnStack.simps) (auto simp: Let_def)
      with ne show ?thesis by (simp add: leads_pushTail1 nodeStack_pushTail)
    next
      case nr: True
      let ?nd = "newDocumentNode (Name (tagDef parser pt)) (Indent (nodes parser ?par))"
      from "1.prems" ne t True pt nr obtain p1 p3 where
        c: "closeTopTag parser = Some p1"
        and r: "pushNodeOnStack (fst (?nd p1)) (snd (?nd p1)) = Some p3"
        and e: "p' = pushTail (fst (?nd p1)) node t p3"
        by (subst (asm) pushNodeOnStack.simps) (auto simp: Let_def split: option.splits)
      have len: "length (nodeStack parser) \<noteq> 0" using ne by simp
      from "1.IH"[OF len refl t True pt nr c r]
      have ih: "leads (snd (?nd p1)) p3" "nodeStack p3 \<noteq> []" by simp_all
      have "leads parser p1" using c by (rule leads_closeTopTag) simp
      then have "leads parser (snd (?nd p1))" by simp
      from this ih(1) have "leads parser p3" by (rule leads_trans)
      with ih(2) show ?thesis by (simp add: e leads_pushTail nodeStack_pushTail)
    qed
  qed
qed

lemma leads_pushNodeOnStack:
  "pushNodeOnStack node p = Some p' \<Longrightarrow> leads q p \<Longrightarrow> leads q p'"
  using pushNodeOnStack_Some leads_trans by blast

lemma view_updates [simp]:
  "view (p\<lparr>secmode := m\<rparr>) = view p"
  "view (p\<lparr>styleStack := ss\<rparr>) = view p"
  "view (p\<lparr>styleNodes := sn\<rparr>) = view p"
  "view (p\<lparr>styleNodeCount := k\<rparr>) = view p"
  "view (p\<lparr>countersStore := cs\<rparr>) = view p"
  "view (p\<lparr>countersCount := k\<rparr>) = view p"
  "view (p\<lparr>grammar := g\<rparr>) = view p"
  "view (p\<lparr>logged := l\<rparr>) = view p"
  "view (p\<lparr>nodeCount := k\<rparr>) = view p"
  by (simp_all add: view_def)

lemma leads_updates [simp]:
  "leads q (p\<lparr>secmode := m\<rparr>) = leads q p"
  "leads q (p\<lparr>styleStack := ss\<rparr>) = leads q p"
  "leads q (p\<lparr>styleNodes := sn\<rparr>) = leads q p"
  "leads q (p\<lparr>styleNodeCount := k\<rparr>) = leads q p"
  "leads q (p\<lparr>countersStore := cs\<rparr>) = leads q p"
  "leads q (p\<lparr>countersCount := k\<rparr>) = leads q p"
  "leads q (p\<lparr>grammar := g\<rparr>) = leads q p"
  "leads q (p\<lparr>logged := l\<rparr>) = leads q p"
  "leads q (p\<lparr>nodeCount := k\<rparr>) = leads q p"
  by (rule leads_view, simp)+

lemma leads_scn_update: "keeps (scn p) s \<Longrightarrow> leads q p \<Longrightarrow> leads q (p\<lparr>scn := s\<rparr>)"
  by (auto simp: leads_def stacksOk_def intro: keeps_trans)

lemma leads_fixParentsLoop:
  "fixParentsLoop i defaults ind p = Some (d, p') \<Longrightarrow> leads q p \<Longrightarrow> leads q p'"
  by (induction i arbitrary: p) (auto split: if_splits option.splits dest: leads_closeTags)

lemma leads_openDefaults:
  "openDefaults k defaults ind p = Some p' \<Longrightarrow> leads q p \<Longrightarrow> leads q p'"
proof (induction k arbitrary: p)
  case 0
  then show ?case by simp
next
  case (Suc k)
  let ?nd = "newDocumentNode (Name (tagDef p (defaults ! Suc k))) ind p"
  from Suc.prems(1) obtain p2 where
    a: "pushNodeOnStack (fst ?nd) (snd ?nd) = Some p2" and b: "openDefaults k defaults ind p2 = Some p'"
    by (auto simp: case_prod_beta Let_def split: if_splits option.splits)
  have "leads q (snd ?nd)" using Suc.prems(2) by simp
  with a have "leads q p2" by (rule leads_pushNodeOnStack)
  with b show ?case by (rule Suc.IH)
qed

lemma leads_openTag2:
  "openTag2 fuel tag node fixp p = Some p' \<Longrightarrow> leads q p \<Longrightarrow> leads q p'"
proof -
  assume a: "openTag2 fuel tag node fixp p = Some p'" and l: "leads q p"
  let ?p0 = "closeStyles p"
  from a obtain p2 p3 where
    m: "(if fixp then
                 (case defaultsChain fuel (grammar ?p0) tag [tag] of
                    None \<Rightarrow> None
                  | Some defaults \<Rightarrow>
                      (case fixParentsLoop (length (tagStack ?p0)) defaults
                              (Indent (nodes ?p0 node)) ?p0 of
                         None \<Rightarrow> None
                       | Some (depth, p1) \<Rightarrow>
                           openDefaults depth defaults (Indent (nodes p1 node)) p1))
               else Some ?p0) = Some p2"
    and n: "pushNodeOnStack node p2 = Some p3"
    and e: "p' = p3\<lparr>secmode := SectionMode (tagDef p3 tag)\<rparr>"
    unfolding openTag2_def Let_def by (auto split: option.splits)
  have l0: "leads q ?p0" using l by simp
  have "leads q p2"
  proof (cases fixp)
    case False
    with m l0 show ?thesis by simp
  next
    case True
    with m obtain defaults depth p1 where
      f: "fixParentsLoop (length (tagStack ?p0)) defaults (Indent (nodes ?p0 node)) ?p0 = Some (depth, p1)"
      and o: "openDefaults depth defaults (Indent (nodes p1 node)) p1 = Some p2"
      by (auto split: option.splits)
    from f l0 have "leads q p1" by (rule leads_fixParentsLoop)
    with o show ?thesis by (rule leads_openDefaults)
  qed
  with n have "leads q p3" by (rule leads_pushNodeOnStack)
  then show ?thesis by (simp add: e)
qed

lemma leads_openTag:
  "openTag fuel tag p = Some (node, p') \<Longrightarrow> leads q p \<Longrightarrow> leads q p'"
proof -
  assume a: "openTag fuel tag p = Some (node, p')" and l: "leads q p"
  let ?nd = "newDocumentNode (Name (tagDef p tag)) (indent (scn p)) p"
  from a obtain attributes p2 where
    b: "parseAttributes fuel (Some tag) (snd ?nd) = Some (attributes, p2)"
    and c: "openTag2 fuel tag (fst ?nd) True
              (p2\<lparr>nodes := (nodes p2)(fst ?nd := (nodes p2 (fst ?nd))\<lparr>Attributes := attributes\<rparr>)\<rparr>) = Some p'"
    unfolding openTag_def Let_def by (auto simp: case_prod_beta split: option.splits)
  have "leads q (snd ?nd)" using l by simp
  with b have "leads q p2" by (rule leads_parseAttributes)
  then have "leads q (p2\<lparr>nodes := (nodes p2)(fst ?nd := (nodes p2 (fst ?nd))\<lparr>Attributes := attributes\<rparr>)\<rparr>)"
    by simp
  with c show ?thesis by (rule leads_openTag2)
qed

lemma leads_openTableCell:
  "openTableCell fuel p = Some p' \<Longrightarrow> leads q p \<Longrightarrow> leads q p'"
proof -
  assume a: "openTableCell fuel p = Some p'" and l: "leads q p"
  show ?thesis
  proof (cases "tagLevel (GetTag (grammar p) ''#tbody-cell'') (GetTag (grammar p) ''#thead-cell'') p \<noteq> None")
    case True
    with a l show ?thesis by (simp add: openTableCell_def)
  next
    case False
    with a obtain tag where
      c: "openTag2 fuel tag (fst (newDocumentNode (Name (tagDef p tag)) (indent (scn p)) p)) True
            (snd (newDocumentNode (Name (tagDef p tag)) (indent (scn p)) p)) = Some p'"
      unfolding openTableCell_def Let_def
      by (auto simp: case_prod_beta split: option.splits if_splits)
    from c show ?thesis by (rule leads_openTag2) (use l in simp)
  qed
qed

lemma view_AppendText [simp]: "view (AppendText x n p) = view p"
  by (simp add: AppendText_def view_def split: NodeWithText.splits)

lemma leads_AppendText [simp]: "leads q (AppendText x n p) = leads q p"
  by (rule leads_view) simp

lemma leads_inTableCell:
  "inTableCell fuel p = Some p' \<Longrightarrow> leads q p \<Longrightarrow> leads q p'"
  by (auto simp: inTableCell_def split: if_splits dest: leads_openTableCell)

lemma leads_textTarget:
  "textTarget fuel p = Some (x, p') \<Longrightarrow> leads q p \<Longrightarrow> leads q p'"
proof -
  assume a: "textTarget fuel p = Some (x, p')" and l: "leads q p"
  have "p' = p \<or> (\<exists>node pt. openTag2 fuel pt (fst (newDocumentNode ''#p'' (Indent (nodes p node) + 1) p)) True
                      (snd (newDocumentNode ''#p'' (Indent (nodes p node) + 1) p)) = Some p')"
    using a unfolding textTarget_def Let_def
    by (auto simp: case_prod_beta split: option.splits NodeWithText.splits if_splits)
  then show ?thesis
  proof
    assume "p' = p" with l show ?thesis by simp
  next
    assume "\<exists>node pt. openTag2 fuel pt (fst (newDocumentNode ''#p'' (Indent (nodes p node) + 1) p)) True
                      (snd (newDocumentNode ''#p'' (Indent (nodes p node) + 1) p)) = Some p'"
    then obtain node pt where
      "openTag2 fuel pt (fst (newDocumentNode ''#p'' (Indent (nodes p node) + 1) p)) True
                      (snd (newDocumentNode ''#p'' (Indent (nodes p node) + 1) p)) = Some p'" by blast
    then show ?thesis by (rule leads_openTag2) (use l in simp)
  qed
qed

lemma leads_openWithText:
  "openWithText fuel tag ind text p = Some p' \<Longrightarrow> leads q p \<Longrightarrow> leads q p'"
proof -
  assume a: "openWithText fuel tag ind text p = Some p'" and l: "leads q p"
  let ?nd = "newDocumentNode tag ind p"
  let ?p2 = "(snd ?nd)\<lparr>nodes := (nodes (snd ?nd))(fst ?nd := (nodes (snd ?nd) (fst ?nd))\<lparr>Text := text\<rparr>)\<rparr>"
  from a obtain t where "openTag2 fuel t (fst ?nd) True ?p2 = Some p'"
    unfolding openWithText_def Let_def by (auto simp: case_prod_beta split: option.splits)
  then show ?thesis by (rule leads_openTag2) (use l in simp)
qed

lemma leads_rewriteTerm:
  "rewriteTerm fuel x text p = Some p' \<Longrightarrow> leads q p \<Longrightarrow> leads q p'"
proof -
  assume a: "rewriteTerm fuel x text p = Some p'" and l: "leads q p"
  have "p' = p \<or> (\<exists>parag p1 pp p2 p3. closeTopTag p = Some p1
          \<and> openWithText fuel ''#dt'' (Indent (nodes p1 parag)) (Text (nodes p1 parag))
               (p1\<lparr>nodes := RemoveChild pp parag (nodes p1)\<rparr>) = Some p2
          \<and> closeTopTag p2 = Some p3
          \<and> openWithText fuel ''#dd'' (Indent (nodes p3 parag)) (Text (nodes p3 parag)) p3 = Some p')"
    using a unfolding rewriteTerm_def
    by (auto split: option.splits NodeWithText.splits if_splits)
  then show ?thesis
  proof
    assume "p' = p" with l show ?thesis by simp
  next
    assume "\<exists>parag p1 pp p2 p3. closeTopTag p = Some p1
          \<and> openWithText fuel ''#dt'' (Indent (nodes p1 parag)) (Text (nodes p1 parag))
               (p1\<lparr>nodes := RemoveChild pp parag (nodes p1)\<rparr>) = Some p2
          \<and> closeTopTag p2 = Some p3
          \<and> openWithText fuel ''#dd'' (Indent (nodes p3 parag)) (Text (nodes p3 parag)) p3 = Some p'"
    then obtain parag p1 pp p2 p3 where c1: "closeTopTag p = Some p1"
      and o1: "openWithText fuel ''#dt'' (Indent (nodes p1 parag)) (Text (nodes p1 parag))
               (p1\<lparr>nodes := RemoveChild pp parag (nodes p1)\<rparr>) = Some p2"
      and c2: "closeTopTag p2 = Some p3"
      and o2: "openWithText fuel ''#dd'' (Indent (nodes p3 parag)) (Text (nodes p3 parag)) p3 = Some p'"
      by blast
    from c1 l have "leads q p1" by (rule leads_closeTopTag)
    then have "leads q (p1\<lparr>nodes := RemoveChild pp parag (nodes p1)\<rparr>)" by simp
    with o1 have "leads q p2" by (rule leads_openWithText)
    with c2 have "leads q p3" by (rule leads_closeTopTag)
    with o2 show ?thesis by (rule leads_openWithText)
  qed
qed

lemma leads_parseText:
  "parseText fuel p = Some p' \<Longrightarrow> leads q p \<Longrightarrow> leads q p'"
proof -
  assume a: "parseText fuel p = Some p'" and l: "leads q p"
  from a obtain p1 where i: "inTableCell fuel p = Some p1"
    unfolding parseText_def by (auto split: option.splits)
  from i l have l1: "leads q p1" by (rule leads_inTableCell)
  show ?thesis
  proof (cases "secmode p1 \<noteq> sectionMedia")
    case False
    with a i l1 show ?thesis by (auto simp: parseText_def)
  next
    case True
    with a i obtain x p2 where t: "textTarget fuel p1 = Some (x, p2)"
      unfolding parseText_def by (auto split: option.splits)
    from t l1 have l2: "leads q p2" by (rule leads_textTarget)
    show ?thesis
    proof (cases x)
      case None
      with a i True t l2 show ?thesis by (auto simp: parseText_def)
    next
      case (Some y)
      with a i True t obtain p3 where
        r: "rewriteTerm fuel y (tokenStr p2) (AppendText y (TextNode (tokenStr p2) y) p2) = Some p3"
        and e: "p' = Parser_next p3"
        unfolding parseText_def by (auto split: option.splits)
      from r have "leads q p3" by (rule leads_rewriteTerm) (use l2 in simp)
      then show ?thesis by (simp add: e)
    qed
  qed
qed

lemma leads_parseInline:
  "parseInline mk fuel p = Some p' \<Longrightarrow> leads q p \<Longrightarrow> leads q p'"
  by (auto simp: parseInline_def split: option.splits if_splits dest: leads_inTableCell)

lemma leads_openEnum:
  "openEnum fuel enumTag ind p = Some p' \<Longrightarrow> leads q p \<Longrightarrow> leads q p'"
proof -
  assume a: "openEnum fuel enumTag ind p = Some p'" and l: "leads q p"
  from a obtain e where
    "openTag2 fuel e (fst (newDocumentNode (Name (tagDef p e)) ind p)) True
       (snd (newDocumentNode (Name (tagDef p e)) ind p)) = Some p'"
    unfolding openEnum_def Let_def by (auto simp: case_prod_beta split: option.splits)
  then show ?thesis by (rule leads_openTag2) (use l in simp)
qed

lemma leads_enumContainer:
  "enumContainer fuel enumTag ind par sib p = Some p' \<Longrightarrow> leads q p \<Longrightarrow> leads q p'"
proof -
  assume a: "enumContainer fuel enumTag ind par sib p = Some p'" and l: "leads q p"
  have "\<exists>level p1. closeTags level p = Some p1
          \<and> ((\<exists>h. p' = p1\<lparr>nodes := h\<rparr>) \<or> openEnum fuel enumTag ind p1 = Some p')"
    using a unfolding enumContainer_def
    by (auto split: option.splits if_splits)
  then obtain level p1 where c: "closeTags level p = Some p1"
    and d: "(\<exists>h. p' = p1\<lparr>nodes := h\<rparr>) \<or> openEnum fuel enumTag ind p1 = Some p'" by blast
  from c l have l1: "leads q p1" by (rule leads_closeTags)
  from d show ?thesis
  proof
    assume "\<exists>h. p' = p1\<lparr>nodes := h\<rparr>" with l1 show ?thesis by auto
  next
    assume "openEnum fuel enumTag ind p1 = Some p'"
    then show ?thesis using l1 by (rule leads_openEnum)
  qed
qed

lemma leads_enumItem:
  "enumItem fuel tag ind p = Some p' \<Longrightarrow> leads q p \<Longrightarrow> leads q p'"
proof -
  assume a: "enumItem fuel tag ind p = Some p'" and l: "leads q p"
  from a obtain li where li: "tag = Some li" unfolding enumItem_def by (auto split: option.splits)
  let ?nd = "newDocumentNode (Name (tagDef p li)) ind p"
  from a li obtain attributes p2 where
    b: "parseAttributes fuel (Some li) (snd ?nd) = Some (attributes, p2)"
    and c: "openTag2 fuel li (fst ?nd) False
              (p2\<lparr>nodes := (nodes p2)(fst ?nd := (nodes p2 (fst ?nd))\<lparr>Attributes := attributes\<rparr>)\<rparr>) = Some p'"
    unfolding enumItem_def Let_def by (auto simp: case_prod_beta split: option.splits)
  have "leads q (snd ?nd)" using l by simp
  with b have "leads q p2" by (rule leads_parseAttributes)
  then have "leads q (p2\<lparr>nodes := (nodes p2)(fst ?nd := (nodes p2 (fst ?nd))\<lparr>Attributes := attributes\<rparr>)\<rparr>)"
    by simp
  with c show ?thesis by (rule leads_openTag2)
qed

lemma leads_parseEnum:
  "parseEnum fuel p = Some p' \<Longrightarrow> leads q p \<Longrightarrow> leads q p'"
proof -
  assume a: "parseEnum fuel p = Some p'" and l: "leads q p"
  from a obtain enumTag ind par sib tag p1 where
    c: "enumContainer fuel enumTag ind par sib p = Some p1"
    and i: "enumItem fuel tag ind p1 = Some p'"
    unfolding parseEnum_def Let_def by (auto split: option.splits)
  from c l have "leads q p1" by (rule leads_enumContainer)
  with i show ?thesis by (rule leads_enumItem)
qed

lemma view_newStyleNode [simp]: "view (snd (newStyleNode n v d a x p)) = view p"
  by (simp add: newStyleNode_def Let_def)

lemma leads_newStyleNode [simp]: "leads q (snd (newStyleNode n v d a x p)) = leads q p"
  by (rule leads_view) simp

lemma view_pushStyle [simp]: "view (pushStyle r p) = view p"
  by (simp add: pushStyle_def)

lemma leads_pushStyle [simp]: "leads q (pushStyle r p) = leads q p"
  by (rule leads_view) simp

lemma leads_toggleStyle [simp]: "leads q p \<Longrightarrow> leads q (toggleStyle n x p)"
  by (simp add: toggleStyle_def Let_def case_prod_beta)

lemma leads_styleAttributesLoop:
  "styleAttributesLoop fuel r p = Some p' \<Longrightarrow> leads q p \<Longrightarrow> leads q p'"
  by (induction fuel arbitrary: p) (auto split: if_splits)

lemma leads_namedStyle:
  "namedStyle fuel x p = Some p' \<Longrightarrow> leads q p \<Longrightarrow> leads q p'"
proof -
  assume a: "namedStyle fuel x p = Some p'" and l: "leads q p"
  let ?p1 = "Parser_next p"
  have l1: "leads q ?p1" using l by simp
  show ?thesis
  proof (cases "token ?p1 \<noteq> TokenValue")
    case True
    with a l1 show ?thesis by (auto simp: namedStyle_def Let_def)
  next
    case False
    with a obtain n v d at p3 where
      s: "styleAttributesLoop fuel (fst (newStyleNode n v d at x ?p1))
             (Parser_next (snd (newStyleNode n v d at x ?p1))) = Some p3"
      and e: "p' = pushStyle (fst (newStyleNode n v d at x ?p1)) p3"
      unfolding namedStyle_def Let_def
      by (auto simp: case_prod_beta split: option.splits)
    from s have "leads q p3" by (rule leads_styleAttributesLoop) (use l1 in simp)
    then show ?thesis by (simp add: e)
  qed
qed

lemma leads_parseStyle:
  "parseStyle fuel p = Some p' \<Longrightarrow> leads q p \<Longrightarrow> leads q p'"
proof -
  assume a: "parseStyle fuel p = Some p'" and l: "leads q p"
  from a obtain p1 where i: "inTableCell fuel p = Some p1"
    unfolding parseStyle_def by (auto split: option.splits)
  from i l have l1: "leads q p1" by (rule leads_inTableCell)
  from a i have "p' = Parser_next (closeStyle ''}'' p1)
      \<or> (\<exists>n x. p' = toggleStyle n x p1) \<or> (\<exists>x. namedStyle fuel x p1 = Some p')"
    unfolding parseStyle_def by (auto split: option.splits if_splits)
  with l1 show ?thesis by (auto dest: leads_namedStyle)
qed

lemma leads_parseEntity:
  "parseEntity fuel p = Some p' \<Longrightarrow> leads q p \<Longrightarrow> leads q p'"
proof -
  assume a: "parseEntity fuel p = Some p'" and l: "leads q p"
  from a obtain p1 where i: "inTableCell fuel p = Some p1"
    unfolding parseEntity_def by (auto split: option.splits)
  from i l have l1: "leads q p1" by (rule leads_inTableCell)
  from a i obtain attribs p2 where pa: "parseAttributes fuel None p1 = Some (attribs, p2)"
    unfolding parseEntity_def Let_def by (auto split: option.splits)
  from pa l1 have l2: "leads q p2" by (rule leads_parseAttributes)
  from a i pa have "view p' = view p2"
    unfolding parseEntity_def Let_def by (auto split: option.splits)
  then have "leads q p' = leads q p2" by (rule leads_view)
  with l2 show ?thesis by simp
qed

lemma leads_parseTableCell:
  "parseTableCell fuel p = Some p' \<Longrightarrow> leads q p \<Longrightarrow> leads q p'"
  by (auto simp: parseTableCell_def split: option.splits
           dest: leads_closeTableCell leads_openTableCell)

lemma leads_parseTableRow:
  "parseTableRow p = Some p' \<Longrightarrow> leads q p \<Longrightarrow> leads q p'"
  by (auto simp: parseTableRow_def split: option.splits dest: leads_closeTableRow)

lemma keeps_sectionLayout [simp]: "keeps s (sectionLayout m s') = keeps s s'"
  by (simp add: sectionLayout_def)

lemma leads_parseTag:
  "parseTag fuel p = Some p' \<Longrightarrow> leads q p \<Longrightarrow> leads q p'"
proof -
  assume a: "parseTag fuel p = Some p'" and l: "leads q p"
  define tagname where
    "tagname = (case Index (tokenStr p) CHR '':'' of None \<Rightarrow> tokenStr p | Some i \<Rightarrow> take i (tokenStr p))"
  define tp where
    "tp = (case GetTag (grammar p) tagname of
               None \<Rightarrow> (GetTag (grammar p) ''#p'',
                         logPrintf (LogUnknownTag (FromLine (tokenPos p)) tagname) p)
             | Some t \<Rightarrow> (Some t, p))"
  have v1: "view (snd tp) = view p" by (simp add: tp_def split: option.splits)
  from a obtain t where t: "fst tp = Some t"
    unfolding parseTag_def Let_def tp_def tagname_def
    by (auto simp: case_prod_beta split: option.splits)
  define p1 where "p1 = (snd tp)\<lparr>scn := sectionLayout (SectionMode (tagDef (snd tp) t)) (scn (snd tp))\<rparr>"
  from a t obtain node p2 where o: "openTag fuel t p1 = Some (node, p2)"
    unfolding parseTag_def Let_def tp_def tagname_def p1_def
    by (auto simp: case_prod_beta split: option.splits)
  from a t o have e: "view p' = view p2"
    unfolding parseTag_def Let_def tp_def tagname_def p1_def
    by (auto simp: case_prod_beta split: option.splits if_splits)
  from v1 l have "leads q (snd tp)" using leads_view by blast
  then have "leads q p1" unfolding p1_def
    by (intro leads_scn_update) simp_all
  with o have "leads q p2" by (rule leads_openTag)
  with e show ?thesis using leads_view by blast
qed

lemma leads_parseConfig:
  "leads q p \<Longrightarrow> leads q (fst (parseConfig env p))"
  by (simp add: parseConfig_def Let_def split: sum.splits YamlNode.splits)

lemma leads_startConfig:
  "leads q p \<Longrightarrow> leads q (fst (startConfig env p))"
  unfolding startConfig_def
  by (intro leads_parseConfig leads_Parser_next leads_scn_update keeps_skipWhitespace) simp_all

lemma leads_codeTextLoop:
  "codeTextLoop fuel str p = Some (str', p') \<Longrightarrow> leads q p \<Longrightarrow> leads q p'"
  by (induction fuel arbitrary: str p) (auto split: if_splits)

lemma leads_defineWith:
  "defineWith env fuel body register p = Some (p', e) \<Longrightarrow> leads q p \<Longrightarrow> leads q p'"
proof -
  assume a: "defineWith env fuel body register p = Some (p', e)" and l: "leads q p"
  let ?p1 = "fst (startConfig env p)"
  have l1: "leads q ?p1" using l by (rule leads_startConfig)
  from a have "p' = ?p1 \<or> (\<exists>txt p2 g. codeTextLoop fuel '''' ?p1 = Some (txt, p2)
                               \<and> (p' = p2 \<or> p' = p2\<lparr>grammar := g\<rparr>))"
    unfolding defineWith_def Let_def
    by (auto simp: case_prod_beta split: sum.splits option.splits)
  with l1 show ?thesis by (auto dest: leads_codeTextLoop)
qed

lemma leads_parseSection:
  "parseSection env fuel p = Some (p', e) \<Longrightarrow> leads q p \<Longrightarrow> leads q p'"
  unfolding parseSection_def Let_def defineTag_def defineEntity_def defineStyle_def
  by (auto split: if_splits dest: leads_defineWith leads_parseTag)

lemma leads_parseToken:
  "parseToken env fuel p = Some (p', e) \<Longrightarrow> leads q p \<Longrightarrow> leads q p'"
  unfolding parseToken_def
  by (auto split: Token.splits
           dest: leads_parseSection leads_parseEnum leads_parseText leads_parseInline
                 leads_parseStyle leads_parseEntity leads_parseTableCell leads_parseTableRow)

lemma leads_parseLoop:
  "parseLoop env fuel rounds p = Some (p', e) \<Longrightarrow> leads q p \<Longrightarrow> leads q p'"
proof (induction rounds arbitrary: p)
  case 0
  then show ?case by simp
next
  case (Suc rounds)
  show ?case
  proof (cases "token p = TokenEOF")
    case True
    with Suc.prems show ?thesis by simp
  next
    case False
    with Suc.prems(1) obtain p1 e1 where t: "parseToken env fuel p = Some (p1, e1)"
      by (auto split: option.splits)
    from t Suc.prems(2) have l1: "leads q p1" by (rule leads_parseToken)
    show ?thesis
    proof (cases e1)
      case None
      with False t Suc.prems(1) have "parseLoop env fuel rounds p1 = Some (p', e)" by simp
      then show ?thesis using l1 by (rule Suc.IH)
    next
      case (Some err)
      with False t Suc.prems(1) have "p' = p1" by simp
      with l1 show ?thesis by simp
    qed
  qed
qed

text \<open>When the main loop ends without error, the current token is \<open>TokenEOF\<close>.\<close>

lemma parseLoop_EOF:
  "parseLoop env fuel rounds p = Some (p', None) \<Longrightarrow> token p' = TokenEOF"
proof (induction rounds arbitrary: p)
  case 0
  then show ?case by simp
next
  case (Suc rounds)
  show ?case
  proof (cases "token p = TokenEOF")
    case True
    with Suc.prems show ?thesis by simp
  next
    case False
    with Suc.prems obtain p1 where "parseToken env fuel p = Some (p1, None)"
      and "parseLoop env fuel rounds p1 = Some (p', None)"
      by (auto split: option.splits)
    then show ?thesis using Suc.IH by blast
  qed
qed

section \<open>The end of a parse\<close>

lemma closeStyles_fields [simp]:
  "styleStack (closeStyles p) = []" "token (closeStyles p) = token p"
proof -
  have "token (foldl (\<lambda>p r. logPrintf (f r) p) p xs) = token p" for f xs
    by (induction xs arbitrary: p) (simp_all add: logPrintf_def)
  then show "styleStack (closeStyles p) = []" "token (closeStyles p) = token p"
    by (simp_all add: closeStyles_def)
qed

lemma closeTags_styleStack:
  "closeTags level p = Some p' \<Longrightarrow> styleStack p' = [] \<and> token p' = token p"
  by (auto simp: closeTags_def Let_def split: option.splits)

text \<open>
  Claim C2. \<open>parse\<close> starts with an empty tag stack and a node stack that holds the root
  node. Whenever it returns a document, that is when its main loop has reached
  \<open>TokenEOF\<close> and \<open>closeTags(0)\<close> has run, the tag stack is empty, the node stack holds
  the root node and nothing else, no style is open, and the document returned is the
  root node.
\<close>
theorem parse_closes_all_tags:
  assumes "parse env fuel parser = Some (p', Inr doc)"
  shows "tagStack p' = [] \<and> nodeStack p' = [rootNode parser] \<and> styleStack p' = []
         \<and> doc = rootNode parser \<and> rootNode p' = rootNode parser \<and> token p' = TokenEOF"
proof -
  define p0 where "p0 = (Parser_next parser)
                 \<lparr>tagStack := [], nodeStack := [rootNode parser], styleStack := [],
                  secmode := sectionNormal, tableInbody := False\<rparr>"
  have r0: "rootNode p0 = rootNode parser"
    by (simp add: p0_def Parser_next_def case_prod_beta)
  have ok0: "stacksOk p0" by (simp add: stacksOk_def p0_def Parser_next_def case_prod_beta)
  from assms obtain p1 where l: "parseLoop env fuel fuel p0 = Some (p1, None)"
    and c: "closeTags 0 p1 = Some p'" and d: "doc = rootNode p'"
    unfolding parse_def Let_def p0_def[symmetric]
    by (auto split: option.splits)
  from l have "leads p0 p1" by (rule leads_parseLoop) simp
  with ok0 have ok1: "stacksOk p1" and r1: "rootNode p1 = rootNode p0" by (simp_all add: leads_def)
  note f = closeTags_fields[OF c]
  from ok1 have len: "length (nodeStack p1) = Suc (length (tagStack p1))"
    and hd: "nodeStack p1 ! 0 = rootNode p1" by (simp_all add: stacksOk_def)
  have t: "tagStack p' = []" by (simp add: f(3))
  have "nodeStack p' = take 1 (nodeStack p1)" using len by (simp add: f(4))
  also have "\<dots> = [nodeStack p1 ! 0]" using len by (cases "nodeStack p1") simp_all
  finally have n: "nodeStack p' = [rootNode parser]" by (simp add: hd r1 r0)
  from parseLoop_EOF[OF l] closeTags_styleStack[OF c]
  have "styleStack p' = []" "token p' = TokenEOF" by simp_all
  with t n d show ?thesis by (simp add: f(1) r1 r0)
qed

section \<open>Errors of the scanner\<close>






section \<open>Three documents\<close>

text \<open>
  A list of two items, the second indented by two columns; the bytes \<open>a b NUL c\<close>; and
  the bytes \<open>a 0xFF c\<close>. The facts below are what \<open>parse\<close> and \<open>ParseMarkdown\<close> compute for
  them on the builtin grammar.
\<close>

definition nestedList :: string where
  "nestedList = ''- a\<newline>  - b''"


definition withBadByte :: string where
  "withBadByte = [CHR ''a'', CHR 0xFF, CHR ''c'']"

lemma parse_case:
  "(case x of Some (p, Inr d) \<Rightarrow> P p d | _ \<Rightarrow> False) \<Longrightarrow> \<exists>p d. x = Some (p, Inr d) \<and> P p d"
  by (cases x) (auto split: sum.splits)


lemma run_nestedList:
  "(case parse noEnv 8 (NewParser NewGrammar nestedList) of
      Some (p, Inr doc) \<Rightarrow>
        doc = 0 \<and> Errors (scn p) = [] \<and> nodeCount p = 5
        \<and> Tag (nodes p 1) = ''#ul'' \<and> Tag (nodes p 2) = ''#li''
        \<and> Tag (nodes p 3) = ''#ul'' \<and> Tag (nodes p 4) = ''#li''
        \<and> Indent (nodes p 1) = 0 \<and> Indent (nodes p 3) = 2
        \<and> Children (nodes p 0) = [1] \<and> Children (nodes p 1) = [2, 3]
        \<and> Children (nodes p 2) = [] \<and> Children (nodes p 3) = [4]
        \<and> Parent (nodes p 2) = Some 1 \<and> Parent (nodes p 3) = Some 1
        \<and> Parent (nodes p 4) = Some 3
        \<and> Text (nodes p 2) = [TextNode '' a\<newline>  '' (DocumentNodeRef 2)]
    | _ \<Rightarrow> False)"
  by (simp add: nestedList_def run_defs split del: if_split)


lemma run_withBadByte:
  "(case ParseMarkdown noEnv 8 (NewParser NewGrammar withBadByte) of
      Some (p, r) \<Rightarrow>
        Errors (scn p) =
          [\<lparr>Pos = \<lparr>FromLine = 0, FromLinePos = 1, From = 1, To = 1\<rparr>,
            ErrorText = ''illegal UTF-8 encoding''\<rparr>]
    | None \<Rightarrow> False)"
  by (simp add: withBadByte_def run_defs split del: if_split)

text \<open>
  Witness for C2: the parse of the nested list returns a document; four nodes were
  opened, and at the end the tag stack is empty and the node stack holds the root only.
\<close>
theorem parse_closes_all_tags_witness:
  "snd (the (parse noEnv 8 (NewParser NewGrammar nestedList))) = Inr 0
   \<and> nodeCount (fst (the (parse noEnv 8 (NewParser NewGrammar nestedList)))) = 5
   \<and> tagStack (fst (the (parse noEnv 8 (NewParser NewGrammar nestedList)))) = []
   \<and> nodeStack (fst (the (parse noEnv 8 (NewParser NewGrammar nestedList)))) = [0]
   \<and> styleStack (fst (the (parse noEnv 8 (NewParser NewGrammar nestedList)))) = []"
proof -
  from parse_case[OF run_nestedList] obtain p where
    e: "parse noEnv 8 (NewParser NewGrammar nestedList) = Some (p, Inr 0)" and n: "nodeCount p = 5"
    by blast
  have r: "rootNode (NewParser NewGrammar nestedList) = 0" by (simp add: NewParser_def)
  from parse_closes_all_tags[OF e] n r show ?thesis
    unfolding e by simp
qed


end
